theory Spec2Isabelle
  imports Complex_Main
begin

section \<open>Errors and results\<close>

text \<open>
  The Python exceptions the modelled code can raise.  A computation that may raise
  returns \<open>error + 'a\<close>, with \<open>Inl\<close> for the exception.
\<close>

datatype error =
  RuntimeError | ValueError | ZeroDivisionError | AssertionError | IndexError | EinopsError
  | AttributeError

definition thenE :: "error + 'a \<Rightarrow> ('a \<Rightarrow> error + 'b) \<Rightarrow> error + 'b" where
  "thenE r f = (case r of Inl e \<Rightarrow> Inl e | Inr v \<Rightarrow> f v)"

section \<open>Dense tensors\<close>

text \<open>
  A tensor is its shape together with its elements in row-major (contiguous) order.
  Every tensor of the model is contiguous: \<open>x.permute(...).contiguous()\<close> of the source
  is the single operation \<open>permute\<close>, which materialises the permuted elements.
\<close>

record 'a tensor =
  shape :: "nat list"
  data :: "'a list"

definition wf :: "'a tensor \<Rightarrow> bool" where
  "wf t = (length (data t) = prod_list (shape t))"

text \<open>An argument of \<open>view\<close>/\<open>reshape\<close>: a given size, or \<open>-1\<close> (to be inferred).\<close>

datatype dim = D nat | Infer

fun known :: "dim list \<Rightarrow> nat list" where
  "known [] = []"
| "known (D n # ds) = n # known ds"
| "known (Infer # ds) = known ds"

text \<open>
  Size inference of \<open>view\<close> and \<open>reshape\<close> for a tensor of \<open>n\<close> elements: with no \<open>-1\<close>
  the sizes must multiply to \<open>n\<close>; with one \<open>-1\<close> the product of the other sizes must be
  positive and divide \<open>n\<close> (a zero product is rejected as ambiguous); two \<open>-1\<close> are
  rejected.
\<close>

definition infer_size :: "dim list \<Rightarrow> nat \<Rightarrow> error + nat list" where
  "infer_size spec n =
     (let newsize = prod_list (known spec); k = count_list spec Infer in
      if k = 0 then (if newsize = n then Inr (known spec) else Inl RuntimeError)
      else if k = 1 then
        (if 0 < newsize \<and> n mod newsize = 0
         then Inr (map (\<lambda>d. case d of D m \<Rightarrow> m | Infer \<Rightarrow> n div newsize) spec)
         else Inl RuntimeError)
      else Inl RuntimeError)"

definition view :: "'a tensor \<Rightarrow> dim list \<Rightarrow> error + 'a tensor" where
  "view t spec = thenE (infer_size spec (prod_list (shape t))) (\<lambda>s. Inr (t\<lparr>shape := s\<rparr>))"

text \<open>Contiguous strides of a shape, the memory offset of a multi-index, and the
  multi-index of a flat position.\<close>

fun strides :: "nat list \<Rightarrow> nat list" where
  "strides [] = []"
| "strides (d # ds) = prod_list ds # strides ds"

fun offset :: "nat list \<Rightarrow> nat list \<Rightarrow> nat" where
  "offset (i # is) (s # ss) = i * s + offset is ss"
| "offset _ _ = 0"

fun unravel :: "nat list \<Rightarrow> nat \<Rightarrow> nat list" where
  "unravel [] k = []"
| "unravel (d # ds) k = (k div prod_list ds) # unravel ds (k mod prod_list ds)"

text \<open>
  \<open>x.permute(p).contiguous()\<close>: the result has size \<open>shape[p[j]]\<close> and stride
  \<open>stride[p[j]]\<close> in dimension \<open>j\<close>; the elements are read through the permuted strides
  in the row-major order of the new shape.  \<open>p\<close> must be a permutation of the dimensions.
\<close>

definition is_perm :: "nat list \<Rightarrow> nat \<Rightarrow> bool" where
  "is_perm p n = (length p = n \<and> distinct p \<and> (\<forall>d \<in> set p. d < n))"

definition permute :: "'a tensor \<Rightarrow> nat list \<Rightarrow> error + 'a tensor" where
  "permute t p =
     (if \<not> is_perm p (length (shape t)) then Inl RuntimeError
      else let s' = map (\<lambda>d. shape t ! d) p;
               st' = map (\<lambda>d. strides (shape t) ! d) p
           in Inr \<lparr>shape = s',
                   data = map (\<lambda>k. data t ! offset (unravel s' k) st') [0 ..< prod_list s']\<rparr>)"

text \<open>Reading an element by its multi-index, and building a tensor from a function of
  the multi-index.\<close>

definition tget :: "'a tensor \<Rightarrow> nat list \<Rightarrow> 'a" where
  "tget t idx = data t ! offset idx (strides (shape t))"

definition tabulate :: "nat list \<Rightarrow> (nat list \<Rightarrow> 'a) \<Rightarrow> 'a tensor" where
  "tabulate s f = \<lparr>shape = s, data = map (\<lambda>k. f (unravel s k)) [0 ..< prod_list s]\<rparr>"

definition full :: "nat list \<Rightarrow> 'a \<Rightarrow> 'a tensor" where
  "full s v = \<lparr>shape = s, data = replicate (prod_list s) v\<rparr>"

definition tmap :: "('a \<Rightarrow> 'b) \<Rightarrow> 'a tensor \<Rightarrow> 'b tensor" where
  "tmap f t = \<lparr>shape = shape t, data = map f (data t)\<rparr>"

text \<open>\<open>x.unsqueeze(d)\<close> for \<open>0 \<le> d \<le> rank\<close>, also written \<open>x[:, None, :]\<close>.\<close>

definition unsqueeze :: "'a tensor \<Rightarrow> nat \<Rightarrow> error + 'a tensor" where
  "unsqueeze t d =
     (if d \<le> length (shape t)
      then Inr (t\<lparr>shape := take d (shape t) @ [1] @ drop d (shape t)\<rparr>)
      else Inl IndexError)"

text \<open>\<open>torch.flatten(x, 1)\<close>: the dimensions from the second on are merged.\<close>

definition flatten1 :: "'a tensor \<Rightarrow> error + 'a tensor" where
  "flatten1 t =
     (case shape t of
        [] \<Rightarrow> Inl IndexError
      | [n] \<Rightarrow> Inl IndexError
      | n # rest \<Rightarrow> Inr (t\<lparr>shape := [n, prod_list rest]\<rparr>))"

text \<open>
  Broadcasting of an elementwise binary operation: the shapes are aligned at their last
  dimension; two sizes are compatible when they are equal or one of them is 1; an
  operand is read at index 0 along a dimension where its size is 1.
\<close>

fun broadcast_rev :: "nat list \<Rightarrow> nat list \<Rightarrow> error + nat list" where
  "broadcast_rev [] ys = Inr ys"
| "broadcast_rev xs [] = Inr xs"
| "broadcast_rev (x # xs) (y # ys) =
     (if x = y \<or> y = 1 then thenE (broadcast_rev xs ys) (\<lambda>r. Inr (x # r))
      else if x = 1 then thenE (broadcast_rev xs ys) (\<lambda>r. Inr (y # r))
      else Inl RuntimeError)"

definition broadcast_shapes :: "nat list \<Rightarrow> nat list \<Rightarrow> error + nat list" where
  "broadcast_shapes a b = thenE (broadcast_rev (rev a) (rev b)) (\<lambda>r. Inr (rev r))"

definition bindex :: "nat list \<Rightarrow> nat list \<Rightarrow> nat list" where
  "bindex s idx = map2 (\<lambda>d i. if d = 1 then 0 else i) s (drop (length idx - length s) idx)"

definition broadcast2 :: "('a \<Rightarrow> 'b \<Rightarrow> 'c) \<Rightarrow> 'a tensor \<Rightarrow> 'b tensor \<Rightarrow> error + 'c tensor" where
  "broadcast2 f a b =
     thenE (broadcast_shapes (shape a) (shape b)) (\<lambda>s.
       Inr (tabulate s (\<lambda>idx. f (tget a (bindex (shape a) idx)) (tget b (bindex (shape b) idx)))))"

section \<open>Window partition and its inverse\<close>

text \<open>
  \<open>window_partition(x, window_size)\<close>, lines 52 to 56.  \<open>B, H, W, C = x.shape\<close> raises
  ValueError unless \<open>x\<close> has four dimensions; \<open>H // window_size\<close> raises
  ZeroDivisionError for a zero window size.
\<close>

definition window_partition :: "'a tensor \<Rightarrow> nat \<Rightarrow> error + 'a tensor" where
  "window_partition x window_size =
     (case shape x of
        [B, H, W, C] \<Rightarrow>
          if window_size = 0 then Inl ZeroDivisionError
          else
            thenE (view x [D B, D (H div window_size), D window_size,
                           D (W div window_size), D window_size, D C]) (\<lambda>x.
            thenE (permute x [0, 1, 3, 2, 4, 5]) (\<lambda>x.
            view x [Infer, D window_size, D window_size, D C]))
      | _ \<Rightarrow> Inl ValueError)"

text \<open>
  \<open>window_reverse(windows, window_size, H, W)\<close>, lines 58 to 62.  The batch size is
  \<open>int(windows.shape[0] / (H * W / window_size / window_size))\<close>: true divisions, which
  raise ZeroDivisionError on a zero divisor, then truncation.  The divisions are taken
  exactly (the floating-point quotients of the source are exact whenever the window
  size divides \<open>H\<close> and \<open>W\<close> and the sizes stay below \<open>2 ^ 53\<close>).
\<close>

definition window_reverse :: "'a tensor \<Rightarrow> nat \<Rightarrow> nat \<Rightarrow> nat \<Rightarrow> error + 'a tensor" where
  "window_reverse windows window_size H W =
     (case shape windows of
        [] \<Rightarrow> Inl IndexError
      | n # _ \<Rightarrow>
          if window_size = 0 \<or> H * W = 0 then Inl ZeroDivisionError
          else
            let B = nat \<lfloor>real n / (real (H * W) / real window_size / real window_size)\<rfloor>
            in thenE (view windows [D B, D (H div window_size), D (W div window_size),
                                    D window_size, D window_size, Infer]) (\<lambda>x.
               thenE (permute x [0, 1, 3, 2, 4, 5]) (\<lambda>x.
               view x [D B, D H, D W, Infer])))"

section \<open>Quadrant split and reassembly\<close>

text \<open>
  \<open>image2patches\<close> and \<open>patches2image\<close>, lines 333 to 337, are einops \<open>rearrange\<close>
  patterns with \<open>hg = 2\<close> and \<open>wg = 2\<close>.  A \<open>rearrange\<close> is a reshape that splits the
  composed axes, a transposition into the order of the right-hand side, and a reshape
  that merges the composed axes of the result; it raises EinopsError when the number of
  dimensions is not that of the pattern or a composed axis is not divisible by its known
  factors.

  \<open>'b c (hg h) (wg w) -> (hg wg b) c h w'\<close>: split into \<open>(b, c, hg, h, wg, w)\<close>, reorder to
  \<open>(hg, wg, b, c, h, w)\<close>, merge.
\<close>

definition image2patches :: "'a tensor \<Rightarrow> error + 'a tensor" where
  "image2patches x =
     (case shape x of
        [b, c, H, W] \<Rightarrow>
          if H mod 2 \<noteq> 0 \<or> W mod 2 \<noteq> 0 then Inl EinopsError
          else
            thenE (view x [D b, D c, D 2, D (H div 2), D 2, D (W div 2)]) (\<lambda>x.
            thenE (permute x [2, 4, 0, 1, 3, 5]) (\<lambda>x.
            view x [D (2 * 2 * b), D c, D (H div 2), D (W div 2)]))
      | _ \<Rightarrow> Inl EinopsError)"

text \<open>
  \<open>'(hg wg b) c h w -> b c (hg h) (wg w)'\<close>: split into \<open>(hg, wg, b, c, h, w)\<close>, reorder to
  \<open>(b, c, hg, h, wg, w)\<close>, merge.
\<close>

definition patches2image :: "'a tensor \<Rightarrow> error + 'a tensor" where
  "patches2image x =
     (case shape x of
        [n, c, h, w] \<Rightarrow>
          if n mod (2 * 2) \<noteq> 0 then Inl EinopsError
          else
            thenE (view x [D 2, D 2, D (n div (2 * 2)), D c, D h, D w]) (\<lambda>x.
            thenE (permute x [2, 3, 0, 4, 1, 5]) (\<lambda>x.
            view x [D (n div (2 * 2)), D c, D (2 * h), D (2 * w)]))
      | _ \<Rightarrow> Inl EinopsError)"

section \<open>Relative position index of window attention\<close>

text \<open>\<open>torch.arange(n)\<close>, and \<open>torch.stack(torch.meshgrid([a, b]))\<close> for one-dimensional
  \<open>a\<close> and \<open>b\<close> (indexing \<open>ij\<close>): element \<open>[0, i, j]\<close> is \<open>a[i]\<close> and element
  \<open>[1, i, j]\<close> is \<open>b[j]\<close>.\<close>

definition arange :: "nat \<Rightarrow> int tensor" where
  "arange n = \<lparr>shape = [n], data = map int [0 ..< n]\<rparr>"

definition stack_meshgrid :: "'a tensor \<Rightarrow> 'a tensor \<Rightarrow> error + 'a tensor" where
  "stack_meshgrid a b =
     (case (shape a, shape b) of
        ([na], [nb]) \<Rightarrow>
          Inr (tabulate [2, na, nb]
                 (\<lambda>idx. if idx ! 0 = 0 then tget a [idx ! 1] else tget b [idx ! 2]))
      | _ \<Rightarrow> Inl RuntimeError)"

text \<open>\<open>x[:, :, i] += c\<close> and \<open>x[:, :, i] *= c\<close> are \<open>update_last x i\<close> of the operation;
  \<open>x.sum(-1)\<close> adds up the last dimension.\<close>

definition update_last :: "'a tensor \<Rightarrow> nat \<Rightarrow> ('a \<Rightarrow> 'a) \<Rightarrow> error + 'a tensor" where
  "update_last t i g =
     (if shape t = [] \<or> last (shape t) \<le> i then Inl IndexError
      else Inr (tabulate (shape t) (\<lambda>idx. if last idx = i then g (tget t idx) else tget t idx)))"

definition sum_last :: "int tensor \<Rightarrow> error + int tensor" where
  "sum_last t =
     (if shape t = [] then Inl IndexError
      else Inr (tabulate (butlast (shape t))
                  (\<lambda>idx. sum_list (map (\<lambda>c. tget t (idx @ [c])) [0 ..< last (shape t)]))))"

text \<open>
  The buffer \<open>relative_position_index\<close> as \<open>WindowAttention.__init__\<close> computes it from
  \<open>window_size\<close>, lines 74 to 84.
\<close>

definition make_relative_position_index :: "nat \<times> nat \<Rightarrow> error + int tensor" where
  "make_relative_position_index window_size =
     (let coords_h = arange (fst window_size);
          coords_w = arange (snd window_size)
      in thenE (stack_meshgrid coords_h coords_w) (\<lambda>coords.
         thenE (flatten1 coords) (\<lambda>coords_flatten.
         thenE (unsqueeze coords_flatten 2) (\<lambda>lhs.
         thenE (unsqueeze coords_flatten 1) (\<lambda>rhs.
         thenE (broadcast2 (\<lambda>x y. x - y) lhs rhs) (\<lambda>relative_coords.
         thenE (permute relative_coords [1, 2, 0]) (\<lambda>relative_coords.
         thenE (update_last relative_coords 0 (\<lambda>v. v + (int (fst window_size) - 1)))
           (\<lambda>relative_coords.
         thenE (update_last relative_coords 1 (\<lambda>v. v + (int (snd window_size) - 1)))
           (\<lambda>relative_coords.
         thenE (update_last relative_coords 0 (\<lambda>v. v * (2 * int (snd window_size) - 1)))
           (\<lambda>relative_coords.
         sum_last relative_coords))))))))))"

section \<open>Window attention: construction and the relative position bias\<close>

text \<open>
  The attributes of a \<open>WindowAttention\<close> instance that the modelled code reads.  The learned
  parameters (\<open>relative_position_bias_table\<close>, \<open>qkv\<close>, \<open>proj\<close>) enter by their sizes,
  which these attributes determine.
\<close>

record WindowAttention =
  wa_dim :: nat
  wa_window_size :: "nat \<times> nat"
  wa_num_heads :: nat
  relative_position_index :: "int tensor"

text \<open>
  \<open>WindowAttention.__init__(dim, window_size, num_heads)\<close>, lines 65 to 90, with
  \<open>qk_scale = None\<close> as everywhere in the repository.  The arguments are Python integers
  (\<open>dim'\<close> is the \<open>dim\<close> of the source).
  In the order of the source: \<open>dim // num_heads\<close> raises ZeroDivisionError for no heads;
  \<open>head_dim ** -0.5\<close> raises ZeroDivisionError for a zero \<open>head_dim\<close>; \<open>torch.zeros\<close>,
  \<open>torch.arange\<close> and \<open>nn.Linear\<close> raise RuntimeError for a negative size.  There is no
  check that \<open>num_heads\<close> divides \<open>dim\<close>.
\<close>

definition WindowAttention_init :: "int \<Rightarrow> int \<times> int \<Rightarrow> int \<Rightarrow> error + WindowAttention" where
  "WindowAttention_init dim' window_size num_heads =
     (if num_heads = 0 then Inl ZeroDivisionError
      else
        let head_dim = dim' div num_heads in
        if head_dim = 0 then Inl ZeroDivisionError
        else if (2 * fst window_size - 1) * (2 * snd window_size - 1) < 0 \<or> num_heads < 0
          then Inl RuntimeError
        else if fst window_size < 0 \<or> snd window_size < 0 then Inl RuntimeError
        else
          thenE (make_relative_position_index (nat (fst window_size), nat (snd window_size)))
            (\<lambda>relative_position_index.
          if dim' < 0 then Inl RuntimeError
          else Inr \<lparr>wa_dim = nat dim',
                    wa_window_size = (nat (fst window_size), nat (snd window_size)),
                    wa_num_heads = nat num_heads,
                    relative_position_index = relative_position_index\<rparr>))"

text \<open>
  \<open>table[index]\<close> for a one-dimensional integer tensor \<open>index\<close>: row \<open>index[k]\<close> of the table
  becomes row \<open>k\<close> of the result; an index below \<open>-T\<close> or from \<open>T\<close> on, for a table of \<open>T\<close>
  rows, raises IndexError, and a negative one counts from the end.
\<close>

definition index_rows :: "'a tensor \<Rightarrow> int tensor \<Rightarrow> error + 'a tensor" where
  "index_rows table index =
     (case shape table of
        [] \<Rightarrow> Inl IndexError
      | T # rest \<Rightarrow>
          if length (shape index) \<noteq> 1 then Inl IndexError
          else if \<exists>v \<in> set (data index). v < - int T \<or> int T \<le> v then Inl IndexError
          else Inr (tabulate (shape index @ rest)
                 (\<lambda>idx. let v = tget index [hd idx]
                        in tget table (nat (if v < 0 then v + int T else v) # tl idx))))"

text \<open>
  The bias that \<open>WindowAttention.forward\<close> adds to the attention logits, lines 98 to 101:
  \<open>table[self.relative_position_index.view(-1)].view(N, N, -1).permute(2, 0, 1)\<close>
  with \<open>N = window_size[0] * window_size[1]\<close>.
\<close>

definition relative_position_bias :: "WindowAttention \<Rightarrow> 'a tensor \<Rightarrow> error + 'a tensor" where
  "relative_position_bias self relative_position_bias_table =
     (let N = fst (wa_window_size self) * snd (wa_window_size self)
      in thenE (view (relative_position_index self) [Infer]) (\<lambda>index.
         thenE (index_rows relative_position_bias_table index) (\<lambda>bias.
         thenE (view bias [D N, D N, Infer]) (\<lambda>bias.
         permute bias [2, 0, 1]))))"

text \<open>
  \<open>relative_position_index\<close> is registered as a buffer, line 84, and a buffer is
  persistent by default: it is an entry of the state dictionary of the module, next to
  the parameters.  \<open>BEN_Base.loadcheckpoints\<close>, lines 570 to 573, calls
  \<open>self.load_state_dict(..., strict=True)\<close>, which loads every submodule from the entries
  under its name.  For one \<open>WindowAttention\<close> these are the six entries below, with the
  sizes that the constructor gave them (\<open>qkv_bias = True\<close> as everywhere in the
  repository).
\<close>

datatype entry = FloatTensor "real tensor" | LongTensor "int tensor"

fun entry_shape :: "entry \<Rightarrow> nat list" where
  "entry_shape (FloatTensor t) = shape t"
| "entry_shape (LongTensor t) = shape t"

text \<open>\<open>copy_\<close> into an integer buffer converts a floating-point value towards zero.\<close>

fun to_long :: "entry \<Rightarrow> int tensor" where
  "to_long (FloatTensor t) = tmap (\<lambda>x. if 0 \<le> x then \<lfloor>x\<rfloor> else \<lceil>x\<rceil>) t"
| "to_long (LongTensor t) = t"

definition WindowAttention_state_shapes :: "WindowAttention \<Rightarrow> (string \<times> nat list) list" where
  "WindowAttention_state_shapes self =
     [(''relative_position_bias_table'',
         [nat ((2 * int (fst (wa_window_size self)) - 1)
               * (2 * int (snd (wa_window_size self)) - 1)), wa_num_heads self]),
      (''relative_position_index'', shape (relative_position_index self)),
      (''qkv.weight'', [wa_dim self * 3, wa_dim self]),
      (''qkv.bias'', [wa_dim self * 3]),
      (''proj.weight'', [wa_dim self, wa_dim self]),
      (''proj.bias'', [wa_dim self])]"

text \<open>
  \<open>load_state_dict(state_dict, strict=True)\<close> on a \<open>WindowAttention\<close>.  The state
  dictionary is an ordered dictionary, here the list of its items.  A missing key, an
  unexpected key and an entry whose shape is not that of the tensor of the module raise
  RuntimeError.  Otherwise every entry is copied into the tensor of its name: the buffer
  \<open>relative_position_index\<close> becomes the entry of that name, whatever its elements.
  The parameters are not attributes of the model, which keeps their sizes only.
\<close>

definition WindowAttention_load_state_dict ::
  "WindowAttention \<Rightarrow> (string \<times> entry) list \<Rightarrow> error + WindowAttention" where
  "WindowAttention_load_state_dict self state_dict =
     (let expected = WindowAttention_state_shapes self in
      if set (map fst state_dict) \<noteq> set (map fst expected) then Inl RuntimeError
      else if list_ex (\<lambda>(k, s). map_option entry_shape (map_of state_dict k) \<noteq> Some s) expected
        then Inl RuntimeError
      else
        (case map_of state_dict ''relative_position_index'' of
           None \<Rightarrow> Inl RuntimeError
         | Some e \<Rightarrow> Inr (self\<lparr>relative_position_index := to_long e\<rparr>)))"

section \<open>The attention mask of shifted windows\<close>

text \<open>
  A Python \<open>slice(start, stop)\<close> with step 1 on a dimension of size \<open>n\<close>: a bound that
  is \<open>None\<close> is the end of the range on its side, a negative bound counts from the end,
  and both are clamped to \<open>[0, n]\<close>.  The slice selects the indices from the first
  bound up to, not including, the second.
\<close>

type_synonym slice = "int option \<times> int option"

definition slice_indices :: "slice \<Rightarrow> nat \<Rightarrow> nat \<times> nat" where
  "slice_indices s n =
     (let clamp = (\<lambda>v. if v < 0 then nat (max 0 (v + int n)) else nat (min v (int n)))
      in (case fst s of None \<Rightarrow> 0 | Some v \<Rightarrow> clamp v,
          case snd s of None \<Rightarrow> n | Some v \<Rightarrow> clamp v))"

text \<open>\<open>img_mask[:, h, w, :] = v\<close> for slices \<open>h\<close> and \<open>w\<close>.\<close>

definition assign_hw :: "'a tensor \<Rightarrow> slice \<Rightarrow> slice \<Rightarrow> 'a \<Rightarrow> error + 'a tensor" where
  "assign_hw t h w v =
     (case shape t of
        [B, H, W, C] \<Rightarrow>
          let hs = slice_indices h H; ws = slice_indices w W
          in Inr (tabulate [B, H, W, C]
                (\<lambda>idx. if fst hs \<le> idx ! 1 \<and> idx ! 1 < snd hs
                          \<and> fst ws \<le> idx ! 2 \<and> idx ! 2 < snd ws
                       then v else tget t idx))
      | _ \<Rightarrow> Inl IndexError)"

text \<open>The two nested loops over \<open>h_slices\<close> and \<open>w_slices\<close>, lines 209 to 213: the pairs of
  slices in the order of the loops, the counter \<open>cnt\<close> going up by one at each.\<close>

fun label_regions :: "(slice \<times> slice) list \<Rightarrow> int tensor \<Rightarrow> int \<Rightarrow> error + int tensor" where
  "label_regions [] img_mask cnt = Inr img_mask"
| "label_regions ((h, w) # rest) img_mask cnt =
     thenE (assign_hw img_mask h w cnt) (\<lambda>img_mask. label_regions rest img_mask (cnt + 1))"

text \<open>\<open>x.masked_fill(mask, v)\<close> for a mask of the shape of \<open>x\<close>.\<close>

definition masked_fill :: "'a tensor \<Rightarrow> bool tensor \<Rightarrow> 'a \<Rightarrow> 'a tensor" where
  "masked_fill t msk v =
     \<lparr>shape = shape t, data = map2 (\<lambda>x m. if m then v else x) (data t) (data msk)\<rparr>"

text \<open>
  The attention mask that \<open>BasicLayer.forward\<close> builds for a feature map of \<open>H\<close> by
  \<open>W\<close> tokens, lines 204 to 217.  The labels and the two fill values are small integers,
  which the floating-point tensors of the source hold exactly; they are integers here.
  \<open>np.ceil(H / window_size)\<close> is the exact ceiling, and the division raises
  ZeroDivisionError for a zero window size.
\<close>

definition BasicLayer_attn_mask :: "nat \<Rightarrow> nat \<Rightarrow> nat \<Rightarrow> nat \<Rightarrow> error + int tensor" where
  "BasicLayer_attn_mask window_size shift_size H W =
     (if window_size = 0 then Inl ZeroDivisionError
      else
        let Hp = nat \<lceil>real H / real window_size\<rceil> * window_size;
            Wp = nat \<lceil>real W / real window_size\<rceil> * window_size;
            img_mask = full [1, Hp, Wp, 1] 0;
            h_slices = [(Some 0, Some (- int window_size)),
                        (Some (- int window_size), Some (- int shift_size)),
                        (Some (- int shift_size), None)];
            w_slices = [(Some 0, Some (- int window_size)),
                        (Some (- int window_size), Some (- int shift_size)),
                        (Some (- int shift_size), None)]
        in thenE (label_regions (List.product h_slices w_slices) img_mask 0) (\<lambda>img_mask.
           thenE (window_partition img_mask window_size) (\<lambda>mask_windows.
           thenE (view mask_windows [Infer, D (window_size * window_size)]) (\<lambda>mask_windows.
           thenE (unsqueeze mask_windows 1) (\<lambda>lhs.
           thenE (unsqueeze mask_windows 2) (\<lambda>rhs.
           thenE (broadcast2 (\<lambda>x y. x - y) lhs rhs) (\<lambda>attn_mask.
           Inr (masked_fill
                  (masked_fill attn_mask (tmap (\<lambda>x. x \<noteq> 0) attn_mask) (- 100))
                  (tmap (\<lambda>x. x = 0) attn_mask) 0))))))))"

text \<open>
  The labelling of the specification, in its words: each axis of the padded grid is cut
  into three regions at the shift boundaries, and the nine products of a row region and a
  column region are the regions of the grid.  Token \<open>i\<close> of window \<open>w\<close> sits at the grid
  position \<open>window_token_position\<close> gives, the windows being counted row by row.
\<close>

definition axis_region :: "nat \<Rightarrow> nat \<Rightarrow> nat \<Rightarrow> nat \<Rightarrow> nat" where
  "axis_region n window_size shift_size r =
     (if r < n - window_size then 0 else if r < n - shift_size then 1 else 2)"

definition region :: "nat \<Rightarrow> nat \<Rightarrow> nat \<Rightarrow> nat \<Rightarrow> nat \<times> nat \<Rightarrow> nat \<times> nat" where
  "region Hp Wp window_size shift_size p =
     (axis_region Hp window_size shift_size (fst p), axis_region Wp window_size shift_size (snd p))"

definition window_token_position :: "nat \<Rightarrow> nat \<Rightarrow> nat \<Rightarrow> nat \<Rightarrow> nat \<times> nat" where
  "window_token_position Wp window_size w i =
     ((w div (Wp div window_size)) * window_size + i div window_size,
      (w mod (Wp div window_size)) * window_size + i mod window_size)"

section \<open>Floating-point values\<close>

text \<open>
  The elements of a floating-point tensor: the finite numbers, the two infinities and
  NaN.  The sign of a zero is not modelled.
\<close>

datatype fval = Fin real | PInf | NInf | NaN

text \<open>
  A binary floating-point format is given by its precision, the number of bits of the
  significand with the hidden bit, and its largest exponent: \<open>torch.float32\<close> has
  precision 24 and largest exponent 127, \<open>torch.float16\<close> 11 and 15.  The smallest
  exponent of a normal number is \<open>1 - emax\<close>.
\<close>

record fformat =
  prec :: nat
  emax :: int

definition float32 :: fformat where
  "float32 = \<lparr>prec = 24, emax = 127\<rparr>"

definition float16 :: fformat where
  "float16 = \<lparr>prec = 11, emax = 15\<rparr>"

text \<open>
  The unit in the last place at a real number \<open>x \<noteq> 0\<close>: the distance between the
  floating-point numbers around \<open>x\<close>, which is \<open>2 ^ (e - prec + 1)\<close> for the exponent
  \<open>e\<close> of \<open>x\<close>, and that of the smallest exponent for the subnormal numbers.
\<close>

definition ulp :: "fformat \<Rightarrow> real \<Rightarrow> real" where
  "ulp f x = 2 powi (max \<lfloor>log 2 \<bar>x\<bar>\<rfloor> (1 - emax f) - (int (prec f) - 1))"

text \<open>Rounding to the nearest integer, a tie to the even one.\<close>

definition round_half_even :: "real \<Rightarrow> int" where
  "round_half_even r =
     (let n = \<lfloor>r\<rfloor>; d = r - of_int n
      in if d < 1 / 2 then n else if 1 / 2 < d then n + 1 else if even n then n else n + 1)"

text \<open>
  The result of an arithmetic operation whose exact value is \<open>x\<close>: \<open>x\<close> rounded to the
  nearest multiple of its unit in the last place, a tie to the even multiple, and an
  infinity when the rounded magnitude reaches \<open>2 ^ (emax + 1)\<close> (IEEE 754, round to
  nearest, ties to even).
\<close>

definition round_to_ulp :: "fformat \<Rightarrow> real \<Rightarrow> real" where
  "round_to_ulp f x = of_int (round_half_even (x / ulp f x)) * ulp f x"

definition fround :: "fformat \<Rightarrow> real \<Rightarrow> fval" where
  "fround f x =
     (if x = 0 then Fin 0
      else
        let y = round_to_ulp f x
        in if 2 powi (emax f + 1) \<le> \<bar>y\<bar> then (if 0 < x then PInf else NInf) else Fin y)"

text \<open>Subtraction: the difference of two infinities of one sign is NaN.\<close>

fun fsub :: "fformat \<Rightarrow> fval \<Rightarrow> fval \<Rightarrow> fval" where
  "fsub f (Fin a) (Fin b) = fround f (a - b)"
| "fsub f NaN v = NaN"
| "fsub f v NaN = NaN"
| "fsub f PInf PInf = NaN"
| "fsub f NInf NInf = NaN"
| "fsub f PInf v = PInf"
| "fsub f NInf v = NInf"
| "fsub f v PInf = NInf"
| "fsub f v NInf = PInf"

text \<open>
  Division does not raise: a nonzero number divided by zero is an infinity, zero divided
  by zero and an infinity divided by an infinity are NaN, a finite number divided by an
  infinity is zero.
\<close>

fun fdiv :: "fformat \<Rightarrow> fval \<Rightarrow> fval \<Rightarrow> fval" where
  "fdiv f (Fin a) (Fin b) =
     (if b \<noteq> 0 then fround f (a / b) else if a = 0 then NaN else if 0 < a then PInf else NInf)"
| "fdiv f NaN v = NaN"
| "fdiv f v NaN = NaN"
| "fdiv f (Fin a) v = Fin 0"
| "fdiv f PInf (Fin b) = (if 0 \<le> b then PInf else NInf)"
| "fdiv f NInf (Fin b) = (if 0 \<le> b then NInf else PInf)"
| "fdiv f v w = NaN"

text \<open>Multiplication by a positive finite constant.\<close>

fun fscale :: "fformat \<Rightarrow> fval \<Rightarrow> real \<Rightarrow> fval" where
  "fscale f (Fin x) c = fround f (x * c)"
| "fscale f v c = v"

text \<open>
  \<open>torch.max(t)\<close> and \<open>torch.min(t)\<close> of all elements: NaN when an element is NaN,
  RuntimeError on a tensor with no element.
\<close>

fun fle :: "fval \<Rightarrow> fval \<Rightarrow> bool" where
  "fle NaN v = False"
| "fle v NaN = False"
| "fle NInf v = True"
| "fle v PInf = True"
| "fle (Fin a) (Fin b) = (a \<le> b)"
| "fle v w = False"

definition fmax :: "fval \<Rightarrow> fval \<Rightarrow> fval" where
  "fmax a b = (if a = NaN \<or> b = NaN then NaN else if fle a b then b else a)"

definition fmin :: "fval \<Rightarrow> fval \<Rightarrow> fval" where
  "fmin a b = (if a = NaN \<or> b = NaN then NaN else if fle a b then a else b)"

definition torch_max :: "fval tensor \<Rightarrow> error + fval" where
  "torch_max t = (case data t of [] \<Rightarrow> Inl RuntimeError | v # vs \<Rightarrow> Inr (foldl fmax v vs))"

definition torch_min :: "fval tensor \<Rightarrow> error + fval" where
  "torch_min t = (case data t of [] \<Rightarrow> Inl RuntimeError | v # vs \<Rightarrow> Inr (foldl fmin v vs))"

section \<open>Post-processing of the mask\<close>

text \<open>
  \<open>astype(np.uint8)\<close> truncates towards zero.  The byte is defined for a value whose
  truncation lies in \<open>[0, 255]\<close>; for every other value, and for an infinity or NaN, the
  conversion is undefined, which is \<open>None\<close> here.
\<close>

fun astype_uint8 :: "fval \<Rightarrow> nat option" where
  "astype_uint8 (Fin x) = (if - 1 < x \<and> x < 256 then Some (nat \<lfloor>x\<rfloor>) else None)"
| "astype_uint8 v = None"

text \<open>\<open>torch.squeeze(x, 0)\<close> drops the first dimension when its size is 1;
  \<open>np.squeeze\<close> drops every dimension of size 1.\<close>

definition squeeze0 :: "'a tensor \<Rightarrow> 'a tensor" where
  "squeeze0 t = (case shape t of d # rest \<Rightarrow> if d = 1 then t\<lparr>shape := rest\<rparr> else t | [] \<Rightarrow> t)"

definition np_squeeze :: "'a tensor \<Rightarrow> 'a tensor" where
  "np_squeeze t = t\<lparr>shape := filter (\<lambda>d. d \<noteq> 1) (shape t)\<rparr>"

text \<open>
  Lines 669 to 671: \<open>ma = torch.max(result)\<close>, \<open>mi = torch.min(result)\<close> and
  \<open>(result - mi) / (ma - mi)\<close>, in the floating-point format \<open>f\<close> of the tensor: each
  difference and each quotient is rounded.
\<close>

definition normalize_min_max :: "fformat \<Rightarrow> fval tensor \<Rightarrow> error + fval tensor" where
  "normalize_min_max f result =
     thenE (torch_max result) (\<lambda>ma.
     thenE (torch_min result) (\<lambda>mi.
     Inr (tmap (\<lambda>x. fdiv f (fsub f x mi) (fsub f ma mi)) result)))"

text \<open>
  \<open>postprocess_image(result, im_size)\<close>, lines 667 to 673, on a tensor of the
  floating-point format \<open>f\<close>.  The bilinear resize \<open>F.interpolate\<close> of the library is the
  parameter \<open>interpolate\<close>.
\<close>

definition postprocess_image ::
  "fformat \<Rightarrow> (fval tensor \<Rightarrow> nat list \<Rightarrow> error + fval tensor) \<Rightarrow> fval tensor \<Rightarrow> nat list
     \<Rightarrow> error + nat option tensor" where
  "postprocess_image f interpolate result im_size =
     thenE (interpolate result im_size) (\<lambda>resized.
     thenE (normalize_min_max f (squeeze0 resized)) (\<lambda>result.
     thenE (permute (tmap (\<lambda>v. fscale f v 255) result) [1, 2, 0]) (\<lambda>scaled.
     Inr (np_squeeze (tmap astype_uint8 scaled)))))"

section \<open>Shapes of the layers\<close>

text \<open>
  The claims about the layers are claims about shapes and about failures, which depend
  on the shapes of the tensors only, never on their elements.  The \<open>forward\<close> methods
  are therefore modelled on shapes: every operation maps the shapes of its operands to
  the shape of its result, or to the exception it raises when the shapes do not fit.
  The modules are in inference mode, as \<open>BEN_Base.forward\<close> runs them: dropout and
  \<open>DropPath\<close> return their input.
\<close>

definition reshape_shape :: "nat list \<Rightarrow> dim list \<Rightarrow> error + nat list" where
  "reshape_shape s spec = infer_size spec (prod_list s)"

definition permute_shape :: "nat list \<Rightarrow> nat list \<Rightarrow> error + nat list" where
  "permute_shape s p =
     (if \<not> is_perm p (length s) then Inl RuntimeError else Inr (map (\<lambda>d. s ! d) p))"

text \<open>\<open>nn.Linear(in_features, out_features)\<close> and \<open>nn.LayerNorm(n)\<close> act on the last
  dimension, whose size must be \<open>in_features\<close>, respectively \<open>n\<close>.\<close>

definition Linear_shape :: "nat \<Rightarrow> nat \<Rightarrow> nat list \<Rightarrow> error + nat list" where
  "Linear_shape in_features out_features s =
     (if s \<noteq> [] \<and> last s = in_features then Inr (butlast s @ [out_features])
      else Inl RuntimeError)"

definition LayerNorm_shape :: "nat \<Rightarrow> nat list \<Rightarrow> error + nat list" where
  "LayerNorm_shape n s = (if s \<noteq> [] \<and> last s = n then Inr s else Inl RuntimeError)"

text \<open>
  \<open>F.pad(x, (l_1, r_1, l_2, r_2, ...))\<close>: the first pair pads the last dimension, the
  second pair the dimension before it, and so on.
\<close>

fun pad_rev :: "nat list \<Rightarrow> (nat \<times> nat) list \<Rightarrow> error + nat list" where
  "pad_rev s [] = Inr s"
| "pad_rev [] (p # ps) = Inl RuntimeError"
| "pad_rev (d # s) ((l, r) # ps) = thenE (pad_rev s ps) (\<lambda>s'. Inr ((l + d + r) # s'))"

definition pad_shape :: "nat list \<Rightarrow> (nat \<times> nat) list \<Rightarrow> error + nat list" where
  "pad_shape s pads = thenE (pad_rev (rev s) pads) (\<lambda>r. Inr (rev r))"

text \<open>\<open>torch.roll(x, shifts, dims=(1, 2))\<close> keeps the shape and needs the dimensions 1
  and 2.\<close>

definition roll12_shape :: "nat list \<Rightarrow> error + nat list" where
  "roll12_shape s = (if length s < 3 then Inl IndexError else Inr s)"

text \<open>\<open>x[i]\<close> on the first dimension; \<open>x.transpose(a, b)\<close>; \<open>x.unsqueeze(d)\<close>.\<close>

definition select0_shape :: "nat list \<Rightarrow> nat \<Rightarrow> error + nat list" where
  "select0_shape s i =
     (case s of [] \<Rightarrow> Inl IndexError | d # rest \<Rightarrow> if i < d then Inr rest else Inl IndexError)"

definition transpose_shape :: "nat list \<Rightarrow> nat \<Rightarrow> nat \<Rightarrow> error + nat list" where
  "transpose_shape s a b =
     (if a < length s \<and> b < length s then Inr (s[a := s ! b, b := s ! a]) else Inl IndexError)"

definition unsqueeze_shape :: "nat list \<Rightarrow> nat \<Rightarrow> error + nat list" where
  "unsqueeze_shape s d =
     (if d \<le> length s then Inr (take d s @ [1] @ drop d s) else Inl IndexError)"

text \<open>
  \<open>a @ b\<close> for operands of at least two dimensions, the only case in the source: the
  last dimension of \<open>a\<close> must be the last but one of \<open>b\<close>, and the dimensions before
  them are broadcast.
\<close>

definition matmul_shape :: "nat list \<Rightarrow> nat list \<Rightarrow> error + nat list" where
  "matmul_shape a b =
     (if length a < 2 \<or> length b < 2 then Inl RuntimeError
      else if last a \<noteq> b ! (length b - 2) then Inl RuntimeError
      else thenE (broadcast_shapes (take (length a - 2) a) (take (length b - 2) b))
             (\<lambda>batch. Inr (batch @ [a ! (length a - 2), last b])))"

text \<open>\<open>torch.cat\<close> of a list of tensors along the last dimension: the other dimensions
  must agree.\<close>

fun cat_last_shape :: "nat list list \<Rightarrow> error + nat list" where
  "cat_last_shape [] = Inl RuntimeError"
| "cat_last_shape [s] = (if s = [] then Inl RuntimeError else Inr s)"
| "cat_last_shape (s # ss) =
     thenE (cat_last_shape ss) (\<lambda>r.
       if s \<noteq> [] \<and> butlast s = butlast r then Inr (butlast s @ [last s + last r])
       else Inl RuntimeError)"

subsection \<open>Window partition and reverse on shapes\<close>

definition window_partition_shape :: "nat list \<Rightarrow> nat \<Rightarrow> error + nat list" where
  "window_partition_shape x window_size =
     (case x of
        [B, H, W, C] \<Rightarrow>
          if window_size = 0 then Inl ZeroDivisionError
          else
            thenE (reshape_shape x [D B, D (H div window_size), D window_size,
                                    D (W div window_size), D window_size, D C]) (\<lambda>x.
            thenE (permute_shape x [0, 1, 3, 2, 4, 5]) (\<lambda>x.
            reshape_shape x [Infer, D window_size, D window_size, D C]))
      | _ \<Rightarrow> Inl ValueError)"

definition window_reverse_shape :: "nat list \<Rightarrow> nat \<Rightarrow> nat \<Rightarrow> nat \<Rightarrow> error + nat list" where
  "window_reverse_shape windows window_size H W =
     (case windows of
        [] \<Rightarrow> Inl IndexError
      | n # _ \<Rightarrow>
          if window_size = 0 \<or> H * W = 0 then Inl ZeroDivisionError
          else
            let B = nat \<lfloor>real n / (real (H * W) / real window_size / real window_size)\<rfloor>
            in thenE (reshape_shape windows [D B, D (H div window_size), D (W div window_size),
                                             D window_size, D window_size, Infer]) (\<lambda>x.
               thenE (permute_shape x [0, 1, 3, 2, 4, 5]) (\<lambda>x.
               reshape_shape x [D B, D H, D W, Infer])))"

subsection \<open>Patch merging\<close>

text \<open>
  \<open>x[:, a::2, b::2, :]\<close> on a tensor of four dimensions, for \<open>a\<close> and \<open>b\<close> in \<open>{0, 1}\<close>:
  of \<open>n\<close> indices, \<open>(n + 1) div 2\<close> are even and \<open>n div 2\<close> are odd.
\<close>

definition stride2_shape :: "nat list \<Rightarrow> nat \<Rightarrow> nat \<Rightarrow> error + nat list" where
  "stride2_shape s a b =
     (case s of
        [B, H, W, C] \<Rightarrow> Inr [B, (H + 1 - a) div 2, (W + 1 - b) div 2, C]
      | _ \<Rightarrow> Inl IndexError)"

text \<open>
  \<open>PatchMerging(dim).forward(x, H, W)\<close>, lines 174 to 189: \<open>norm\<close> is
  \<open>LayerNorm(4 * dim)\<close> and \<open>reduction\<close> is \<open>Linear(4 * dim, 2 * dim, bias=False)\<close>.
\<close>

definition PatchMerging_forward_shape :: "nat \<Rightarrow> nat list \<Rightarrow> nat \<Rightarrow> nat \<Rightarrow> error + nat list" where
  "PatchMerging_forward_shape dim' x H W =
     (case x of
        [B, L, C] \<Rightarrow>
          if L \<noteq> H * W then Inl AssertionError
          else
            thenE (reshape_shape x [D B, D H, D W, D C]) (\<lambda>x.
            thenE (if H mod 2 = 1 \<or> W mod 2 = 1
                   then pad_shape x [(0, 0), (0, W mod 2), (0, H mod 2)] else Inr x) (\<lambda>x.
            thenE (stride2_shape x 0 0) (\<lambda>x0.
            thenE (stride2_shape x 1 0) (\<lambda>x1.
            thenE (stride2_shape x 0 1) (\<lambda>x2.
            thenE (stride2_shape x 1 1) (\<lambda>x3.
            thenE (cat_last_shape [x0, x1, x2, x3]) (\<lambda>x.
            thenE (reshape_shape x [D B, Infer, D (4 * C)]) (\<lambda>x.
            thenE (LayerNorm_shape (4 * dim') x) (\<lambda>x.
            Linear_shape (4 * dim') (2 * dim') x)))))))))
      | _ \<Rightarrow> Inl ValueError)"

subsection \<open>Window attention\<close>

text \<open>
  \<open>WindowAttention.forward(x, mask)\<close>, lines 92 to 114, on shapes; \<open>mask\<close> is \<open>None\<close> or
  the shape of the mask.  \<open>qkv\<close> is \<open>Linear(dim, dim * 3)\<close> and \<open>proj\<close> is
  \<open>Linear(dim, dim)\<close>.  The bias is the one \<open>relative_position_bias\<close> gathers from the
  bias table, of shape \<open>((2 * window_size[0] - 1) * (2 * window_size[1] - 1), num_heads)\<close>;
  its shape does not depend on the elements of the table, which are left out.
  \<open>C // self.num_heads\<close> and \<open>B_ // nW\<close> raise ZeroDivisionError on a zero divisor.
\<close>

definition WindowAttention_forward_shape ::
  "WindowAttention \<Rightarrow> nat list \<Rightarrow> nat list option \<Rightarrow> error + nat list" where
  "WindowAttention_forward_shape self x msk =
     (case x of
        [B_, N, C] \<Rightarrow>
          thenE (Linear_shape (wa_dim self) (wa_dim self * 3) x) (\<lambda>qkv.
          if wa_num_heads self = 0 then Inl ZeroDivisionError
          else
          thenE (reshape_shape qkv [D B_, D N, D 3, D (wa_num_heads self),
                                    D (C div wa_num_heads self)]) (\<lambda>qkv.
          thenE (permute_shape qkv [2, 0, 3, 1, 4]) (\<lambda>qkv.
          thenE (select0_shape qkv 0) (\<lambda>q.
          thenE (select0_shape qkv 1) (\<lambda>k.
          thenE (select0_shape qkv 2) (\<lambda>v.
          thenE (transpose_shape k (length k - 2) (length k - 1)) (\<lambda>kT.
          thenE (matmul_shape q kT) (\<lambda>attn.
          thenE (relative_position_bias self
                   (full [nat ((2 * int (fst (wa_window_size self)) - 1)
                               * (2 * int (snd (wa_window_size self)) - 1)),
                          wa_num_heads self] ())) (\<lambda>relative_position_bias.
          thenE (unsqueeze_shape (shape relative_position_bias) 0) (\<lambda>bias.
          thenE (broadcast_shapes attn bias) (\<lambda>attn.
          thenE (case msk of
                   None \<Rightarrow> Inr attn
                 | Some m \<Rightarrow>
                     (case m of
                        [] \<Rightarrow> Inl IndexError
                      | nW # _ \<Rightarrow>
                          if nW = 0 then Inl ZeroDivisionError
                          else
                            thenE (reshape_shape attn [D (B_ div nW), D nW,
                                     D (wa_num_heads self), D N, D N]) (\<lambda>attn.
                            thenE (unsqueeze_shape m 1) (\<lambda>m1.
                            thenE (unsqueeze_shape m1 0) (\<lambda>m2.
                            thenE (broadcast_shapes attn m2) (\<lambda>attn.
                            reshape_shape attn [Infer, D (wa_num_heads self), D N, D N]))))))
            (\<lambda>attn.
          thenE (matmul_shape attn v) (\<lambda>x.
          thenE (transpose_shape x 1 2) (\<lambda>x.
          thenE (reshape_shape x [D B_, D N, D C]) (\<lambda>x.
          Linear_shape (wa_dim self) (wa_dim self) x)))))))))))))))
      | _ \<Rightarrow> Inl ValueError)"

text \<open>
  \<open>forward\<close> assigns no attribute of \<open>self\<close>: it reads \<open>relative_position_index\<close>
  through \<open>view(-1)\<close>, line 98, and writes neither the buffer nor any other attribute.
  With the instance passed through the call, the instance after \<open>forward\<close> is the
  instance before it.
\<close>

definition WindowAttention_forward_state ::
  "WindowAttention \<Rightarrow> nat list \<Rightarrow> nat list option \<Rightarrow> error + (nat list \<times> WindowAttention)" where
  "WindowAttention_forward_state self x msk =
     thenE (WindowAttention_forward_shape self x msk) (\<lambda>y. Inr (y, self))"

subsection \<open>The shifted-window block\<close>

text \<open>The attributes of a \<open>SwinTransformerBlock\<close>; \<open>mlp_hidden_dim\<close> is the width of the
  hidden layer of its \<open>Mlp\<close>.\<close>

record SwinTransformerBlock =
  blk_dim :: nat
  blk_window_size :: nat
  blk_shift_size :: nat
  attn :: WindowAttention
  mlp_hidden_dim :: nat

text \<open>
  \<open>SwinTransformerBlock.__init__(dim, num_heads, window_size, shift_size)\<close>, lines 116
  to 131, with the default \<open>mlp_ratio = 4\<close> and \<open>qk_scale = None\<close>.  The assertion on the
  shift size comes first; \<open>LayerNorm(dim)\<close> raises RuntimeError for a negative \<open>dim\<close>;
  the window attention is built for the square window.
\<close>

definition SwinTransformerBlock_init :: "int \<Rightarrow> int \<Rightarrow> int \<Rightarrow> int \<Rightarrow> error + SwinTransformerBlock" where
  "SwinTransformerBlock_init dim' num_heads window_size shift_size =
     (if \<not> (0 \<le> shift_size \<and> shift_size < window_size) then Inl AssertionError
      else if dim' < 0 then Inl RuntimeError
      else
        thenE (WindowAttention_init dim' (window_size, window_size) num_heads) (\<lambda>attn.
          Inr \<lparr>blk_dim = nat dim',
               blk_window_size = nat window_size,
               blk_shift_size = nat shift_size,
               attn = attn,
               mlp_hidden_dim = 4 * nat dim'\<rparr>))"

text \<open>\<open>Mlp.forward\<close>, lines 45 to 51: \<open>fc1\<close>, the activation, \<open>fc2\<close>.\<close>

definition Mlp_forward_shape :: "nat \<Rightarrow> nat \<Rightarrow> nat list \<Rightarrow> error + nat list" where
  "Mlp_forward_shape in_features hidden_features x =
     thenE (Linear_shape in_features hidden_features x) (\<lambda>x.
     Linear_shape hidden_features in_features x)"

text \<open>\<open>x[:, :H, :W, :]\<close> on a tensor of four dimensions.\<close>

definition crop_hw_shape :: "nat list \<Rightarrow> nat \<Rightarrow> nat \<Rightarrow> error + nat list" where
  "crop_hw_shape s H W =
     (case s of [B, Hp, Wp, C] \<Rightarrow> Inr [B, min H Hp, min W Wp, C] | _ \<Rightarrow> Inl IndexError)"

text \<open>
  \<open>SwinTransformerBlock.forward(x, mask_matrix)\<close>, lines 133 to 165, on shapes, with the
  fields \<open>self.H\<close> and \<open>self.W\<close> as the arguments \<open>H\<close> and \<open>W\<close>.  \<open>W % self.window_size\<close>
  raises ZeroDivisionError for a zero window size.
\<close>

definition SwinTransformerBlock_forward_shape ::
  "SwinTransformerBlock \<Rightarrow> nat \<Rightarrow> nat \<Rightarrow> nat list \<Rightarrow> nat list \<Rightarrow> error + nat list" where
  "SwinTransformerBlock_forward_shape self H W x mask_matrix =
     (case x of
        [B, L, C] \<Rightarrow>
          if L \<noteq> H * W then Inl AssertionError
          else
            let shortcut = x in
            thenE (LayerNorm_shape (blk_dim self) x) (\<lambda>x.
            thenE (reshape_shape x [D B, D H, D W, D C]) (\<lambda>x.
            if blk_window_size self = 0 then Inl ZeroDivisionError
            else
              let pad_l = 0; pad_t = 0;
                  pad_r = (blk_window_size self - W mod blk_window_size self)
                            mod blk_window_size self;
                  pad_b = (blk_window_size self - H mod blk_window_size self)
                            mod blk_window_size self
              in
              thenE (pad_shape x [(0, 0), (pad_l, pad_r), (pad_t, pad_b)]) (\<lambda>x.
              (case x of
                 [_, Hp, Wp, _] \<Rightarrow>
                   thenE (if 0 < blk_shift_size self then roll12_shape x else Inr x)
                     (\<lambda>shifted_x.
                   let attn_mask = (if 0 < blk_shift_size self then Some mask_matrix else None)
                   in
                   thenE (window_partition_shape shifted_x (blk_window_size self))
                     (\<lambda>x_windows.
                   thenE (reshape_shape x_windows
                            [Infer, D (blk_window_size self * blk_window_size self), D C])
                     (\<lambda>x_windows.
                   thenE (WindowAttention_forward_shape (attn self) x_windows attn_mask)
                     (\<lambda>attn_windows.
                   thenE (reshape_shape attn_windows
                            [Infer, D (blk_window_size self), D (blk_window_size self), D C])
                     (\<lambda>attn_windows.
                   thenE (window_reverse_shape attn_windows (blk_window_size self) Hp Wp)
                     (\<lambda>shifted_x.
                   thenE (if 0 < blk_shift_size self then roll12_shape shifted_x
                          else Inr shifted_x) (\<lambda>x.
                   thenE (if 0 < pad_r \<or> 0 < pad_b then crop_hw_shape x H W else Inr x)
                     (\<lambda>x.
                   thenE (reshape_shape x [D B, D (H * W), D C]) (\<lambda>x.
                   thenE (broadcast_shapes shortcut x) (\<lambda>x.
                   thenE (LayerNorm_shape (blk_dim self) x) (\<lambda>y.
                   thenE (Mlp_forward_shape (blk_dim self) (mlp_hidden_dim self) y) (\<lambda>y.
                   broadcast_shapes x y))))))))))))
               | _ \<Rightarrow> Inl ValueError))))
      | _ \<Rightarrow> Inl ValueError)"

subsection \<open>Stages and backbone\<close>

text \<open>
  A \<open>BasicLayer\<close>: its blocks, and the channel count of its \<open>PatchMerging\<close> when it has
  one.  \<open>BasicLayer.__init__(dim, depth, num_heads, window_size, downsample)\<close>, lines 192
  to 202, builds \<open>depth\<close> blocks with shift 0 at even and \<open>window_size // 2\<close> at odd
  positions; the first block that fails to construct fails the layer.
\<close>

record BasicLayer =
  bl_window_size :: nat
  bl_shift_size :: nat
  blocks :: "SwinTransformerBlock list"
  downsample :: "nat option"

fun sequence :: "(error + 'a) list \<Rightarrow> error + 'a list" where
  "sequence [] = Inr []"
| "sequence (r # rs) = thenE r (\<lambda>v. thenE (sequence rs) (\<lambda>vs. Inr (v # vs)))"

definition BasicLayer_init :: "int \<Rightarrow> nat \<Rightarrow> int \<Rightarrow> int \<Rightarrow> bool \<Rightarrow> error + BasicLayer" where
  "BasicLayer_init dim' depth num_heads window_size has_downsample =
     thenE (sequence (map (\<lambda>i. SwinTransformerBlock_init dim' num_heads window_size
                                 (if i mod 2 = 0 then 0 else window_size div 2))
                          [0 ..< depth])) (\<lambda>blocks.
     if has_downsample \<and> dim' < 0 then Inl RuntimeError
     else Inr \<lparr>bl_window_size = nat window_size,
               bl_shift_size = nat (window_size div 2),
               blocks = blocks,
               downsample = (if has_downsample then Some (nat dim') else None)\<rparr>)"

text \<open>The loop \<open>for blk in self.blocks: blk.H, blk.W = H, W; x = blk(x, attn_mask)\<close>.\<close>

fun run_blocks ::
  "SwinTransformerBlock list \<Rightarrow> nat \<Rightarrow> nat \<Rightarrow> nat list \<Rightarrow> nat list \<Rightarrow> error + nat list" where
  "run_blocks [] H W x attn_mask = Inr x"
| "run_blocks (blk # blks) H W x attn_mask =
     thenE (SwinTransformerBlock_forward_shape blk H W x attn_mask) (\<lambda>x.
     run_blocks blks H W x attn_mask)"

text \<open>
  \<open>BasicLayer.forward(x, H, W)\<close>, lines 204 to 225: the result is
  \<open>(x, H, W, x_down, Wh, Ww)\<close>.  The mask is the tensor \<open>BasicLayer_attn_mask\<close> builds;
  the blocks see its shape.
\<close>

definition BasicLayer_forward_shape ::
  "BasicLayer \<Rightarrow> nat list \<Rightarrow> nat \<Rightarrow> nat
     \<Rightarrow> error + (nat list \<times> nat \<times> nat \<times> nat list \<times> nat \<times> nat)" where
  "BasicLayer_forward_shape self x H W =
     thenE (BasicLayer_attn_mask (bl_window_size self) (bl_shift_size self) H W) (\<lambda>attn_mask.
     thenE (run_blocks (blocks self) H W x (shape attn_mask)) (\<lambda>x.
     (case downsample self of
        Some d \<Rightarrow>
          thenE (PatchMerging_forward_shape d x H W) (\<lambda>x_down.
          Inr (x, H, W, x_down, (H + 1) div 2, (W + 1) div 2))
      | None \<Rightarrow> Inr (x, H, W, x, H, W))))"

text \<open>
  \<open>nn.Conv2d(in_channels, out_channels, kernel_size, stride, padding)\<close> on an input
  \<open>(N, C, H, W)\<close>: \<open>C\<close> must be \<open>in_channels\<close> and the padded input at least as large
  as the kernel.
\<close>

definition Conv2d_shape :: "nat \<Rightarrow> nat \<Rightarrow> nat \<Rightarrow> nat \<Rightarrow> nat \<Rightarrow> nat list \<Rightarrow> error + nat list" where
  "Conv2d_shape in_channels out_channels kernel_size stride padding x =
     (case x of
        [N, C, H, W] \<Rightarrow>
          if C \<noteq> in_channels \<or> stride = 0
             \<or> H + 2 * padding < kernel_size \<or> W + 2 * padding < kernel_size
          then Inl RuntimeError
          else Inr [N, out_channels,
                    (H + 2 * padding - kernel_size) div stride + 1,
                    (W + 2 * padding - kernel_size) div stride + 1]
      | _ \<Rightarrow> Inl RuntimeError)"

text \<open>\<open>x.flatten(2)\<close> merges the dimensions from the third on.\<close>

definition flatten2_shape :: "nat list \<Rightarrow> error + nat list" where
  "flatten2_shape s =
     (if length s < 3 then Inl IndexError else Inr (take 2 s @ [prod_list (drop 2 s)]))"

text \<open>
  \<open>PatchEmbed.forward\<close>, lines 237 to 249, for a square patch size, \<open>in_chans = 3\<close> and
  the normalisation that \<open>patch_norm = True\<close> selects.
\<close>

definition PatchEmbed_forward_shape :: "nat \<Rightarrow> nat \<Rightarrow> nat list \<Rightarrow> error + nat list" where
  "PatchEmbed_forward_shape patch_size embed_dim x =
     (case x of
        [_, _, H, W] \<Rightarrow>
          if patch_size = 0 then Inl ZeroDivisionError
          else
            thenE (if W mod patch_size \<noteq> 0
                   then pad_shape x [(0, patch_size - W mod patch_size)] else Inr x) (\<lambda>x.
            thenE (if H mod patch_size \<noteq> 0
                   then pad_shape x [(0, 0), (0, patch_size - H mod patch_size)] else Inr x) (\<lambda>x.
            thenE (Conv2d_shape 3 embed_dim patch_size patch_size 0 x) (\<lambda>x.
            let Wh = x ! 2; Ww = x ! 3 in
            thenE (flatten2_shape x) (\<lambda>x.
            thenE (transpose_shape x 1 2) (\<lambda>x.
            thenE (LayerNorm_shape embed_dim x) (\<lambda>x.
            thenE (transpose_shape x 1 2) (\<lambda>x.
            reshape_shape x [Infer, D embed_dim, D Wh, D Ww])))))))
      | _ \<Rightarrow> Inl ValueError)"

text \<open>
  The backbone: \<open>SwinTransformer(embed_dim, depths, num_heads, window_size)\<close> with the
  defaults \<open>patch_size = 4\<close>, \<open>ape = False\<close>, \<open>patch_norm = True\<close> and
  \<open>out_indices = (0, 1, 2, 3)\<close>.  Layer \<open>i\<close> has \<open>embed_dim * 2 ** i\<close> channels and a
  \<open>PatchMerging\<close> unless it is the last.
\<close>

record SwinTransformer =
  st_embed_dim :: nat
  st_layers :: "BasicLayer list"
  st_num_features :: "nat list"

definition SwinTransformer_init ::
  "int \<Rightarrow> nat list \<Rightarrow> int list \<Rightarrow> int \<Rightarrow> error + SwinTransformer" where
  "SwinTransformer_init embed_dim depths num_heads window_size =
     (if embed_dim < 0 then Inl RuntimeError
      else if length num_heads < length depths then Inl IndexError
      else
        thenE (sequence (map (\<lambda>i_layer. BasicLayer_init (embed_dim * 2 ^ i_layer)
                                 (depths ! i_layer) (num_heads ! i_layer) window_size
                                 (i_layer < length depths - 1))
                             [0 ..< length depths])) (\<lambda>layers.
        if length depths < 4 then Inl IndexError
        else Inr \<lparr>st_embed_dim = nat embed_dim,
                  st_layers = layers,
                  st_num_features = map (\<lambda>i. nat embed_dim * 2 ^ i) [0 ..< length depths]\<rparr>))"

text \<open>
  The loop over the layers in \<open>SwinTransformer.forward\<close>, lines 299 to 305: the output
  of a layer whose index is in \<open>out_indices\<close> is normalised by the \<open>LayerNorm\<close> of its
  channel count, viewed as \<open>(-1, H, W, C)\<close>, permuted to \<open>(0, 3, 1, 2)\<close> and appended to
  the outputs.
\<close>

definition out_indices :: "nat list" where
  "out_indices = [0, 1, 2, 3]"

fun run_layers ::
  "BasicLayer list \<Rightarrow> nat \<Rightarrow> nat list \<Rightarrow> nat list \<Rightarrow> nat \<Rightarrow> nat \<Rightarrow> error + nat list list" where
  "run_layers [] i num_features x Wh Ww = Inr []"
| "run_layers (layer # rest) i num_features x Wh Ww =
     thenE (BasicLayer_forward_shape layer x Wh Ww) (\<lambda>(x_out, H, W, x, Wh, Ww).
     if i \<in> set out_indices then
       thenE (LayerNorm_shape (num_features ! i) x_out) (\<lambda>x_out.
       thenE (reshape_shape x_out [Infer, D H, D W, D (num_features ! i)]) (\<lambda>out.
       thenE (permute_shape out [0, 3, 1, 2]) (\<lambda>out.
       thenE (run_layers rest (i + 1) num_features x Wh Ww) (\<lambda>outs. Inr (out # outs)))))
     else run_layers rest (i + 1) num_features x Wh Ww)"

definition SwinTransformer_forward_shape :: "SwinTransformer \<Rightarrow> nat list \<Rightarrow> error + nat list list" where
  "SwinTransformer_forward_shape self x =
     thenE (PatchEmbed_forward_shape 4 (st_embed_dim self) x) (\<lambda>x.
     (case x of
        [_, _, Wh, Ww] \<Rightarrow>
          thenE (flatten2_shape x) (\<lambda>y.
          thenE (transpose_shape y 1 2) (\<lambda>y.
          thenE (run_layers (st_layers self) 0 (st_num_features self) y Wh Ww) (\<lambda>outs.
          Inr (x # outs))))
      | _ \<Rightarrow> Inl IndexError))"

subsection \<open>The decoder\<close>

text \<open>
  \<open>nn.InstanceNorm2d\<close> keeps the shape of an input \<open>(N, C, H, W)\<close>; computing the
  statistics of the input, it raises ValueError when a channel has a single element.
  \<open>make_cbr(in_dim, out_dim)\<close> and \<open>make_cbg\<close> are a 3 by 3 convolution with padding 1,
  an instance normalisation and a GELU.
\<close>

definition InstanceNorm2d_shape :: "nat list \<Rightarrow> error + nat list" where
  "InstanceNorm2d_shape x =
     (case x of
        [N, C, H, W] \<Rightarrow> if H * W = 1 then Inl ValueError else Inr x
      | _ \<Rightarrow> Inl ValueError)"

definition make_cbr_shape :: "nat \<Rightarrow> nat \<Rightarrow> nat list \<Rightarrow> error + nat list" where
  "make_cbr_shape in_dim out_dim x =
     thenE (Conv2d_shape in_dim out_dim 3 1 1 x) InstanceNorm2d_shape"

text \<open>
  \<open>F.interpolate\<close> on an input \<open>(N, C, H, W)\<close>, to a given size (\<open>resize_as\<close>) or by a
  scale factor \<open>num / den\<close> (\<open>rescale_to\<close>), which gives the size
  \<open>floor(H * num / den)\<close>.  Input and output sizes must be positive.
\<close>

definition interpolate_size_shape :: "nat list \<Rightarrow> nat \<Rightarrow> nat \<Rightarrow> error + nat list" where
  "interpolate_size_shape x H' W' =
     (case x of
        [N, C, H, W] \<Rightarrow>
          if H = 0 \<or> W = 0 \<or> H' = 0 \<or> W' = 0 then Inl RuntimeError else Inr [N, C, H', W']
      | _ \<Rightarrow> Inl RuntimeError)"

definition resize_as_shape :: "nat list \<Rightarrow> nat list \<Rightarrow> error + nat list" where
  "resize_as_shape x y =
     (if length y < 2 then Inl RuntimeError
      else interpolate_size_shape x (y ! (length y - 2)) (y ! (length y - 1)))"

definition rescale_to_shape :: "nat list \<Rightarrow> nat \<Rightarrow> nat \<Rightarrow> error + nat list" where
  "rescale_to_shape x num den =
     (case x of
        [N, C, H, W] \<Rightarrow> interpolate_size_shape x (H * num div den) (W * num div den)
      | _ \<Rightarrow> Inl RuntimeError)"

text \<open>The einops patterns of the decoder, on shapes.\<close>

definition image2patches_shape :: "nat list \<Rightarrow> error + nat list" where
  "image2patches_shape x =
     (case x of
        [b, c, H, W] \<Rightarrow>
          if H mod 2 \<noteq> 0 \<or> W mod 2 \<noteq> 0 then Inl EinopsError
          else Inr [2 * 2 * b, c, H div 2, W div 2]
      | _ \<Rightarrow> Inl EinopsError)"

definition patches2image_shape :: "nat list \<Rightarrow> error + nat list" where
  "patches2image_shape x =
     (case x of
        [n, c, h, w] \<Rightarrow>
          if n mod (2 * 2) \<noteq> 0 then Inl EinopsError
          else Inr [n div (2 * 2), c, 2 * h, 2 * w]
      | _ \<Rightarrow> Inl EinopsError)"

text \<open>\<open>'b c h w -> (h w) b c'\<close>\<close>

definition to_hw_b_c_shape :: "nat list \<Rightarrow> error + nat list" where
  "to_hw_b_c_shape x = (case x of [b, c, h, w] \<Rightarrow> Inr [h * w, b, c] | _ \<Rightarrow> Inl EinopsError)"

text \<open>\<open>'(h w) b c -> h w b c'\<close> with \<open>h\<close> and \<open>w\<close> given\<close>

definition split_hw_shape :: "nat list \<Rightarrow> nat \<Rightarrow> nat \<Rightarrow> error + nat list" where
  "split_hw_shape x h w =
     (case x of
        [n, b, c] \<Rightarrow> if n = h * w then Inr [h, w, b, c] else Inl EinopsError
      | _ \<Rightarrow> Inl EinopsError)"

text \<open>\<open>'(ng h) (nw w) b c -> (h w) (ng nw b) c'\<close> with \<open>ng = 2\<close> and \<open>nw = 2\<close>\<close>

definition quadrants_to_batch_shape :: "nat list \<Rightarrow> error + nat list" where
  "quadrants_to_batch_shape x =
     (case x of
        [H, W, b, c] \<Rightarrow>
          if H mod 2 \<noteq> 0 \<or> W mod 2 \<noteq> 0 then Inl EinopsError
          else Inr [(H div 2) * (W div 2), 2 * 2 * b, c]
      | _ \<Rightarrow> Inl EinopsError)"

text \<open>\<open>'(h w) b c -> b c h w'\<close> with \<open>h\<close> and \<open>w\<close> given\<close>

definition to_b_c_h_w_shape :: "nat list \<Rightarrow> nat \<Rightarrow> nat \<Rightarrow> error + nat list" where
  "to_b_c_h_w_shape x h w =
     (case x of
        [n, b, c] \<Rightarrow> if n = h * w then Inr [b, c, h, w] else Inl EinopsError
      | _ \<Rightarrow> Inl EinopsError)"

text \<open>\<open>'nl c h w -> nl c (h w)'\<close>, \<open>'nl c nphw -> nl nphw 1 c'\<close> and
  \<open>'nl c h w -> nl (h w) 1 c'\<close>\<close>

definition merge_hw_shape :: "nat list \<Rightarrow> error + nat list" where
  "merge_hw_shape x = (case x of [nl, c, h, w] \<Rightarrow> Inr [nl, c, h * w] | _ \<Rightarrow> Inl EinopsError)"

definition to_nl_n_1_c_shape :: "nat list \<Rightarrow> error + nat list" where
  "to_nl_n_1_c_shape x = (case x of [nl, c, n] \<Rightarrow> Inr [nl, n, 1, c] | _ \<Rightarrow> Inl EinopsError)"

definition to_nl_hw_1_c_shape :: "nat list \<Rightarrow> error + nat list" where
  "to_nl_hw_1_c_shape x =
     (case x of [nl, c, h, w] \<Rightarrow> Inr [nl, h * w, 1, c] | _ \<Rightarrow> Inl EinopsError)"

text \<open>
  \<open>torch.cat(xs, dim)\<close>: the shapes agree outside \<open>dim\<close>, where the sizes add up.
  \<open>x.split([a, b], dim=0)\<close>: the sizes must add up to the first dimension.
  \<open>x.chunk(k, dim=1)\<close> on a non-empty dimension: chunks of \<open>ceil(n / k)\<close>, the last one
  with what remains.  \<open>x[start:end]\<close> on the first dimension.
\<close>

fun cat_shape :: "nat \<Rightarrow> nat list list \<Rightarrow> error + nat list" where
  "cat_shape d [] = Inl RuntimeError"
| "cat_shape d [s] = (if d < length s then Inr s else Inl IndexError)"
| "cat_shape d (s # ss) =
     thenE (cat_shape d ss) (\<lambda>r.
       if d < length s \<and> length s = length r \<and> s[d := 0] = r[d := 0]
       then Inr (s[d := s ! d + r ! d]) else Inl RuntimeError)"

definition split2_shape :: "nat list \<Rightarrow> nat \<Rightarrow> nat \<Rightarrow> error + (nat list \<times> nat list)" where
  "split2_shape x a b =
     (case x of
        [] \<Rightarrow> Inl IndexError
      | n # rest \<Rightarrow> if n = a + b then Inr (a # rest, b # rest) else Inl RuntimeError)"

function chunk_sizes :: "nat \<Rightarrow> nat \<Rightarrow> nat list" where
  "chunk_sizes n m = (if n = 0 \<or> m = 0 then [] else min n m # chunk_sizes (n - m) m)"
  by pat_completeness auto
termination
  by (relation "measure fst") auto

definition chunk1_shape :: "nat list \<Rightarrow> nat \<Rightarrow> error + nat list list" where
  "chunk1_shape x k =
     (if length x < 2 then Inl IndexError
      else if k = 0 then Inl RuntimeError
      else Inr (map (\<lambda>m. x[1 := m]) (chunk_sizes (x ! 1) ((x ! 1 + k - 1) div k))))"

definition slice0_shape :: "nat list \<Rightarrow> nat \<Rightarrow> nat \<Rightarrow> error + nat list" where
  "slice0_shape x start end' =
     (case x of
        [] \<Rightarrow> Inl IndexError
      | n # rest \<Rightarrow> Inr ((min end' n - min start n) # rest))"

text \<open>
  Python's \<open>round\<close> of a quotient of two integers rounds a tie to the even neighbour;
  the division raises ZeroDivisionError on a zero divisor.
\<close>

definition py_round_div :: "nat \<Rightarrow> nat \<Rightarrow> error + nat" where
  "py_round_div a b =
     (if b = 0 then Inl ZeroDivisionError
      else
        let q = a div b; r = a mod b
        in Inr (if 2 * r < b then q else if b < 2 * r then q + 1
                else if even q then q else q + 1))"

text \<open>
  \<open>F.adaptive_avg_pool2d(x, (h, w))\<close> on an input \<open>(N, C, H, W)\<close> with non-empty channel
  and spatial dimensions.
\<close>

definition adaptive_avg_pool2d_shape :: "nat list \<Rightarrow> nat \<Rightarrow> nat \<Rightarrow> error + nat list" where
  "adaptive_avg_pool2d_shape x h w =
     (case x of
        [N, C, H, W] \<Rightarrow> if C = 0 \<or> H = 0 \<or> W = 0 then Inl RuntimeError else Inr [N, C, h, w]
      | _ \<Rightarrow> Inl RuntimeError)"

text \<open>
  \<open>PositionEmbeddingSine(num_pos_feats)(b, h, w)\<close>, lines 353 to 368: the sines of the
  even and the cosines of the odd features are stacked, which needs as many of the one
  as of the other; the result has shape \<open>(b, 2 * num_pos_feats, h, w)\<close>.
\<close>

definition PositionEmbeddingSine_shape :: "nat \<Rightarrow> nat \<Rightarrow> nat \<Rightarrow> nat \<Rightarrow> error + nat list" where
  "PositionEmbeddingSine_shape num_pos_feats b h w =
     (if (num_pos_feats + 1) div 2 \<noteq> num_pos_feats div 2 then Inl RuntimeError
      else Inr [b, 2 * num_pos_feats, h, w])"

text \<open>
  \<open>nn.MultiheadAttention(embed_dim, num_heads)(query, key, value)[0]\<close> with the sequence
  first: \<open>query\<close> is \<open>(L, N, E)\<close>, \<open>key\<close> and \<open>value\<close> are \<open>(S, N, E)\<close>, the result is
  \<open>(L, N, E)\<close>.
\<close>

definition MultiheadAttention_shape ::
  "nat \<Rightarrow> nat list \<Rightarrow> nat list \<Rightarrow> nat list \<Rightarrow> error + nat list" where
  "MultiheadAttention_shape embed_dim query key' value' =
     (case (query, key', value') of
        ([L, N, E], [S, N', E'], [S'', N'', E'']) \<Rightarrow>
          if E = embed_dim \<and> E' = embed_dim \<and> E'' = embed_dim
             \<and> N' = N \<and> N'' = N \<and> S'' = S
          then Inr [L, N, E] else Inl RuntimeError
      | _ \<Rightarrow> Inl RuntimeError)"

text \<open>
  The loop over \<open>pool_ratios\<close> in \<open>MCLM.forward\<close>, lines 391 to 398: the pooled tokens
  and their positional encodings, scale by scale.
\<close>

fun MCLM_pools ::
  "nat \<Rightarrow> nat list \<Rightarrow> nat \<Rightarrow> nat \<Rightarrow> nat list \<Rightarrow> error + (nat list list \<times> nat list list)" where
  "MCLM_pools d_model [] h w concated_locs = Inr ([], [])"
| "MCLM_pools d_model (pool_ratio # rest) h w concated_locs =
     thenE (py_round_div h pool_ratio) (\<lambda>th.
     thenE (py_round_div w pool_ratio) (\<lambda>tw.
     thenE (adaptive_avg_pool2d_shape concated_locs th tw) (\<lambda>pool.
     thenE (to_hw_b_c_shape pool) (\<lambda>tokens.
     thenE (PositionEmbeddingSine_shape (d_model div 2) (pool ! 0) (pool ! 2) (pool ! 3))
       (\<lambda>pos_emb.
     thenE (to_hw_b_c_shape pos_emb) (\<lambda>pos_emb.
     thenE (MCLM_pools d_model rest h w concated_locs) (\<lambda>(pools, p_poses).
     Inr (tokens # pools, pos_emb # p_poses))))))))"

text \<open>The feed-forward part after an attention: a residual addition, a normalisation,
  two linear maps with a GELU between them, a residual addition, a normalisation.\<close>

definition add_norm_ffn_shape :: "nat \<Rightarrow> nat list \<Rightarrow> nat list \<Rightarrow> error + nat list" where
  "add_norm_ffn_shape d_model x attended =
     thenE (broadcast_shapes x attended) (\<lambda>x.
     thenE (LayerNorm_shape d_model x) (\<lambda>x.
     thenE (Linear_shape d_model (d_model * 2) x) (\<lambda>y.
     thenE (Linear_shape (d_model * 2) d_model y) (\<lambda>y.
     thenE (broadcast_shapes x y) (\<lambda>x.
     LayerNorm_shape d_model x)))))"

text \<open>\<open>MCLM(d_model, num_heads, pool_ratios).forward(l, g)\<close>, lines 386 to 421.\<close>

definition MCLM_forward_shape :: "nat \<Rightarrow> nat list \<Rightarrow> nat list \<Rightarrow> nat list \<Rightarrow> error + nat list" where
  "MCLM_forward_shape d_model pool_ratios l g =
     (case l of
        [b, c, h, w] \<Rightarrow>
          thenE (patches2image_shape l) (\<lambda>concated_locs.
          thenE (MCLM_pools d_model pool_ratios h w concated_locs) (\<lambda>(pools, p_poses).
          thenE (cat_shape 0 pools) (\<lambda>pools.
          thenE (cat_shape 0 p_poses) (\<lambda>p_poses.
          if length g < 4 then Inl IndexError
          else
          thenE (PositionEmbeddingSine_shape (d_model div 2) (g ! 0) (g ! 2) (g ! 3)) (\<lambda>pos_emb.
          thenE (to_hw_b_c_shape pos_emb) (\<lambda>g_pos.
          thenE (to_hw_b_c_shape g) (\<lambda>g_hw_b_c.
          thenE (broadcast_shapes g_hw_b_c g_pos) (\<lambda>query.
          thenE (broadcast_shapes pools p_poses) (\<lambda>key'.
          thenE (MultiheadAttention_shape d_model query key' pools) (\<lambda>attended.
          thenE (add_norm_ffn_shape d_model g_hw_b_c attended) (\<lambda>g_hw_b_c.
          thenE (to_hw_b_c_shape l) (\<lambda>l_hw_b_c.
          thenE (split_hw_shape g_hw_b_c h w) (\<lambda>g4.
          thenE (quadrants_to_batch_shape g4) (\<lambda>g4.
          thenE (chunk1_shape l_hw_b_c 4) (\<lambda>ls.
          thenE (chunk1_shape g4 4) (\<lambda>gs.
          thenE (sequence (map (\<lambda>(l', g'). MultiheadAttention_shape d_model l' g' g')
                               (zip ls gs))) (\<lambda>outputs_re.
          thenE (cat_shape 1 outputs_re) (\<lambda>outputs_re.
          thenE (add_norm_ffn_shape d_model l_hw_b_c outputs_re) (\<lambda>l_hw_b_c.
          thenE (cat_shape 1 [l_hw_b_c, g_hw_b_c]) (\<lambda>l.
          to_b_c_h_w_shape l h w))))))))))))))))))))
      | _ \<Rightarrow> Inl ValueError)"

text \<open>The loop over \<open>pool_ratios\<close> in \<open>MCRM.forward\<close>, lines 447 to 450.\<close>

fun MCRM_pools :: "nat list \<Rightarrow> nat \<Rightarrow> nat \<Rightarrow> nat list \<Rightarrow> error + nat list list" where
  "MCRM_pools [] h w patched_glb = Inr []"
| "MCRM_pools (pool_ratio # rest) h w patched_glb =
     thenE (py_round_div h pool_ratio) (\<lambda>th.
     thenE (py_round_div w pool_ratio) (\<lambda>tw.
     thenE (adaptive_avg_pool2d_shape patched_glb th tw) (\<lambda>pool.
     thenE (merge_hw_shape pool) (\<lambda>pool.
     thenE (MCRM_pools rest h w patched_glb) (\<lambda>pools. Inr (pool # pools))))))"

text \<open>
  \<open>MCRM(d_model, num_heads, pool_ratios).forward(x)\<close>, lines 439 to 465: the result is
  the pair of the fused tiles and the token attention map.  The module has four
  attentions, one for each tensor that \<open>loc_.unbind(dim=0)\<close> gives.
\<close>

definition MCRM_forward_shape :: "nat \<Rightarrow> nat list \<Rightarrow> nat list \<Rightarrow> error + (nat list \<times> nat list)" where
  "MCRM_forward_shape d_model pool_ratios x =
     (case x of
        [b, c, h, w] \<Rightarrow>
          thenE (split2_shape x 4 1) (\<lambda>(loc, glb).
          thenE (image2patches_shape glb) (\<lambda>patched_glb.
          thenE (Conv2d_shape d_model 1 1 1 0 glb) (\<lambda>token_attention_map.
          thenE (patches2image_shape loc) (\<lambda>locs.
          thenE (resize_as_shape token_attention_map locs) (\<lambda>token_attention_map.
          thenE (image2patches_shape token_attention_map) (\<lambda>gate.
          thenE (broadcast_shapes loc gate) (\<lambda>loc.
          thenE (MCRM_pools pool_ratios h w patched_glb) (\<lambda>pools.
          thenE (cat_shape 2 pools) (\<lambda>pools.
          thenE (to_nl_n_1_c_shape pools) (\<lambda>pools.
          thenE (to_nl_hw_1_c_shape loc) (\<lambda>loc'.
          thenE (sequence (map (\<lambda>i. if 4 \<le> i then Inl IndexError
                                     else thenE (select0_shape loc' i) (\<lambda>q.
                                          thenE (select0_shape pools i) (\<lambda>v.
                                          MultiheadAttention_shape d_model q v v)))
                               [0 ..< hd loc'])) (\<lambda>outputs.
          thenE (cat_shape 1 outputs) (\<lambda>outputs.
          thenE (reshape_shape loc [D 4, D c, Infer]) (\<lambda>src.
          thenE (permute_shape src [2, 0, 1]) (\<lambda>src.
          thenE (add_norm_ffn_shape d_model src outputs) (\<lambda>src.
          thenE (permute_shape src [1, 2, 0]) (\<lambda>src.
          thenE (reshape_shape src [D 4, D c, D h, D w]) (\<lambda>src.
          thenE (patches2image_shape src) (\<lambda>srcs.
          thenE (resize_as_shape srcs glb) (\<lambda>up.
          thenE (broadcast_shapes glb up) (\<lambda>glb.
          thenE (cat_shape 0 [src, glb]) (\<lambda>out.
          Inr (out, token_attention_map)))))))))))))))))))))))
      | _ \<Rightarrow> Inl ValueError)"

subsection \<open>The matting network\<close>

text \<open>
  \<open>BEN_Base.__init__\<close>, lines 468 to 513: the backbone is
  \<open>SwinTransformer(embed_dim=128, depths=[2, 2, 18, 2], num_heads=[4, 8, 16, 32],
  window_size=12)\<close>; the other modules have constant sizes, with \<open>emb_dim = 128\<close>, and
  are written out in \<open>forward\<close>.
\<close>

record BEN_Base =
  backbone :: SwinTransformer

definition BEN_Base_init :: "error + BEN_Base" where
  "BEN_Base_init =
     thenE (SwinTransformer_init 128 [2, 2, 18, 2] [4, 8, 16, 32] 12) (\<lambda>backbone.
     Inr \<lparr>backbone = backbone\<rparr>)"

definition emb_dim :: nat where
  "emb_dim = 128"

text \<open>
  The first loop of \<open>BEN_Base.forward\<close>, lines 521 to 530: for image \<open>i\<close>, the four
  quadrants of the image and its half-resolution view are concatenated, and the result
  is appended to \<open>final_input\<close>, which is \<open>None\<close> before the first image.
\<close>

fun build_input_shape ::
  "nat list \<Rightarrow> nat list \<Rightarrow> nat list \<Rightarrow> nat list option \<Rightarrow> error + nat list option" where
  "build_input_shape [] x glb_batch final_input = Inr final_input"
| "build_input_shape (i # rest) x glb_batch final_input =
     thenE (select0_shape x i) (\<lambda>xi.
     thenE (unsqueeze_shape xi 0) (\<lambda>xi.
     thenE (image2patches_shape xi) (\<lambda>loc_batch.
     thenE (select0_shape glb_batch i) (\<lambda>gi.
     thenE (unsqueeze_shape gi 0) (\<lambda>gi.
     thenE (cat_shape 0 [loc_batch, gi]) (\<lambda>input'.
     thenE (case final_input of
              None \<Rightarrow> Inr input'
            | Some f \<Rightarrow> cat_shape 0 [f, input']) (\<lambda>final_input.
     build_input_shape rest x glb_batch (Some final_input))))))))"

text \<open>\<open>insmask_head\<close>: three 3 by 3 convolutions, through 384 channels, with an instance
  normalisation and a GELU after the first two.\<close>

definition insmask_head_shape :: "nat list \<Rightarrow> error + nat list" where
  "insmask_head_shape x =
     thenE (make_cbr_shape emb_dim 384 x) (\<lambda>x.
     thenE (make_cbr_shape 384 384 x) (\<lambda>x.
     Conv2d_shape 384 emb_dim 3 1 1 x))"

text \<open>
  The body of the second loop of \<open>BEN_Base.forward\<close>, lines 533 to 567, for image \<open>i\<close>:
  the shape of \<open>final_output\<close> after the last convolution, of which \<open>mask\<close> is the
  sigmoid.
\<close>

definition decode_shape :: "nat list list \<Rightarrow> nat list \<Rightarrow> nat \<Rightarrow> error + nat list" where
  "decode_shape features shallow_batch i =
     (if length features < 5 then Inl IndexError
      else
        let start = i * 5; end' = (i + 1) * 5 in
        thenE (slice0_shape (features ! 4) start end') (\<lambda>f4.
        thenE (slice0_shape (features ! 3) start end') (\<lambda>f3.
        thenE (slice0_shape (features ! 2) start end') (\<lambda>f2.
        thenE (slice0_shape (features ! 1) start end') (\<lambda>f1.
        thenE (slice0_shape (features ! 0) start end') (\<lambda>f0.
        thenE (make_cbr_shape 1024 emb_dim f4) (\<lambda>e5.
        thenE (make_cbr_shape 512 emb_dim f3) (\<lambda>e4.
        thenE (make_cbr_shape 256 emb_dim f2) (\<lambda>e3.
        thenE (make_cbr_shape 128 emb_dim f1) (\<lambda>e2.
        thenE (make_cbr_shape 128 emb_dim f0) (\<lambda>e1.
        thenE (split2_shape e5 4 1) (\<lambda>(loc_e5, glb_e5).
        thenE (MCLM_forward_shape emb_dim [1, 4, 8] loc_e5 glb_e5) (\<lambda>e5.
        thenE (resize_as_shape e5 e4) (\<lambda>r.
        thenE (broadcast_shapes e4 r) (\<lambda>e4.
        thenE (MCRM_forward_shape emb_dim [2, 4, 8] e4) (\<lambda>(e4, tokenattmap4).
        thenE (make_cbr_shape emb_dim emb_dim e4) (\<lambda>e4.
        thenE (resize_as_shape e4 e3) (\<lambda>r.
        thenE (broadcast_shapes e3 r) (\<lambda>e3.
        thenE (MCRM_forward_shape emb_dim [2, 4, 8] e3) (\<lambda>(e3, tokenattmap3).
        thenE (make_cbr_shape emb_dim emb_dim e3) (\<lambda>e3.
        thenE (resize_as_shape e3 e2) (\<lambda>r.
        thenE (broadcast_shapes e2 r) (\<lambda>e2.
        thenE (MCRM_forward_shape emb_dim [2, 4, 8] e2) (\<lambda>(e2, tokenattmap2).
        thenE (make_cbr_shape emb_dim emb_dim e2) (\<lambda>e2.
        thenE (resize_as_shape e2 e1) (\<lambda>r.
        thenE (broadcast_shapes e1 r) (\<lambda>e1.
        thenE (MCRM_forward_shape emb_dim [2, 4, 8] e1) (\<lambda>(e1, tokenattmap1).
        thenE (make_cbr_shape emb_dim emb_dim e1) (\<lambda>e1.
        thenE (split2_shape e1 4 1) (\<lambda>(loc_e1, glb_e1).
        thenE (patches2image_shape loc_e1) (\<lambda>output1_cat.
        thenE (resize_as_shape glb_e1 output1_cat) (\<lambda>r.
        thenE (broadcast_shapes output1_cat r) (\<lambda>output1_cat.
        thenE (insmask_head_shape output1_cat) (\<lambda>final_output.
        thenE (select0_shape shallow_batch i) (\<lambda>shallow.
        thenE (unsqueeze_shape shallow 0) (\<lambda>shallow.
        thenE (resize_as_shape shallow final_output) (\<lambda>r.
        thenE (broadcast_shapes final_output r) (\<lambda>final_output.
        thenE (rescale_to_shape final_output 2 1) (\<lambda>final_output.
        thenE (make_cbr_shape emb_dim emb_dim final_output) (\<lambda>final_output.
        thenE (resize_as_shape shallow final_output) (\<lambda>r.
        thenE (broadcast_shapes final_output r) (\<lambda>final_output.
        thenE (rescale_to_shape final_output 2 1) (\<lambda>final_output.
        thenE (make_cbr_shape emb_dim emb_dim final_output) (\<lambda>final_output.
        Conv2d_shape emb_dim 1 3 1 1 final_output))))))))))))))))))))))))))))))))))))))))))))"

text \<open>
  \<open>BEN_Base.forward(x)\<close>, lines 515 to 568, on shapes.  With no image,
  \<open>final_input\<close> stays \<open>None\<close> and the backbone raises AttributeError on it.
\<close>

definition BEN_Base_forward_shape :: "BEN_Base \<Rightarrow> nat list \<Rightarrow> error + nat list" where
  "BEN_Base_forward_shape self x =
     (case x of
        [] \<Rightarrow> Inl IndexError
      | real_batch # _ \<Rightarrow>
          thenE (Conv2d_shape 3 emb_dim 3 1 1 x) (\<lambda>shallow_batch.
          thenE (rescale_to_shape x 1 2) (\<lambda>glb_batch.
          thenE (build_input_shape [0 ..< real_batch] x glb_batch None) (\<lambda>final_input.
          (case final_input of
             None \<Rightarrow> Inl AttributeError
           | Some final_input \<Rightarrow>
               thenE (SwinTransformer_forward_shape (backbone self) final_input) (\<lambda>features.
               thenE (sequence (map (decode_shape features shallow_batch) [0 ..< real_batch]))
                 (\<lambda>outputs.
               cat_shape 0 outputs)))))))"

text \<open>
  The values of the result, lines 565 to 568.  \<open>mask = final_output.sigmoid()\<close> is
  taken elementwise, with exact arithmetic on the finite values; the sigmoid of an
  infinity is its limit, and the sigmoid of NaN is NaN.
\<close>

fun sigmoid :: "fval \<Rightarrow> fval" where
  "sigmoid (Fin x) = Fin (1 / (1 + exp (- x)))"
| "sigmoid PInf = Fin 1"
| "sigmoid NInf = Fin 0"
| "sigmoid NaN = NaN"

text \<open>
  \<open>torch.cat(tensors, dim=0)\<close> on values: the tensors agree on every dimension but the
  first, and their elements follow one another.  It raises RuntimeError on an empty list
  and on tensors with no dimension.
\<close>

fun cat0 :: "'a tensor list \<Rightarrow> error + 'a tensor" where
  "cat0 [] = Inl RuntimeError"
| "cat0 [t] = (if shape t = [] then Inl RuntimeError else Inr t)"
| "cat0 (t # ts) =
     thenE (cat0 ts) (\<lambda>r.
       (case (shape t, shape r) of
          (n # s, m # s') \<Rightarrow>
            if s = s' then Inr \<lparr>shape = (n + m) # s, data = data t @ data r\<rparr>
            else Inl RuntimeError
        | _ \<Rightarrow> Inl RuntimeError))"

text \<open>
  The end of \<open>BEN_Base.forward\<close>: \<open>final_outputs\<close> holds, for each image, the value of
  \<open>final_output\<close> after \<open>self.output\<close>; its sigmoid is appended to \<open>outputs\<close>, and the
  result is \<open>torch.cat(outputs, dim=0)\<close>.
\<close>

definition BEN_Base_forward_masks :: "fval tensor list \<Rightarrow> error + fval tensor" where
  "BEN_Base_forward_masks final_outputs = cat0 (map (tmap sigmoid) final_outputs)"

text \<open>A finite value of the closed interval from 0 to 1.\<close>

fun in_unit_interval :: "fval \<Rightarrow> bool" where
  "in_unit_interval (Fin x) = (0 \<le> x \<and> x \<le> 1)"
| "in_unit_interval v = False"

section \<open>Well-formed instances\<close>

text \<open>
  What the constructors establish and the shape theorems use: a block for \<open>C\<close> channels
  and window size \<open>ws\<close> whose head count divides \<open>C\<close>, and a layer of such blocks.
\<close>

definition good_block :: "nat \<Rightarrow> nat \<Rightarrow> SwinTransformerBlock \<Rightarrow> bool" where
  "good_block C ws blk \<longleftrightarrow>
     blk_dim blk = C \<and> blk_window_size blk = ws \<and> 0 < ws \<and> 0 < C
     \<and> make_relative_position_index (ws, ws) = Inr (relative_position_index (attn blk))
     \<and> wa_window_size (attn blk) = (ws, ws) \<and> 0 < wa_num_heads (attn blk)
     \<and> wa_dim (attn blk) = C \<and> wa_num_heads (attn blk) dvd C"

definition good_layer :: "nat \<Rightarrow> nat \<Rightarrow> bool \<Rightarrow> BasicLayer \<Rightarrow> bool" where
  "good_layer C ws has_downsample layer \<longleftrightarrow>
     bl_window_size layer = ws \<and> list_all (good_block C ws) (blocks layer)
     \<and> downsample layer = (if has_downsample then Some C else None)"

section \<open>Index arithmetic of contiguous tensors\<close>

lemma thenE_simps [simp]: "thenE (Inr v) f = f v" "thenE (Inl e) f = Inl e"
  by (simp_all add: thenE_def)

lemma offset_lt: "list_all2 (<) idx s \<Longrightarrow> offset idx (strides s) < prod_list s"
proof (induction idx s rule: list_all2_induct)
  case Nil
  then show ?case by simp
next
  case (Cons i idx d s)
  have "i * prod_list s + offset idx (strides s) < i * prod_list s + prod_list s"
    using Cons.IH by simp
  also have "\<dots> = Suc i * prod_list s" by simp
  also have "\<dots> \<le> d * prod_list s" using Cons.hyps(1) by (intro mult_le_mono1) simp
  finally show ?case by simp
qed

lemma unravel_offset: "list_all2 (<) idx s \<Longrightarrow> unravel s (offset idx (strides s)) = idx"
proof (induction idx s rule: list_all2_induct)
  case Nil
  then show ?case by simp
next
  case (Cons i idx d s)
  have lt: "offset idx (strides s) < prod_list s" using Cons.hyps(2) by (rule offset_lt)
  then show ?case using Cons.IH by simp
qed

lemma unravel_valid: "k < prod_list s \<Longrightarrow> list_all2 (<) (unravel s k) s"
proof (induction s arbitrary: k)
  case Nil
  then show ?case by simp
next
  case (Cons d s)
  have pos: "0 < prod_list s" using Cons.prems by (cases "prod_list s = 0") auto
  have "k div prod_list s < d"
    using Cons.prems pos by (simp add: less_mult_imp_div_less mult.commute)
  moreover have "k mod prod_list s < prod_list s" using pos by simp
  ultimately show ?case using Cons.IH by simp
qed

lemma offset_unravel: "k < prod_list s \<Longrightarrow> offset (unravel s k) (strides s) = k"
proof (induction s arbitrary: k)
  case Nil
  then show ?case by simp
next
  case (Cons d s)
  have pos: "0 < prod_list s" using Cons.prems by (cases "prod_list s = 0") auto
  then have "k mod prod_list s < prod_list s" by simp
  then show ?case using Cons.IH by simp
qed

lemma length_unravel [simp]: "length (unravel s k) = length s"
  by (induction s arbitrary: k) auto

lemma offset_conv_sum:
  "length idx = length st \<Longrightarrow> offset idx st = (\<Sum>i<length idx. idx ! i * st ! i)"
proof (induction idx st rule: list_induct2)
  case Nil
  then show ?case by simp
next
  case (Cons i idx s st)
  then show ?case by (simp add: sum.lessThan_Suc_shift del: sum.lessThan_Suc)
qed

lemma is_perm_set: "is_perm p n \<Longrightarrow> set p = {..<n}"
proof -
  assume p: "is_perm p n"
  then have sub: "set p \<subseteq> {..<n}" by (auto simp: is_perm_def)
  have "card (set p) = n" using p by (simp add: is_perm_def distinct_card)
  then show ?thesis using sub by (simp add: card_subset_eq)
qed

lemma offset_perm:
  assumes p: "is_perm p n" and "length idx = n" "length st = n"
  shows "offset (map (\<lambda>d. idx ! d) p) (map (\<lambda>d. st ! d) p) = offset idx st"
proof -
  have "offset (map (\<lambda>d. idx ! d) p) (map (\<lambda>d. st ! d) p)
      = (\<Sum>j<n. idx ! (p ! j) * st ! (p ! j))"
    using p by (simp add: offset_conv_sum is_perm_def)
  also have "\<dots> = sum_list (map (\<lambda>d. idx ! d * st ! d) p)"
    using p by (simp add: sum_list_sum_nth is_perm_def atLeast0LessThan)
  also have "\<dots> = (\<Sum>d\<in>set p. idx ! d * st ! d)"
    using p by (simp add: sum_list_distinct_conv_sum_set is_perm_def)
  also have "\<dots> = offset idx st"
    using assms by (simp add: offset_conv_sum is_perm_set)
  finally show ?thesis .
qed

lemma length_strides [simp]: "length (strides s) = length s"
  by (induction s) auto

lemma permute_Inr:
  "is_perm p (length (shape t)) \<Longrightarrow>
   permute t p = Inr \<lparr>shape = map (\<lambda>d. shape t ! d) p,
     data = map (\<lambda>k. data t ! offset (unravel (map (\<lambda>d. shape t ! d) p) k)
                                   (map (\<lambda>d. strides (shape t) ! d) p))
                [0 ..< prod_list (map (\<lambda>d. shape t ! d) p)]\<rparr>"
  by (simp add: permute_def Let_def)

text \<open>Permuting with \<open>p\<close> and then with \<open>q\<close> gives the tensor back when \<open>q\<close> undoes \<open>p\<close>.\<close>

lemma permute_inverse:
  assumes t: "wf t" and n: "length (shape t) = n"
    and p: "is_perm p n" and q: "is_perm q n"
    and inv: "map (\<lambda>j. p ! j) q = [0 ..< n]"
  shows "thenE (permute t p) (\<lambda>u. permute u q) = Inr t"
proof -
  let ?s = "shape t"
  let ?s1 = "map (\<lambda>d. ?s ! d) p"
  define u where "u = \<lparr>shape = ?s1,
     data = map (\<lambda>k. data t ! offset (unravel ?s1 k) (map (\<lambda>d. strides ?s ! d) p))
                [0 ..< prod_list ?s1]\<rparr>"
  have u: "permute t p = Inr u" using p n by (simp add: permute_Inr u_def)
  have lp: "length p = n" and lq: "length q = n" using p q by (simp_all add: is_perm_def)
  have pq: "p ! (q ! j) = j" if "j < n" for j
  proof -
    have "map (\<lambda>j. p ! j) q ! j = [0 ..< n] ! j" using inv by simp
    then show ?thesis using that lq by simp
  qed
  have qn: "q ! j < n" if "j < n" for j using q that by (auto simp: is_perm_def)
  have pn: "p ! j < n" if "j < n" for j using p that by (auto simp: is_perm_def)
  have s2: "map (\<lambda>d. ?s1 ! d) q = ?s"
  proof (rule nth_equalityI)
    show "length (map (\<lambda>d. ?s1 ! d) q) = length ?s" using lq n by simp
  next
    fix j assume "j < length (map (\<lambda>d. ?s1 ! d) q)"
    then have j: "j < n" using lq by simp
    then show "map (\<lambda>d. ?s1 ! d) q ! j = ?s ! j" using lq lp qn [OF j] pq [OF j] by simp
  qed
  have key: "data u ! offset (unravel ?s k) (map (\<lambda>d. strides ?s1 ! d) q) = data t ! k"
    if k: "k < prod_list ?s" for k
  proof -
    define idx2 where "idx2 = unravel ?s k"
    define idx1 where "idx1 = map (\<lambda>d. idx2 ! d) p"
    have v2: "list_all2 (<) idx2 ?s" unfolding idx2_def using k by (rule unravel_valid)
    have l2: "length idx2 = n" using n by (simp add: idx2_def)
    have l1: "length idx1 = n" using lp by (simp add: idx1_def)
    have v1: "list_all2 (<) idx1 ?s1"
      unfolding list_all2_conv_all_nth
    proof (intro conjI allI impI)
      show "length idx1 = length ?s1" using l1 lp by simp
    next
      fix i assume "i < length idx1"
      then have i: "i < n" using l1 by simp
      have "idx2 ! (p ! i) < ?s ! (p ! i)"
        using v2 pn [OF i] l2 by (simp add: list_all2_conv_all_nth)
      then show "idx1 ! i < ?s1 ! i" using i lp by (simp add: idx1_def)
    qed
    have inv1: "map (\<lambda>d. idx1 ! d) q = idx2"
    proof (rule nth_equalityI)
      show "length (map (\<lambda>d. idx1 ! d) q) = length idx2" using lq l2 by simp
    next
      fix j assume "j < length (map (\<lambda>d. idx1 ! d) q)"
      then have j: "j < n" using lq by simp
      then show "map (\<lambda>d. idx1 ! d) q ! j = idx2 ! j"
        using lq lp qn [OF j] pq [OF j] by (simp add: idx1_def)
    qed
    have o1: "offset idx2 (map (\<lambda>d. strides ?s1 ! d) q) = offset idx1 (strides ?s1)"
      using offset_perm [OF q l1, of "strides ?s1"] lp by (simp add: inv1)
    have lt1: "offset idx1 (strides ?s1) < prod_list ?s1" using v1 by (rule offset_lt)
    have u1: "unravel ?s1 (offset idx1 (strides ?s1)) = idx1" using v1 by (rule unravel_offset)
    have o2: "offset idx1 (map (\<lambda>d. strides ?s ! d) p) = offset idx2 (strides ?s)"
      unfolding idx1_def using offset_perm [OF p l2, of "strides ?s"] n by simp
    have "data u ! offset idx2 (map (\<lambda>d. strides ?s1 ! d) q)
        = data t ! offset (unravel ?s1 (offset idx1 (strides ?s1))) (map (\<lambda>d. strides ?s ! d) p)"
      using lt1 by (simp add: o1 u_def)
    also have "\<dots> = data t ! offset idx2 (strides ?s)" by (simp only: u1 o2)
    also have "offset idx2 (strides ?s) = k" unfolding idx2_def using k by (rule offset_unravel)
    finally show ?thesis by (simp add: idx2_def)
  qed
  have "permute u q = Inr \<lparr>shape = ?s,
     data = map (\<lambda>k. data u ! offset (unravel ?s k) (map (\<lambda>d. strides ?s1 ! d) q))
                [0 ..< prod_list ?s]\<rparr>"
    using q lp s2 by (simp add: permute_Inr u_def)
  also have "map (\<lambda>k. data u ! offset (unravel ?s k) (map (\<lambda>d. strides ?s1 ! d) q))
                [0 ..< prod_list ?s] = map (\<lambda>k. data t ! k) [0 ..< prod_list ?s]"
    by (rule map_cong [OF refl]) (simp add: key)
  also have "\<dots> = data t" using t map_nth [of "data t"] by (simp add: wf_def)
  finally show ?thesis using u by simp
qed

section \<open>Window partition and reverse are inverse\<close>

lemma infer_size_known:
  "prod_list s = n \<Longrightarrow> infer_size (map D s) n = Inr s"
proof -
  have k: "known (map D s) = s" by (induction s) auto
  have c: "count_list (map D s) Infer = 0" by (induction s) auto
  assume "prod_list s = n"
  then show ?thesis by (simp add: infer_size_def k c)
qed

lemma window_partition_Inr:
  assumes "shape x = [B, h * ws, w * ws, C]" "0 < ws" "0 < C"
  shows "\<exists>u. permute (x\<lparr>shape := [B, h, ws, w, ws, C]\<rparr>) [0, 1, 3, 2, 4, 5] = Inr u
           \<and> shape u = [B, h, w, ws, ws, C]
           \<and> window_partition x ws = Inr (u\<lparr>shape := [B * h * w, ws, ws, C]\<rparr>)"
proof -
  let ?x1 = "x\<lparr>shape := [B, h, ws, w, ws, C]\<rparr>"
  have v1: "view x [D B, D (h * ws div ws), D ws, D (w * ws div ws), D ws, D C] = Inr ?x1"
    using assms by (simp add: view_def infer_size_def ac_simps)
  obtain u where u: "permute ?x1 [0, 1, 3, 2, 4, 5] = Inr u"
    and su: "shape u = [B, h, w, ws, ws, C]"
    by (simp add: permute_Inr is_perm_def)
  have "B * h * w * ws * ws * C = (B * h * w) * (ws * ws * C)" by (simp add: ac_simps)
  then have d: "(B * h * w * ws * ws * C) mod (ws * ws * C) = 0"
    "(B * h * w * ws * ws * C) div (ws * ws * C) = B * h * w"
    using assms(2,3) by simp_all
  have v2: "view u [Infer, D ws, D ws, D C] = Inr (u\<lparr>shape := [B * h * w, ws, ws, C]\<rparr>)"
    using assms(2,3) su d by (simp add: view_def infer_size_def mult.assoc)
  show ?thesis using assms v1 u su v2 by (auto simp: window_partition_def)
qed

lemma window_batch:
  assumes "0 < ws" "0 < h" "0 < w"
  shows "nat \<lfloor>real (B * h * w) / (real (h * ws * (w * ws)) / real ws / real ws)\<rfloor> = B"
proof -
  have "real (h * ws * (w * ws)) / real ws / real ws = real (h * w)"
    using assms by (simp add: field_simps)
  moreover have "real (B * h * w) / real (h * w) = real B"
    using assms by (simp add: field_simps)
  ultimately show ?thesis by simp
qed

lemma window_reverse_Inr:
  assumes su: "shape u = [B, h, w, ws, ws, C]"
    and pos: "0 < ws" "0 < h" "0 < w" "0 < B" "0 < C"
    and p: "permute u [0, 1, 3, 2, 4, 5] = Inr v"
  shows "window_reverse (u\<lparr>shape := [B * h * w, ws, ws, C]\<rparr>) ws (h * ws) (w * ws)
       = Inr (v\<lparr>shape := [B, h * ws, w * ws, C]\<rparr>)"
proof -
  let ?w = "u\<lparr>shape := [B * h * w, ws, ws, C]\<rparr>"
  have sv: "shape v = [B, h, ws, w, ws, C]"
    using p su by (auto simp: permute_Inr is_perm_def)
  have "B * h * w * ws * ws * C = C * (B * h * w * ws * ws)" by (simp add: ac_simps)
  then have d: "(B * h * w * ws * ws * C) mod (B * h * w * ws * ws) = 0"
    "(B * h * w * ws * ws * C) div (B * h * w * ws * ws) = C"
    using pos by simp_all
  have v1: "view ?w [D B, D (h * ws div ws), D (w * ws div ws), D ws, D ws, Infer] = Inr u"
    using pos su d by (simp add: view_def infer_size_def mult.assoc)
  have "B * h * ws * w * ws * C = C * (B * (h * ws) * (w * ws))" by (simp add: ac_simps)
  then have d2: "(B * h * ws * w * ws * C) mod (B * (h * ws) * (w * ws)) = 0"
    "(B * h * ws * w * ws * C) div (B * (h * ws) * (w * ws)) = C"
    using pos by simp_all
  have v2: "view v [D B, D (h * ws), D (w * ws), Infer] = Inr (v\<lparr>shape := [B, h * ws, w * ws, C]\<rparr>)"
    using pos sv d2 by (simp add: view_def infer_size_def mult.assoc)
  show ?thesis
    using pos v1 p v2 window_batch [of ws h w B]
    by (simp add: window_reverse_def Let_def)
qed

text \<open>
  Claim C2.  For a tensor \<open>x\<close> of shape \<open>(B, H, W, C)\<close> whose \<open>H\<close> and \<open>W\<close> are multiples
  of the window size, \<open>window_reverse(window_partition(x, ws), ws, H, W)\<close> returns \<open>x\<close>
  itself: same shape, same elements.  The tensor is non-empty (all of \<open>B\<close>, \<open>H\<close>, \<open>W\<close>,
  \<open>C\<close> positive): on an empty one \<open>window_reverse\<close> divides by zero or cannot infer
  its \<open>-1\<close> dimension.
\<close>

theorem window_roundtrip:
  assumes "wf x" and "shape x = [B, H, W, C]"
    and "0 < ws" "ws dvd H" "ws dvd W"
    and "0 < B" "0 < H" "0 < W" "0 < C"
  shows "thenE (window_partition x ws) (\<lambda>windows. window_reverse windows ws H W) = Inr x"
proof -
  from \<open>ws dvd H\<close> obtain h where H: "H = h * ws" by (metis dvd_div_mult_self)
  from \<open>ws dvd W\<close> obtain w where W: "W = w * ws" by (metis dvd_div_mult_self)
  have h: "0 < h" and w: "0 < w" using assms H W by auto
  let ?x1 = "x\<lparr>shape := [B, h, ws, w, ws, C]\<rparr>"
  have sx: "shape x = [B, h * ws, w * ws, C]" using assms(2) H W by simp
  from window_partition_Inr [OF sx \<open>0 < ws\<close> \<open>0 < C\<close>] obtain u where
    u: "permute ?x1 [0, 1, 3, 2, 4, 5] = Inr u" and su: "shape u = [B, h, w, ws, ws, C]"
    and wp: "window_partition x ws = Inr (u\<lparr>shape := [B * h * w, ws, ws, C]\<rparr>)"
    by blast
  have wf1: "wf ?x1" using assms(1) sx by (simp add: wf_def ac_simps)
  have "thenE (permute ?x1 [0, 1, 3, 2, 4, 5]) (\<lambda>u. permute u [0, 1, 3, 2, 4, 5]) = Inr ?x1"
    by (rule permute_inverse [OF wf1, of 6]) (simp_all add: is_perm_def upt_rec)
  then have pu: "permute u [0, 1, 3, 2, 4, 5] = Inr ?x1" using u by simp
  have "window_reverse (u\<lparr>shape := [B * h * w, ws, ws, C]\<rparr>) ws H W = Inr x"
    using window_reverse_Inr [OF su \<open>0 < ws\<close> h w \<open>0 < B\<close> \<open>0 < C\<close> pu] sx H W by simp
  then show ?thesis using wp by simp
qed

theorem window_roundtrip_witness:
  "wf \<lparr>shape = [1, 4, 2, 1], data = [10, 11, 20, 21, 30, 31, 40, 41 :: int]\<rparr>
   \<and> (2::nat) dvd 4 \<and> (2::nat) dvd 2
   \<and> window_partition \<lparr>shape = [1, 4, 2, 1], data = [10, 11, 20, 21, 30, 31, 40, 41 :: int]\<rparr> 2
       = Inr \<lparr>shape = [2, 2, 2, 1], data = [10, 11, 20, 21, 30, 31, 40, 41]\<rparr>
   \<and> thenE (window_partition
               \<lparr>shape = [1, 4, 2, 1], data = [10, 11, 20, 21, 30, 31, 40, 41 :: int]\<rparr> 2)
         (\<lambda>windows. window_reverse windows 2 4 2)
       = Inr \<lparr>shape = [1, 4, 2, 1], data = [10, 11, 20, 21, 30, 31, 40, 41]\<rparr>"
  using window_roundtrip
    [of "\<lparr>shape = [1, 4, 2, 1], data = [10, 11, 20, 21, 30, 31, 40, 41 :: int]\<rparr>" 1 4 2 1 2]
  by (simp add: wf_def window_partition_def view_def infer_size_def permute_def is_perm_def
        upt_rec)

section \<open>Quadrant split and reassembly are inverse\<close>

lemma view_known:
  "prod_list s = prod_list (shape t) \<Longrightarrow> view t (map D s) = Inr (t\<lparr>shape := s\<rparr>)"
  by (simp add: view_def infer_size_known)

text \<open>
  Claim C6.  For every tensor \<open>x\<close> of shape \<open>(B, C, H, W)\<close> with \<open>H\<close> and \<open>W\<close> even,
  \<open>patches2image(image2patches(x))\<close> is \<open>x\<close> itself: the split into the four quadrants
  and their reassembly are exact inverses.
\<close>

theorem quadrant_roundtrip:
  assumes "wf x" and "shape x = [B, C, H, W]" and "even H" "even W"
  shows "thenE (image2patches x) patches2image = Inr x"
proof -
  from \<open>even H\<close> obtain h where H: "H = 2 * h" by (auto elim: evenE)
  from \<open>even W\<close> obtain w where W: "W = 2 * w" by (auto elim: evenE)
  let ?x1 = "x\<lparr>shape := [B, C, 2, h, 2, w]\<rparr>"
  have wf1: "wf ?x1" using assms(1,2) H W by (simp add: wf_def ac_simps)
  have v1: "view x [D B, D C, D 2, D (H div 2), D 2, D (W div 2)] = Inr ?x1"
    using view_known [of "[B, C, 2, h, 2, w]" x] assms(2) H W by (simp add: ac_simps)
  obtain u where u: "permute ?x1 [2, 4, 0, 1, 3, 5] = Inr u"
    and su: "shape u = [2, 2, B, C, h, w]"
    by (simp add: permute_Inr is_perm_def)
  have "thenE (permute ?x1 [2, 4, 0, 1, 3, 5]) (\<lambda>u. permute u [2, 3, 0, 4, 1, 5]) = Inr ?x1"
    by (rule permute_inverse [OF wf1, of 6]) (simp_all add: is_perm_def upt_rec)
  then have pu: "permute u [2, 3, 0, 4, 1, 5] = Inr ?x1" using u by simp
  have v2: "view u [D (2 * 2 * B), D C, D (H div 2), D (W div 2)]
          = Inr (u\<lparr>shape := [4 * B, C, h, w]\<rparr>)"
    using view_known [of "[4 * B, C, h, w]" u] su H W by (simp add: ac_simps)
  have i2p: "image2patches x = Inr (u\<lparr>shape := [4 * B, C, h, w]\<rparr>)"
    using assms(2) H W v1 u v2 by (simp add: image2patches_def)
  have v3: "view (u\<lparr>shape := [4 * B, C, h, w]\<rparr>) [D 2, D 2, D (4 * B div (2 * 2)), D C, D h, D w]
          = Inr u"
    using view_known [of "[2, 2, B, C, h, w]" "u\<lparr>shape := [4 * B, C, h, w]\<rparr>"] su
    by (simp add: ac_simps)
  have v4: "view ?x1 [D (4 * B div (2 * 2)), D C, D (2 * h), D (2 * w)] = Inr x"
    using view_known [of "[B, C, 2 * h, 2 * w]" ?x1] assms(2) H W by (simp add: ac_simps)
  have "patches2image (u\<lparr>shape := [4 * B, C, h, w]\<rparr>) = Inr x"
    using v3 pu v4 by (simp add: patches2image_def)
  then show ?thesis using i2p by simp
qed

theorem quadrant_roundtrip_witness:
  "wf \<lparr>shape = [1, 1, 4, 4], data = [0, 1, 2, 3, 4, 5, 6, 7, 8, 9, 10, 11, 12, 13, 14, 15 :: int]\<rparr>
   \<and> even (4::nat)
   \<and> image2patches
         \<lparr>shape = [1, 1, 4, 4], data = [0, 1, 2, 3, 4, 5, 6, 7, 8, 9, 10, 11, 12, 13, 14, 15 :: int]\<rparr>
       = Inr \<lparr>shape = [4, 1, 2, 2],
              data = [0, 1, 4, 5, 2, 3, 6, 7, 8, 9, 12, 13, 10, 11, 14, 15]\<rparr>
   \<and> thenE (image2patches
         \<lparr>shape = [1, 1, 4, 4], data = [0, 1, 2, 3, 4, 5, 6, 7, 8, 9, 10, 11, 12, 13, 14, 15 :: int]\<rparr>)
         patches2image
       = Inr \<lparr>shape = [1, 1, 4, 4],
              data = [0, 1, 2, 3, 4, 5, 6, 7, 8, 9, 10, 11, 12, 13, 14, 15]\<rparr>"
  using quadrant_roundtrip
    [of "\<lparr>shape = [1, 1, 4, 4],
          data = [0, 1, 2, 3, 4, 5, 6, 7, 8, 9, 10, 11, 12, 13, 14, 15 :: int]\<rparr>" 1 1 4 4]
  by (simp add: wf_def image2patches_def view_def infer_size_def permute_def is_perm_def
        upt_rec)

section \<open>Reading elements through the tensor operations\<close>

lemma tget_tabulate: "list_all2 (<) idx s \<Longrightarrow> tget (tabulate s f) idx = f idx"
  by (simp add: tget_def tabulate_def offset_lt unravel_offset)

lemma data_tabulate: "k < prod_list s \<Longrightarrow> data (tabulate s f) ! k = f (unravel s k)"
  by (simp add: tabulate_def)

lemma shape_tabulate [simp]: "shape (tabulate s f) = s"
  by (simp add: tabulate_def)

lemma wf_tabulate [simp]: "wf (tabulate s f)"
  by (simp add: tabulate_def wf_def)

lemma tget_reshape:
  "tget (t\<lparr>shape := s'\<rparr>) idx = data t ! offset idx (strides s')"
  by (simp add: tget_def)

lemma data_nth_tget:
  "k < prod_list (shape t) \<Longrightarrow> data t ! k = tget t (unravel (shape t) k)"
  by (simp add: tget_def offset_unravel)

lemma tget_permute:
  assumes p: "is_perm p (length (shape t))" and u: "permute t p = Inr u"
    and v: "list_all2 (<) idx (shape t)"
  shows "tget u (map (\<lambda>d. idx ! d) p) = tget t idx"
proof -
  let ?s = "shape t"
  let ?s' = "map (\<lambda>d. ?s ! d) p"
  let ?idx' = "map (\<lambda>d. idx ! d) p"
  have li: "length idx = length ?s" using v by (simp add: list_all2_lengthD)
  have pn: "d < length ?s" if "d \<in> set p" for d using p that by (simp add: is_perm_def)
  have v': "list_all2 (<) ?idx' ?s'"
    unfolding list_all2_conv_all_nth
  proof (intro conjI allI impI)
    show "length ?idx' = length ?s'" by simp
  next
    fix i assume "i < length ?idx'"
    then have i: "i < length p" by simp
    then have "p ! i < length ?s" using pn by simp
    then have "idx ! (p ! i) < ?s ! (p ! i)" using v li by (simp add: list_all2_conv_all_nth)
    then show "?idx' ! i < ?s' ! i" using i by simp
  qed
  have su: "shape u = ?s'" and du: "data u = map (\<lambda>k. data t ! offset (unravel ?s' k)
      (map (\<lambda>d. strides ?s ! d) p)) [0 ..< prod_list ?s']"
    using u p by (auto simp: permute_Inr)
  have lt: "offset ?idx' (strides ?s') < prod_list ?s'" using v' by (rule offset_lt)
  have "tget u ?idx' = data t ! offset (unravel ?s' (offset ?idx' (strides ?s')))
      (map (\<lambda>d. strides ?s ! d) p)"
    using lt by (simp add: tget_def su du)
  also have "\<dots> = data t ! offset ?idx' (map (\<lambda>d. strides ?s ! d) p)"
    using v' by (simp add: unravel_offset)
  also have "\<dots> = data t ! offset idx (strides ?s)"
    using offset_perm [OF p li, of "strides ?s"] by simp
  finally show ?thesis by (simp add: tget_def)
qed

lemma shape_permute:
  "permute t p = Inr u \<Longrightarrow> shape u = map (\<lambda>d. shape t ! d) p"
  by (auto simp: permute_def Let_def split: if_splits)

lemma wf_permute: "permute t p = Inr u \<Longrightarrow> wf u"
  by (auto simp: permute_def Let_def wf_def split: if_splits)

section \<open>The relative position index in closed form\<close>

lemma tget_arange: "i < n \<Longrightarrow> tget (arange n) [i] = int i"
  by (simp add: tget_def arange_def)

lemma shape_arange [simp]: "shape (arange n) = [n]"
  by (simp add: arange_def)

lemma unravel3:
  assumes "c < n" "k < a * b"
  shows "unravel [n, a, b] (c * (a * b) + k) = [c, k div b, k mod b]"
proof -
  have b: "0 < b" using assms(2) by (cases "b = 0") auto
  have v: "list_all2 (<) [c, k div b, k mod b] [n, a, b]"
    using assms b by (simp add: less_mult_imp_div_less mult.commute)
  have "offset [c, k div b, k mod b] (strides [n, a, b]) = c * (a * b) + k" by simp
  then show ?thesis using unravel_offset [OF v] by simp
qed

lemma coords_flatten_get:
  assumes "stack_meshgrid (arange a) (arange b) = Inr coords" "c < 2" "k < a * b"
  shows "tget (coords\<lparr>shape := [2, a * b]\<rparr>) [c, k]
       = (if c = 0 then int (k div b) else int (k mod b))"
proof -
  have b: "0 < b" using assms(3) by (cases "b = 0") auto
  have kd: "k div b < a" using assms(3) b by (simp add: less_mult_imp_div_less mult.commute)
  have co: "coords = tabulate [2, a, b]
      (\<lambda>idx. if idx ! 0 = 0 then tget (arange a) [idx ! 1] else tget (arange b) [idx ! 2])"
    using assms(1) by (auto simp: stack_meshgrid_def)
  have lt: "c * (a * b) + k < prod_list [2, a, b]"
  proof -
    have "c * (a * b) + k < c * (a * b) + a * b" using assms(3) by simp
    also have "\<dots> = Suc c * (a * b)" by simp
    also have "\<dots> \<le> 2 * (a * b)" using assms(2) by (intro mult_le_mono1) simp
    finally show ?thesis by simp
  qed
  have "tget (coords\<lparr>shape := [2, a * b]\<rparr>) [c, k] = data coords ! (c * (a * b) + k)"
    by (simp add: tget_reshape)
  also have "\<dots> = (\<lambda>idx. if idx ! 0 = 0 then tget (arange a) [idx ! 1]
      else tget (arange b) [idx ! 2]) (unravel [2, a, b] (c * (a * b) + k))"
    unfolding co using lt by (rule data_tabulate)
  also have "\<dots> = (if c = 0 then tget (arange a) [k div b] else tget (arange b) [k mod b])"
    unfolding unravel3 [OF assms(2,3)] by simp
  also have "\<dots> = (if c = 0 then int (k div b) else int (k mod b))"
    using kd b by (simp add: tget_arange)
  finally show ?thesis .
qed

lemma broadcast_shapes_col_row: "broadcast_shapes [2, n, 1] [2, 1, n] = Inr [2, n, n]"
  by (simp add: broadcast_shapes_def)

lemma update_last_3:
  assumes "shape t = [m, n, 2]" "i < 2"
  shows "\<exists>u. update_last t i g = Inr u \<and> shape u = [m, n, 2] \<and> wf u \<and>
          (\<forall>x<m. \<forall>y<n. \<forall>c<2. tget u [x, y, c] = (if c = i then g (tget t [x, y, c]) else tget t [x, y, c]))"
  using assms by (simp add: update_last_def tget_tabulate)

lemma sum_last_3:
  assumes "shape t = [m, n, 2]"
  shows "\<exists>u. sum_last t = Inr u \<and> shape u = [m, n] \<and> wf u \<and>
          (\<forall>x<m. \<forall>y<n. tget u [x, y] = tget t [x, y, 0] + tget t [x, y, 1])"
  using assms by (simp add: sum_last_def tget_tabulate upt_rec)

lemma relative_coords_get:
  assumes co: "stack_meshgrid (arange a) (arange b) = Inr coords"
    and c: "c < 2" and i: "i < a * b" and j: "j < a * b"
  shows "tget (tabulate [2, a * b, a * b]
            (\<lambda>idx. tget (coords\<lparr>shape := [2, a * b, 1]\<rparr>) (bindex [2, a * b, 1] idx)
                 - tget (coords\<lparr>shape := [2, 1, a * b]\<rparr>) (bindex [2, 1, a * b] idx)))
          [c, i, j]
       = (if c = 0 then int (i div b) - int (j div b) else int (i mod b) - int (j mod b))"
proof -
  let ?N = "a * b"
  have v: "list_all2 (<) [c, i, j] [2, ?N, ?N]" using c i j by simp
  have i': "(if ?N = 1 then 0 else i) = i" using i by auto
  have l: "tget (coords\<lparr>shape := [2, ?N, 1]\<rparr>) (bindex [2, ?N, 1] [c, i, j])
         = tget (coords\<lparr>shape := [2, ?N]\<rparr>) [c, i]"
    using i' by (simp add: bindex_def tget_reshape)
  have r: "tget (coords\<lparr>shape := [2, 1, ?N]\<rparr>) (bindex [2, 1, ?N] [c, i, j])
         = tget (coords\<lparr>shape := [2, ?N]\<rparr>) [c, j]"
    using j by (auto simp add: bindex_def tget_reshape)
  show ?thesis
    unfolding tget_tabulate [OF v] l r
    using coords_flatten_get [OF co c i] coords_flatten_get [OF co c j] by simp
qed

lemma relative_position_index_closed:
  "\<exists>R. make_relative_position_index (a, b) = Inr R \<and> shape R = [a * b, a * b] \<and> wf R \<and>
     (\<forall>i<a * b. \<forall>j<a * b. tget R [i, j] =
        (int (i div b) - int (j div b) + (int a - 1)) * (2 * int b - 1)
        + (int (i mod b) - int (j mod b) + (int b - 1)))"
proof -
  let ?N = "a * b"
  obtain coords where co: "stack_meshgrid (arange a) (arange b) = Inr coords"
    and sc: "shape coords = [2, a, b]"
    by (simp add: stack_meshgrid_def)
  have fl: "flatten1 coords = Inr (coords\<lparr>shape := [2, ?N]\<rparr>)"
    using sc by (simp add: flatten1_def)
  have u2: "unsqueeze (coords\<lparr>shape := [2, ?N]\<rparr>) 2 = Inr (coords\<lparr>shape := [2, ?N, 1]\<rparr>)"
    and u1: "unsqueeze (coords\<lparr>shape := [2, ?N]\<rparr>) 1 = Inr (coords\<lparr>shape := [2, 1, ?N]\<rparr>)"
    by (simp_all add: unsqueeze_def)
  define rc where "rc = tabulate [2, ?N, ?N]
            (\<lambda>idx. tget (coords\<lparr>shape := [2, ?N, 1]\<rparr>) (bindex [2, ?N, 1] idx)
                 - tget (coords\<lparr>shape := [2, 1, ?N]\<rparr>) (bindex [2, 1, ?N] idx))"
  have br: "broadcast2 (\<lambda>x y. x - y) (coords\<lparr>shape := [2, ?N, 1]\<rparr>) (coords\<lparr>shape := [2, 1, ?N]\<rparr>)
          = Inr rc"
    using broadcast_shapes_col_row [of ?N] by (simp add: broadcast2_def rc_def)
  have src: "shape rc = [2, ?N, ?N]" by (simp add: rc_def)
  have rcg: "tget rc [c, i, j]
       = (if c = 0 then int (i div b) - int (j div b) else int (i mod b) - int (j mod b))"
    if "c < 2" "i < ?N" "j < ?N" for c i j
    unfolding rc_def using co that by (rule relative_coords_get)
  have pp: "is_perm [1, 2, 0] (length (shape rc))" by (simp add: src is_perm_def)
  obtain rc1 where p1: "permute rc [1, 2, 0] = Inr rc1"
    using pp by (simp add: permute_Inr)
  have s1: "shape rc1 = [?N, ?N, 2]" using shape_permute [OF p1] src by simp
  have g1: "tget rc1 [i, j, c]
       = (if c = 0 then int (i div b) - int (j div b) else int (i mod b) - int (j mod b))"
    if "c < 2" "i < ?N" "j < ?N" for c i j
  proof -
    have "list_all2 (<) [c, i, j] (shape rc)" using that src by simp
    from tget_permute [OF pp p1 this] show ?thesis using rcg [OF that] by simp
  qed
  from update_last_3 [OF s1, of 0 "\<lambda>v. v + (int a - 1)"] obtain rc2 where
    p2: "update_last rc1 0 (\<lambda>v. v + (int a - 1)) = Inr rc2" and s2: "shape rc2 = [?N, ?N, 2]"
    and g2: "\<forall>x<?N. \<forall>y<?N. \<forall>c<2. tget rc2 [x, y, c]
        = (if c = 0 then tget rc1 [x, y, c] + (int a - 1) else tget rc1 [x, y, c])"
    by auto
  from update_last_3 [OF s2, of 1 "\<lambda>v. v + (int b - 1)"] obtain rc3 where
    p3: "update_last rc2 1 (\<lambda>v. v + (int b - 1)) = Inr rc3" and s3: "shape rc3 = [?N, ?N, 2]"
    and g3: "\<forall>x<?N. \<forall>y<?N. \<forall>c<2. tget rc3 [x, y, c]
        = (if c = 1 then tget rc2 [x, y, c] + (int b - 1) else tget rc2 [x, y, c])"
    by auto
  from update_last_3 [OF s3, of 0 "\<lambda>v. v * (2 * int b - 1)"] obtain rc4 where
    p4: "update_last rc3 0 (\<lambda>v. v * (2 * int b - 1)) = Inr rc4" and s4: "shape rc4 = [?N, ?N, 2]"
    and g4: "\<forall>x<?N. \<forall>y<?N. \<forall>c<2. tget rc4 [x, y, c]
        = (if c = 0 then tget rc3 [x, y, c] * (2 * int b - 1) else tget rc3 [x, y, c])"
    by auto
  from sum_last_3 [OF s4] obtain R where
    p5: "sum_last rc4 = Inr R" and s5: "shape R = [?N, ?N]" and w5: "wf R"
    and g5: "\<forall>x<?N. \<forall>y<?N. tget R [x, y] = tget rc4 [x, y, 0] + tget rc4 [x, y, 1]"
    by auto
  have "make_relative_position_index (a, b) = Inr R"
    using co fl u2 u1 br p1 p2 p3 p4 p5 by (simp add: make_relative_position_index_def)
  moreover have "tget R [i, j] =
        (int (i div b) - int (j div b) + (int a - 1)) * (2 * int b - 1)
        + (int (i mod b) - int (j mod b) + (int b - 1))" if "i < ?N" "j < ?N" for i j
    using that g5 g4 g3 g2 g1 [of 0 i j] g1 [of 1 i j] by simp
  ultimately show ?thesis using s5 w5 by blast
qed

section \<open>The relative position index depends on the window size and the offsets only\<close>

lemma WindowAttention_init_index:
  assumes "WindowAttention_init dim' (a, b) num_heads = Inr self"
  shows "make_relative_position_index (nat a, nat b) = Inr (relative_position_index self)"
    and "wa_window_size self = (nat a, nat b)" and "wa_num_heads self = nat num_heads"
    and "wa_dim self = nat dim'" and "0 \<le> a" and "0 \<le> b" and "0 < num_heads" and "0 \<le> dim'"
  using assms
  by (auto simp: WindowAttention_init_def Let_def thenE_def split: if_splits sum.splits)

lemma index_bounds:
  fixes x y :: int
  assumes "0 \<le> x" "x \<le> 2 * a - 2" "0 \<le> y" "y \<le> 2 * b - 2"
  shows "0 \<le> x * (2 * b - 1) + y" and "x * (2 * b - 1) + y < (2 * a - 1) * (2 * b - 1)"
proof -
  have b: "0 \<le> 2 * b - 1" using assms(3,4) by simp
  show "0 \<le> x * (2 * b - 1) + y" using assms(1,3) b by simp
  have "x * (2 * b - 1) \<le> (2 * a - 2) * (2 * b - 1)"
    using assms(2) b by (rule mult_right_mono)
  then have "x * (2 * b - 1) + y < (2 * a - 2) * (2 * b - 1) + (2 * b - 1)"
    using assms(4) by simp
  also have "\<dots> = (2 * a - 1) * (2 * b - 1)" by (simp add: algebra_simps)
  finally show "x * (2 * b - 1) + y < (2 * a - 1) * (2 * b - 1)" .
qed

lemma relative_position_index_range:
  assumes "make_relative_position_index (a, b) = Inr R" "i < a * b" "j < a * b"
  shows "0 \<le> tget R [i, j]" and "tget R [i, j] < (2 * int a - 1) * (2 * int b - 1)"
proof -
  have b: "0 < b" using assms(2) by (cases "b = 0") auto
  have id: "i div b < a" and jd: "j div b < a"
    using assms(2,3) b by (simp_all add: less_mult_imp_div_less mult.commute)
  have im: "i mod b < b" and jm: "j mod b < b" using b by simp_all
  let ?x = "int (i div b) - int (j div b) + (int a - 1)"
  let ?y = "int (i mod b) - int (j mod b) + (int b - 1)"
  from relative_position_index_closed [of a b] assms
  have g: "tget R [i, j] = ?x * (2 * int b - 1) + ?y" by auto
  have x: "0 \<le> ?x" "?x \<le> 2 * int a - 2" using id jd by linarith+
  have y: "0 \<le> ?y" "?y \<le> 2 * int b - 2" using im jm by linarith+
  show "0 \<le> tget R [i, j]" unfolding g using x y by (rule index_bounds)
  show "tget R [i, j] < (2 * int a - 1) * (2 * int b - 1)"
    unfolding g using x y by (rule index_bounds)
qed

lemma unravel2:
  assumes "i < m" "j < n"
  shows "unravel [m, n] (i * n + j) = [i, j]"
proof -
  have v: "list_all2 (<) [i, j] [m, n]" using assms by simp
  have "offset [i, j] (strides [m, n]) = i * n + j" by simp
  then show ?thesis using unravel_offset [OF v] by simp
qed

lemma flat2_lt:
  assumes "i < m" "j < (n::nat)"
  shows "i * n + j < m * n"
proof -
  have "i * n + j < i * n + n" using assms(2) by simp
  also have "\<dots> = Suc i * n" by simp
  also have "\<dots> \<le> m * n" using assms(1) by (intro mult_le_mono1) simp
  finally show ?thesis .
qed

lemma relative_position_bias_get:
  assumes R: "make_relative_position_index (a, b) = Inr (relative_position_index self)"
    and ws: "wa_window_size self = (a, b)" and pos: "0 < a" "0 < b"
    and tab: "wf table" "shape table = [nat ((2 * int a - 1) * (2 * int b - 1)), nh]"
  shows "\<exists>bias. relative_position_bias self table = Inr bias \<and> shape bias = [nh, a * b, a * b] \<and>
           (\<forall>h<nh. \<forall>i<a * b. \<forall>j<a * b.
              tget bias [h, i, j] = tget table [nat (tget (relative_position_index self) [i, j]), h])"
proof -
  let ?N = "a * b"
  let ?R = "relative_position_index self"
  let ?T = "nat ((2 * int a - 1) * (2 * int b - 1))"
  have N: "0 < ?N" using pos by simp
  from relative_position_index_closed [of a b] R
  have sR: "shape ?R = [?N, ?N]" and wR: "wf ?R" by auto
  have lenR: "length (data ?R) = ?N * ?N" using sR wR by (simp add: wf_def)
  have Tpos: "0 \<le> (2 * int a - 1) * (2 * int b - 1)" using pos by simp
  have rng: "0 \<le> tget ?R [i, j] \<and> tget ?R [i, j] < int ?T" if "i < ?N" "j < ?N" for i j
    using relative_position_index_range [OF R that] Tpos by simp
  have dR: "data ?R ! (i * ?N + j) = tget ?R [i, j]" for i j
    by (simp add: tget_def sR)
  have vals: "0 \<le> v \<and> v < int ?T" if "v \<in> set (data ?R)" for v
  proof -
    from that obtain k where k: "k < ?N * ?N" and v: "v = data ?R ! k"
      using lenR by (metis in_set_conv_nth)
    have kd: "k div ?N < ?N" using k N by (simp add: less_mult_imp_div_less)
    have km: "k mod ?N < ?N" using N by simp
    have "k div ?N * ?N + k mod ?N = k" by (rule div_mult_mod_eq)
    then have "v = tget ?R [k div ?N, k mod ?N]"
      using dR [of "k div ?N" "k mod ?N"] v by (simp del: div_mult_mod_eq)
    then show ?thesis using rng [OF kd km] by simp
  qed
  let ?index = "?R\<lparr>shape := [?N * ?N]\<rparr>"
  have v1: "view ?R [Infer] = Inr ?index"
    by (simp add: view_def infer_size_def sR)
  define bias0 where "bias0 = tabulate [?N * ?N, nh]
      (\<lambda>idx. let v = tget ?index [hd idx]
             in tget table (nat (if v < 0 then v + int ?T else v) # tl idx))"
  have nobad: "\<not> (\<exists>v \<in> set (data ?index). v < - int ?T \<or> int ?T \<le> v)"
    using vals by fastforce
  have ir: "index_rows table ?index = Inr bias0"
    using nobad by (simp add: index_rows_def tab(2) bias0_def)
  have "?N * ?N * nh = nh * (?N * ?N)" by (simp add: ac_simps)
  then have d: "(?N * ?N * nh) mod (?N * ?N) = 0" "(?N * ?N * nh) div (?N * ?N) = nh"
    using N by simp_all
  let ?bias1 = "bias0\<lparr>shape := [?N, ?N, nh]\<rparr>"
  have v2: "view bias0 [D ?N, D ?N, Infer] = Inr ?bias1"
    using N d by (simp add: view_def infer_size_def bias0_def)
  have pp: "is_perm [2, 0, 1] (length (shape ?bias1))" by (simp add: is_perm_def)
  obtain bias where p: "permute ?bias1 [2, 0, 1] = Inr bias"
    using pp by (simp add: permute_Inr)
  have sb: "shape bias = [nh, ?N, ?N]" using shape_permute [OF p] by simp
  have g: "tget bias [h, i, j] = tget table [nat (tget ?R [i, j]), h]"
    if h: "h < nh" and i: "i < ?N" and j: "j < ?N" for h i j
  proof -
    have "list_all2 (<) [i, j, h] (shape ?bias1)" using that by simp
    from tget_permute [OF pp p this]
    have "tget bias [h, i, j] = tget ?bias1 [i, j, h]" by simp
    also have "\<dots> = data bias0 ! ((i * ?N + j) * nh + h)"
      by (simp add: tget_reshape algebra_simps)
    also have "\<dots> = (\<lambda>idx. let v = tget ?index [hd idx]
             in tget table (nat (if v < 0 then v + int ?T else v) # tl idx))
          (unravel [?N * ?N, nh] ((i * ?N + j) * nh + h))"
      unfolding bias0_def
      by (rule data_tabulate) (use flat2_lt [OF flat2_lt [OF i j] h] in simp)
    also have "unravel [?N * ?N, nh] ((i * ?N + j) * nh + h) = [i * ?N + j, h]"
      using flat2_lt [OF i j] h by (rule unravel2)
    also have "(\<lambda>idx. let v = tget ?index [hd idx]
             in tget table (nat (if v < 0 then v + int ?T else v) # tl idx)) [i * ?N + j, h]
        = tget table [nat (tget ?R [i, j]), h]"
      using rng [OF i j] dR [of i j] by (simp add: tget_reshape Let_def)
    finally show ?thesis .
  qed
  have "relative_position_bias self table = Inr bias"
    using v1 ir v2 p by (simp add: relative_position_bias_def ws)
  then show ?thesis using sb g by blast
qed

lemma WindowAttention_load_state_dict_Inr:
  assumes "WindowAttention_load_state_dict self state_dict = Inr self'"
  shows "\<exists>e. map_of state_dict ''relative_position_index'' = Some e
           \<and> entry_shape e = shape (relative_position_index self)
           \<and> self' = self\<lparr>relative_position_index := to_long e\<rparr>"
proof -
  from assms obtain e where e: "map_of state_dict ''relative_position_index'' = Some e"
    and s: "self' = self\<lparr>relative_position_index := to_long e\<rparr>"
    and ok: "\<not> list_ex (\<lambda>(k, s). map_option entry_shape (map_of state_dict k) \<noteq> Some s)
               (WindowAttention_state_shapes self)"
    by (auto simp: WindowAttention_load_state_dict_def Let_def split: if_splits option.splits)
  from ok have "map_option entry_shape (map_of state_dict ''relative_position_index'')
      = Some (shape (relative_position_index self))"
    by (simp add: WindowAttention_state_shapes_def)
  then show ?thesis using e s by simp
qed

lemma WindowAttention_load_state_dict_ok:
  assumes "shape table = [nat ((2 * int (fst (wa_window_size self)) - 1)
                               * (2 * int (snd (wa_window_size self)) - 1)), wa_num_heads self]"
    and "shape index = shape (relative_position_index self)"
    and "shape qkv_weight = [wa_dim self * 3, wa_dim self]"
    and "shape qkv_bias = [wa_dim self * 3]"
    and "shape proj_weight = [wa_dim self, wa_dim self]"
    and "shape proj_bias = [wa_dim self]"
  shows "WindowAttention_load_state_dict self
           [(''relative_position_bias_table'', FloatTensor table),
            (''relative_position_index'', LongTensor index),
            (''qkv.weight'', FloatTensor qkv_weight),
            (''qkv.bias'', FloatTensor qkv_bias),
            (''proj.weight'', FloatTensor proj_weight),
            (''proj.bias'', FloatTensor proj_bias)]
         = Inr (self\<lparr>relative_position_index := index\<rparr>)"
  using assms
  by (simp add: WindowAttention_load_state_dict_def WindowAttention_state_shapes_def Let_def)

text \<open>
  Claim C7, as stated, fails in its last part: the table does change after construction.
  A \<open>WindowAttention\<close> of window size 2 holds the table of the claim after its
  construction, and the table of zeros after \<open>load_state_dict\<close> of a state dictionary
  whose entry \<open>relative_position_index\<close> is the table of zeros.
\<close>

theorem loaded_index_counterexample:
  "thenE (WindowAttention_init 4 (2, 2) 2) (\<lambda>self. Inr (relative_position_index self))
     = Inr \<lparr>shape = [4, 4], data = [4, 3, 1, 0, 5, 4, 2, 1, 7, 6, 4, 3, 8, 7, 5, 4]\<rparr>
   \<and> thenE (WindowAttention_init 4 (2, 2) 2) (\<lambda>self.
      thenE (WindowAttention_load_state_dict self
               [(''relative_position_bias_table'', FloatTensor (full [9, 2] 0)),
                (''relative_position_index'', LongTensor (full [4, 4] 0)),
                (''qkv.weight'', FloatTensor (full [12, 4] 0)),
                (''qkv.bias'', FloatTensor (full [12] 0)),
                (''proj.weight'', FloatTensor (full [4, 4] 0)),
                (''proj.bias'', FloatTensor (full [4] 0))]) (\<lambda>self.
      Inr (relative_position_index self)))
     = Inr \<lparr>shape = [4, 4], data = [0, 0, 0, 0, 0, 0, 0, 0, 0, 0, 0, 0, 0, 0, 0, 0]\<rparr>"
proof -
  let ?self = "\<lparr>wa_dim = 4, wa_window_size = (2, 2), wa_num_heads = 2,
            relative_position_index =
              \<lparr>shape = [4, 4], data = [4, 3, 1, 0, 5, 4, 2, 1, 7, 6, 4, 3, 8, 7, 5, 4]\<rparr>\<rparr>"
  have init: "WindowAttention_init 4 (2, 2) 2 = Inr ?self"
    by code_simp
  have "WindowAttention_load_state_dict ?self
               [(''relative_position_bias_table'', FloatTensor (full [9, 2] 0)),
                (''relative_position_index'', LongTensor (full [4, 4] 0)),
                (''qkv.weight'', FloatTensor (full [12, 4] 0)),
                (''qkv.bias'', FloatTensor (full [12] 0)),
                (''proj.weight'', FloatTensor (full [4, 4] 0)),
                (''proj.bias'', FloatTensor (full [4] 0))]
      = Inr (?self\<lparr>relative_position_index := full [4, 4] 0\<rparr>)"
    by (rule WindowAttention_load_state_dict_ok) (simp_all add: full_def)
  moreover have "full [4, 4] (0 :: int)
      = \<lparr>shape = [4, 4], data = [0, 0, 0, 0, 0, 0, 0, 0, 0, 0, 0, 0, 0, 0, 0, 0]\<rparr>"
    by (simp add: full_def eval_nat_numeral)
  ultimately show ?thesis using init by simp
qed

text \<open>
  Claim C7, amended.  The relative position index that the construction of a
  \<open>WindowAttention\<close> computes is a function of the window size alone: any other instance
  of the same window size, whatever its channel and head counts, is constructed with the
  same table.  For window size 2 it is the table
  \<open>[[4, 3, 1, 0], [5, 4, 2, 1], [7, 6, 4, 3], [8, 7, 5, 4]]\<close>.  Entry \<open>[i][j]\<close> depends only
  on the row offset and the column offset between the positions \<open>i\<close> and \<open>j\<close> of the
  window, and so does the bias that \<open>forward\<close> gathers from any bias table for an
  instance that holds this table: entry \<open>[h][i][j]\<close> of the bias is row \<open>index[i][j]\<close>,
  column \<open>h\<close>, of the bias table, with no part of the input in it.  \<open>forward\<close> leaves the
  instance as it is.  The table is a persistent buffer, and it does change when a
  checkpoint is loaded: \<open>load_state_dict\<close> with \<open>strict=True\<close> succeeds only on an entry
  of the shape of the table, and replaces the table by that entry, whatever its
  elements, leaving the other attributes as they are.
\<close>

theorem relative_position_index_of_window:
  assumes "WindowAttention_init dim' (a, b) num_heads = Inr self"
  shows "(\<forall>dim2 heads2 other. WindowAttention_init dim2 (a, b) heads2 = Inr other
            \<longrightarrow> relative_position_index other = relative_position_index self)
       \<and> (a = 2 \<and> b = 2 \<longrightarrow> relative_position_index self
             = \<lparr>shape = [4, 4], data = [4, 3, 1, 0, 5, 4, 2, 1, 7, 6, 4, 3, 8, 7, 5, 4]\<rparr>)
       \<and> (\<forall>i j i' j'. i < nat a * nat b \<and> j < nat a * nat b
             \<and> i' < nat a * nat b \<and> j' < nat a * nat b
             \<and> int (i div nat b) - int (j div nat b) = int (i' div nat b) - int (j' div nat b)
             \<and> int (i mod nat b) - int (j mod nat b) = int (i' mod nat b) - int (j' mod nat b)
            \<longrightarrow> tget (relative_position_index self) [i, j]
                = tget (relative_position_index self) [i', j'])
       \<and> (\<forall>table nh. 0 < a \<and> 0 < b \<and> wf table
             \<and> shape table = [nat ((2 * a - 1) * (2 * b - 1)), nh]
            \<longrightarrow> (\<exists>bias. relative_position_bias self table = Inr bias
                   \<and> shape bias = [nh, nat a * nat b, nat a * nat b]
                   \<and> (\<forall>h<nh. \<forall>i<nat a * nat b. \<forall>j<nat a * nat b.
                        tget bias [h, i, j]
                        = tget (table :: 'a tensor) [nat (tget (relative_position_index self) [i, j]), h])))
       \<and> (\<forall>x msk y self'. WindowAttention_forward_state self x msk = Inr (y, self')
            \<longrightarrow> self' = self)
       \<and> (\<forall>state_dict self'. WindowAttention_load_state_dict self state_dict = Inr self'
            \<longrightarrow> (\<exists>e. map_of state_dict ''relative_position_index'' = Some e
                   \<and> entry_shape e = [nat a * nat b, nat a * nat b]
                   \<and> self' = self\<lparr>relative_position_index := to_long e\<rparr>))
       \<and> (\<forall>bias_table index qkv_weight qkv_bias proj_weight proj_bias.
             shape bias_table = [nat ((2 * a - 1) * (2 * b - 1)), nat num_heads]
             \<and> shape index = [nat a * nat b, nat a * nat b]
             \<and> shape qkv_weight = [nat dim' * 3, nat dim'] \<and> shape qkv_bias = [nat dim' * 3]
             \<and> shape proj_weight = [nat dim', nat dim'] \<and> shape proj_bias = [nat dim']
            \<longrightarrow> WindowAttention_load_state_dict self
                  [(''relative_position_bias_table'', FloatTensor bias_table),
                   (''relative_position_index'', LongTensor index),
                   (''qkv.weight'', FloatTensor qkv_weight),
                   (''qkv.bias'', FloatTensor qkv_bias),
                   (''proj.weight'', FloatTensor proj_weight),
                   (''proj.bias'', FloatTensor proj_bias)]
                = Inr (self\<lparr>relative_position_index := index\<rparr>))"
proof (intro conjI allI impI)
  note init = WindowAttention_init_index [OF assms]
  let ?R = "relative_position_index self"
  from relative_position_index_closed [of "nat a" "nat b"] init(1)
  have sR: "shape ?R = [nat a * nat b, nat a * nat b]" by auto
  {
    fix dim2 heads2 other
    assume "WindowAttention_init dim2 (a, b) heads2 = Inr other"
    from WindowAttention_init_index(1) [OF this] init(1)
    show "relative_position_index other = ?R" by simp
  next
    assume "a = 2 \<and> b = 2"
    then have "make_relative_position_index (2, 2) = Inr ?R" using init(1) by simp
    moreover have "make_relative_position_index (2, 2)
        = Inr \<lparr>shape = [4, 4], data = [4, 3, 1, 0, 5, 4, 2, 1, 7, 6, 4, 3, 8, 7, 5, 4]\<rparr>"
      by code_simp
    ultimately show "?R = \<lparr>shape = [4, 4], data = [4, 3, 1, 0, 5, 4, 2, 1, 7, 6, 4, 3, 8, 7, 5, 4]\<rparr>"
      by simp
  next
    fix i j i' j'
    assume h: "i < nat a * nat b \<and> j < nat a * nat b
             \<and> i' < nat a * nat b \<and> j' < nat a * nat b
             \<and> int (i div nat b) - int (j div nat b) = int (i' div nat b) - int (j' div nat b)
             \<and> int (i mod nat b) - int (j mod nat b) = int (i' mod nat b) - int (j' mod nat b)"
    from relative_position_index_closed [of "nat a" "nat b"] init(1)
    have g: "\<forall>i<nat a * nat b. \<forall>j<nat a * nat b. tget ?R [i, j] =
        (int (i div nat b) - int (j div nat b) + (int (nat a) - 1)) * (2 * int (nat b) - 1)
        + (int (i mod nat b) - int (j mod nat b) + (int (nat b) - 1))"
      by auto
    show "tget ?R [i, j] = tget ?R [i', j']" using h g by simp
  next
    fix table :: "'a tensor" and nh
    assume h: "0 < a \<and> 0 < b \<and> wf table \<and> shape table = [nat ((2 * a - 1) * (2 * b - 1)), nh]"
    then have "shape table = [nat ((2 * int (nat a) - 1) * (2 * int (nat b) - 1)), nh]" by simp
    from relative_position_bias_get [OF init(1) init(2) _ _ _ this] h
    show "\<exists>bias. relative_position_bias self table = Inr bias
           \<and> shape bias = [nh, nat a * nat b, nat a * nat b]
           \<and> (\<forall>h<nh. \<forall>i<nat a * nat b. \<forall>j<nat a * nat b.
                tget bias [h, i, j] = tget table [nat (tget ?R [i, j]), h])"
      by simp
  next
    fix x msk y self'
    assume "WindowAttention_forward_state self x msk = Inr (y, self')"
    then show "self' = self"
      by (auto simp: WindowAttention_forward_state_def thenE_def split: sum.splits)
  next
    fix state_dict self'
    assume "WindowAttention_load_state_dict self state_dict = Inr self'"
    from WindowAttention_load_state_dict_Inr [OF this] sR
    show "\<exists>e. map_of state_dict ''relative_position_index'' = Some e
           \<and> entry_shape e = [nat a * nat b, nat a * nat b]
           \<and> self' = self\<lparr>relative_position_index := to_long e\<rparr>"
      by simp
  next
    fix bias_table :: "real tensor" and index :: "int tensor"
      and qkv_weight qkv_bias proj_weight proj_bias :: "real tensor"
    assume h: "shape bias_table = [nat ((2 * a - 1) * (2 * b - 1)), nat num_heads]
             \<and> shape index = [nat a * nat b, nat a * nat b]
             \<and> shape qkv_weight = [nat dim' * 3, nat dim'] \<and> shape qkv_bias = [nat dim' * 3]
             \<and> shape proj_weight = [nat dim', nat dim'] \<and> shape proj_bias = [nat dim']"
    show "WindowAttention_load_state_dict self
                  [(''relative_position_bias_table'', FloatTensor bias_table),
                   (''relative_position_index'', LongTensor index),
                   (''qkv.weight'', FloatTensor qkv_weight),
                   (''qkv.bias'', FloatTensor qkv_bias),
                   (''proj.weight'', FloatTensor proj_weight),
                   (''proj.bias'', FloatTensor proj_bias)]
                = Inr (self\<lparr>relative_position_index := index\<rparr>)"
      by (rule WindowAttention_load_state_dict_ok) (use h init sR in simp_all)
  }
qed

theorem relative_position_index_of_window_witness:
  "WindowAttention_init 4 (2, 2) 2
     = Inr \<lparr>wa_dim = 4, wa_window_size = (2, 2), wa_num_heads = 2,
            relative_position_index =
              \<lparr>shape = [4, 4], data = [4, 3, 1, 0, 5, 4, 2, 1, 7, 6, 4, 3, 8, 7, 5, 4]\<rparr>\<rparr>
   \<and> tget \<lparr>shape = [4, 4], data = [4, 3, 1, 0, 5, 4, 2, 1, 7, 6, 4, 3, 8, 7, 5, 4 :: int]\<rparr> [0, 1]
     = tget \<lparr>shape = [4, 4], data = [4, 3, 1, 0, 5, 4, 2, 1, 7, 6, 4, 3, 8, 7, 5, 4 :: int]\<rparr> [2, 3]
   \<and> WindowAttention_load_state_dict
        \<lparr>wa_dim = 4, wa_window_size = (2, 2), wa_num_heads = 2,
            relative_position_index =
              \<lparr>shape = [4, 4], data = [4, 3, 1, 0, 5, 4, 2, 1, 7, 6, 4, 3, 8, 7, 5, 4]\<rparr>\<rparr>
        [(''relative_position_bias_table'', FloatTensor (full [9, 2] 0)),
         (''relative_position_index'', LongTensor (full [4, 4] 1)),
         (''qkv.weight'', FloatTensor (full [12, 4] 0)),
         (''qkv.bias'', FloatTensor (full [12] 0)),
         (''proj.weight'', FloatTensor (full [4, 4] 0)),
         (''proj.bias'', FloatTensor (full [4] 0))]
     = Inr \<lparr>wa_dim = 4, wa_window_size = (2, 2), wa_num_heads = 2,
            relative_position_index = full [4, 4] 1\<rparr>
   \<and> WindowAttention_forward_state
        \<lparr>wa_dim = 4, wa_window_size = (2, 2), wa_num_heads = 2,
            relative_position_index =
              \<lparr>shape = [4, 4], data = [4, 3, 1, 0, 5, 4, 2, 1, 7, 6, 4, 3, 8, 7, 5, 4]\<rparr>\<rparr>
        [3, 4, 4] None
     = Inr ([3, 4, 4],
        \<lparr>wa_dim = 4, wa_window_size = (2, 2), wa_num_heads = 2,
            relative_position_index =
              \<lparr>shape = [4, 4], data = [4, 3, 1, 0, 5, 4, 2, 1, 7, 6, 4, 3, 8, 7, 5, 4]\<rparr>\<rparr>)"
proof -
  let ?self = "\<lparr>wa_dim = 4, wa_window_size = (2, 2), wa_num_heads = 2,
            relative_position_index =
              \<lparr>shape = [4, 4], data = [4, 3, 1, 0, 5, 4, 2, 1, 7, 6, 4, 3, 8, 7, 5, 4]\<rparr>\<rparr>"
  have init: "WindowAttention_init 4 (2, 2) 2 = Inr ?self"
    by code_simp
  note t = relative_position_index_of_window [OF init]
  from t have g: "tget \<lparr>shape = [4, 4], data = [4, 3, 1, 0, 5, 4, 2, 1, 7, 6, 4, 3, 8, 7, 5, 4 :: int]\<rparr> [0, 1]
     = tget \<lparr>shape = [4, 4], data = [4, 3, 1, 0, 5, 4, 2, 1, 7, 6, 4, 3, 8, 7, 5, 4 :: int]\<rparr> [2, 3]"
    by (simp add: tget_def)
  from t have "shape (full [9, 2] (0 :: real)) = [nat ((2 * 2 - 1) * (2 * 2 - 1)), nat 2]
             \<and> shape (full [4, 4] (1 :: int)) = [nat 2 * nat 2, nat 2 * nat 2]
             \<and> shape (full [12, 4] (0 :: real)) = [nat 4 * 3, nat 4]
             \<and> shape (full [12] (0 :: real)) = [nat 4 * 3]
             \<and> shape (full [4, 4] (0 :: real)) = [nat 4, nat 4]
             \<and> shape (full [4] (0 :: real)) = [nat 4]
            \<longrightarrow> WindowAttention_load_state_dict ?self
                  [(''relative_position_bias_table'', FloatTensor (full [9, 2] 0)),
                   (''relative_position_index'', LongTensor (full [4, 4] 1)),
                   (''qkv.weight'', FloatTensor (full [12, 4] 0)),
                   (''qkv.bias'', FloatTensor (full [12] 0)),
                   (''proj.weight'', FloatTensor (full [4, 4] 0)),
                   (''proj.bias'', FloatTensor (full [4] 0))]
                = Inr (?self\<lparr>relative_position_index := full [4, 4] 1\<rparr>)"
    by blast
  then have l: "WindowAttention_load_state_dict ?self
                  [(''relative_position_bias_table'', FloatTensor (full [9, 2] 0)),
                   (''relative_position_index'', LongTensor (full [4, 4] 1)),
                   (''qkv.weight'', FloatTensor (full [12, 4] 0)),
                   (''qkv.bias'', FloatTensor (full [12] 0)),
                   (''proj.weight'', FloatTensor (full [4, 4] 0)),
                   (''proj.bias'', FloatTensor (full [4] 0))]
                = Inr (?self\<lparr>relative_position_index := full [4, 4] 1\<rparr>)"
    by (simp add: full_def)
  have f: "WindowAttention_forward_state ?self [3, 4, 4] None = Inr ([3, 4, 4], ?self)"
    by code_simp
  show ?thesis using init g l f by (simp add: full_def)
qed

section \<open>The attention mask of the 14 by 14 grid\<close>

lemma tget_full: "list_all2 (<) idx s \<Longrightarrow> tget (full s v) idx = v"
  by (simp add: tget_def full_def offset_lt)

lemma shape_full [simp]: "shape (full s v) = s"
  by (simp add: full_def)

lemma img_mask_14:
  "\<exists>img. label_regions
      (List.product
         [(Some 0, Some (- int 7)), (Some (- int 7), Some (- int 3)), (Some (- int 3), None)]
         [(Some 0, Some (- int 7)), (Some (- int 7), Some (- int 3)), (Some (- int 3), None)])
      (full [1, 14, 14, 1] 0) 0 = Inr img
    \<and> shape img = [1, 14, 14, 1] \<and> wf img
    \<and> (\<forall>r<14. \<forall>c<14. tget img [0, r, c, 0]
          = 3 * int (axis_region 14 7 3 r) + int (axis_region 14 7 3 c))"
proof -
  have "\<exists>img. assign_hw m h w v = Inr img \<and> shape img = [1, 14, 14, 1] \<and> wf img \<and>
     (\<forall>r<14. \<forall>c<14. tget img [0, r, c, 0] =
        (if fst (slice_indices h 14) \<le> r \<and> r < snd (slice_indices h 14)
           \<and> fst (slice_indices w 14) \<le> c \<and> c < snd (slice_indices w 14)
         then v else tget m [0, r, c, 0]))"
    if "shape m = [1, 14, 14, 1]" for m :: "int tensor" and h w v
    using that by (simp add: assign_hw_def Let_def tget_tabulate)
  note step = this
  let ?m0 = "full [1, 14, 14, 1] (0::int)"
  have s0: "shape ?m0 = [1, 14, 14, 1]" by simp
  have g0: "\<forall>r<14. \<forall>c<14. tget ?m0 [0, r, c, 0] = 0" by (simp add: tget_full)
  let ?a = "(Some 0, Some (- int 7)) :: slice"
  let ?b = "(Some (- int 7), Some (- int 3)) :: slice"
  let ?c = "(Some (- int 3), None) :: slice"
  have ia: "slice_indices ?a 14 = (0, 7)" and ib: "slice_indices ?b 14 = (7, 11)"
    and ic: "slice_indices ?c 14 = (11, 14)"
    by (simp_all add: slice_indices_def)
  from step [OF s0, of ?a ?a 0] obtain m1 where
    m1: "assign_hw ?m0 ?a ?a 0 = Inr m1" "shape m1 = [1, 14, 14, 1]"
    and g1: "\<forall>r<14. \<forall>c<14. tget m1 [0, r, c, 0] = (if r < 7 \<and> c < 7 then 0 else 0)"
    unfolding ia using g0 by auto
  from step [OF m1(2), of ?a ?b 1] obtain m2 where
    m2: "assign_hw m1 ?a ?b 1 = Inr m2" "shape m2 = [1, 14, 14, 1]"
    and g2: "\<forall>r<14. \<forall>c<14. tget m2 [0, r, c, 0] = (if r < 7 \<and> 7 \<le> c \<and> c < 11 then 1 else tget m1 [0, r, c, 0])"
    unfolding ia ib by auto
  from step [OF m2(2), of ?a ?c 2] obtain m3 where
    m3: "assign_hw m2 ?a ?c 2 = Inr m3" "shape m3 = [1, 14, 14, 1]"
    and g3: "\<forall>r<14. \<forall>c<14. tget m3 [0, r, c, 0] = (if r < 7 \<and> 11 \<le> c then 2 else tget m2 [0, r, c, 0])"
    unfolding ia ic by auto
  from step [OF m3(2), of ?b ?a 3] obtain m4 where
    m4: "assign_hw m3 ?b ?a 3 = Inr m4" "shape m4 = [1, 14, 14, 1]"
    and g4: "\<forall>r<14. \<forall>c<14. tget m4 [0, r, c, 0] = (if 7 \<le> r \<and> r < 11 \<and> c < 7 then 3 else tget m3 [0, r, c, 0])"
    unfolding ia ib by auto
  from step [OF m4(2), of ?b ?b 4] obtain m5 where
    m5: "assign_hw m4 ?b ?b 4 = Inr m5" "shape m5 = [1, 14, 14, 1]"
    and g5: "\<forall>r<14. \<forall>c<14. tget m5 [0, r, c, 0] = (if 7 \<le> r \<and> r < 11 \<and> 7 \<le> c \<and> c < 11 then 4 else tget m4 [0, r, c, 0])"
    unfolding ib by auto
  from step [OF m5(2), of ?b ?c 5] obtain m6 where
    m6: "assign_hw m5 ?b ?c 5 = Inr m6" "shape m6 = [1, 14, 14, 1]"
    and g6: "\<forall>r<14. \<forall>c<14. tget m6 [0, r, c, 0] = (if 7 \<le> r \<and> r < 11 \<and> 11 \<le> c then 5 else tget m5 [0, r, c, 0])"
    unfolding ib ic by auto
  from step [OF m6(2), of ?c ?a 6] obtain m7 where
    m7: "assign_hw m6 ?c ?a 6 = Inr m7" "shape m7 = [1, 14, 14, 1]"
    and g7: "\<forall>r<14. \<forall>c<14. tget m7 [0, r, c, 0] = (if 11 \<le> r \<and> c < 7 then 6 else tget m6 [0, r, c, 0])"
    unfolding ia ic by auto
  from step [OF m7(2), of ?c ?b 7] obtain m8 where
    m8: "assign_hw m7 ?c ?b 7 = Inr m8" "shape m8 = [1, 14, 14, 1]"
    and g8: "\<forall>r<14. \<forall>c<14. tget m8 [0, r, c, 0] = (if 11 \<le> r \<and> 7 \<le> c \<and> c < 11 then 7 else tget m7 [0, r, c, 0])"
    unfolding ib ic by auto
  from step [OF m8(2), of ?c ?c 8] obtain m9 where
    m9: "assign_hw m8 ?c ?c 8 = Inr m9" "shape m9 = [1, 14, 14, 1]" "wf m9"
    and g9: "\<forall>r<14. \<forall>c<14. tget m9 [0, r, c, 0] = (if 11 \<le> r \<and> 11 \<le> c then 8 else tget m8 [0, r, c, 0])"
    unfolding ic by auto
  have run: "label_regions (List.product [?a, ?b, ?c] [?a, ?b, ?c]) ?m0 0 = Inr m9"
    using m1(1) m2(1) m3(1) m4(1) m5(1) m6(1) m7(1) m8(1) m9(1) by simp
  have "tget m9 [0, r, c, 0] = 3 * int (axis_region 14 7 3 r) + int (axis_region 14 7 3 c)" if "r < 14" "c < 14" for r c
    using that g1 g2 g3 g4 g5 g6 g7 g8 g9 by (simp add: axis_region_def)
  then show ?thesis using run m9(2,3) by blast
qed

lemma window_partition_get:
  assumes sx: "shape x = [B, h * ws, w * ws, C]" and pos: "0 < ws" "0 < C"
  shows "\<exists>y. window_partition x ws = Inr y \<and> shape y = [B * h * w, ws, ws, C] \<and>
     (wf x \<longrightarrow> wf y) \<and>
     (\<forall>b<B. \<forall>hh<h. \<forall>ww<w. \<forall>r<ws. \<forall>c<ws. \<forall>ch<C.
        tget y [(b * h + hh) * w + ww, r, c, ch] = tget x [b, hh * ws + r, ww * ws + c, ch])"
proof -
  let ?x1 = "x\<lparr>shape := [B, h, ws, w, ws, C]\<rparr>"
  let ?P = "[0, 1, 3, 2, 4, 5] :: nat list"
  from window_partition_Inr [OF sx pos] obtain u where
    u: "permute ?x1 ?P = Inr u" and su: "shape u = [B, h, w, ws, ws, C]"
    and wp: "window_partition x ws = Inr (u\<lparr>shape := [B * h * w, ws, ws, C]\<rparr>)"
    by blast
  let ?y = "u\<lparr>shape := [B * h * w, ws, ws, C]\<rparr>"
  have pp: "is_perm ?P (length (shape ?x1))" by (simp add: is_perm_def)
  have g: "tget ?y [(b * h + hh) * w + ww, r, c, ch] = tget x [b, hh * ws + r, ww * ws + c, ch]"
    if "b < B" "hh < h" "ww < w" "r < ws" "c < ws" "ch < C" for b hh ww r c ch
  proof -
    have "tget ?y [(b * h + hh) * w + ww, r, c, ch] = tget u [b, hh, ww, r, c, ch]"
      by (simp add: tget_def su algebra_simps)
    also have "\<dots> = tget ?x1 [b, hh, r, ww, c, ch]"
    proof -
      have "list_all2 (<) [b, hh, r, ww, c, ch] (shape ?x1)" using that by simp
      from tget_permute [OF pp u this] show ?thesis by simp
    qed
    also have "\<dots> = tget x [b, hh * ws + r, ww * ws + c, ch]"
      by (simp add: tget_def sx algebra_simps)
    finally show ?thesis .
  qed
  have "wf ?y" if "wf x"
    using wf_permute [OF u] su by (simp add: wf_def ac_simps)
  then show ?thesis using wp g by auto
qed

lemma broadcast_shapes_row_col: "broadcast_shapes [n, 1, m] [n, m, 1] = Inr [n, m, m]"
  by (simp add: broadcast_shapes_def)

lemma pairwise_difference:
  assumes "shape mw = [n, m]"
  shows "\<exists>lhs rhs d. unsqueeze mw 1 = Inr lhs \<and> unsqueeze mw 2 = Inr rhs
     \<and> broadcast2 f lhs rhs = Inr d \<and> shape d = [n, m, m] \<and> wf d
     \<and> (\<forall>w<n. \<forall>i<m. \<forall>j<m. tget d [w, i, j] = f (tget mw [w, j]) (tget mw [w, i]))"
proof -
  let ?lhs = "mw\<lparr>shape := [n, 1, m]\<rparr>" and ?rhs = "mw\<lparr>shape := [n, m, 1]\<rparr>"
  let ?d = "tabulate [n, m, m]
      (\<lambda>idx. f (tget ?lhs (bindex [n, 1, m] idx)) (tget ?rhs (bindex [n, m, 1] idx)))"
  have u1: "unsqueeze mw 1 = Inr ?lhs" and u2: "unsqueeze mw 2 = Inr ?rhs"
    using assms by (simp_all add: unsqueeze_def)
  have b: "broadcast2 f ?lhs ?rhs = Inr ?d"
    using broadcast_shapes_row_col [of n m] by (simp add: broadcast2_def)
  have g: "tget ?d [w, i, j] = f (tget mw [w, j]) (tget mw [w, i])"
    if "w < n" "i < m" "j < m" for w i j
  proof -
    have v: "list_all2 (<) [w, i, j] [n, m, m]" using that by simp
    have l: "tget ?lhs (bindex [n, 1, m] [w, i, j]) = tget mw [w, j]"
      using that by (auto simp: bindex_def tget_def assms)
    have r: "tget ?rhs (bindex [n, m, 1] [w, i, j]) = tget mw [w, i]"
      using that by (auto simp: bindex_def tget_def assms)
    show ?thesis unfolding tget_tabulate [OF v] l r ..
  qed
  show ?thesis using u1 u2 b g by (intro exI [of _ ?lhs] exI [of _ ?rhs] exI [of _ ?d]) simp
qed

lemma map2_map_same: "map2 f xs (map g xs) = map (\<lambda>x. f x (g x)) xs"
  by (induction xs) auto

lemma masked_fill_twice:
  "masked_fill (masked_fill t (tmap (\<lambda>x. x \<noteq> 0) t) a) (tmap (\<lambda>x. x = 0) t) b
   = tmap (\<lambda>x. if x = 0 then b else a) t"
proof -
  have "map2 (\<lambda>x m. if m then b else x)
          (map2 (\<lambda>x m. if m then a else x) xs (map (\<lambda>x. x \<noteq> 0) xs)) (map (\<lambda>x. x = 0) xs)
      = map (\<lambda>x. if x = 0 then b else a) xs" for xs :: "'a list"
    by (induction xs) auto
  then show ?thesis by (simp add: masked_fill_def tmap_def)
qed

lemma tget_tmap:
  "wf t \<Longrightarrow> list_all2 (<) idx (shape t) \<Longrightarrow> tget (tmap f t) idx = f (tget t idx)"
  using offset_lt [of idx "shape t"] by (simp add: tget_def tmap_def wf_def)

lemma label_eq_region:
  "3 * int (axis_region 14 7 3 r) + int (axis_region 14 7 3 c)
     = 3 * int (axis_region 14 7 3 r') + int (axis_region 14 7 3 c')
   \<longleftrightarrow> region 14 14 7 3 (r, c) = region 14 14 7 3 (r', c')"
  by (simp add: region_def axis_region_def)

lemma attn_mask_14_closed:
  "\<exists>m. BasicLayer_attn_mask 7 3 14 14 = Inr m \<and> shape m = [4, 49, 49] \<and> wf m \<and>
     (\<forall>w<4. \<forall>i<49. \<forall>j<49. tget m [w, i, j] =
        (if region 14 14 7 3 (window_token_position 14 7 w i)
            = region 14 14 7 3 (window_token_position 14 7 w j) then 0 else - 100))"
proof -
  from img_mask_14 obtain img where
    img: "label_regions
      (List.product
         [(Some 0, Some (- int 7)), (Some (- int 7), Some (- int 3)), (Some (- int 3), None)]
         [(Some 0, Some (- int 7)), (Some (- int 7), Some (- int 3)), (Some (- int 3), None)])
      (full [1, 14, 14, 1] 0) 0 = Inr img"
    and si: "shape img = [1, 14, 14, 1]" and wi: "wf img"
    and gi: "\<forall>r<14. \<forall>c<14. tget img [0, r, c, 0]
          = 3 * int (axis_region 14 7 3 r) + int (axis_region 14 7 3 c)"
    by blast
  have si': "shape img = [1, 2 * 7, 2 * 7, 1]" using si by simp
  from window_partition_get [OF si'] wi obtain y where
    y: "window_partition img 7 = Inr y" and sy: "shape y = [4, 7, 7, 1]" and wy: "wf y"
    and gy: "\<forall>b<1. \<forall>hh<2. \<forall>ww<2. \<forall>r<7. \<forall>c<7. \<forall>ch<1.
        tget y [(b * 2 + hh) * 2 + ww, r, c, ch] = tget img [b, hh * 7 + r, ww * 7 + c, ch]"
    by auto
  let ?mw = "y\<lparr>shape := [4, 49]\<rparr>"
  have vw: "view y [Infer, D (7 * 7)] = Inr ?mw"
    by (simp add: view_def infer_size_def sy)
  have gmw: "tget ?mw [w, i] = 3 * int (axis_region 14 7 3 (fst (window_token_position 14 7 w i)))
        + int (axis_region 14 7 3 (snd (window_token_position 14 7 w i)))"
    if w: "w < 4" and i: "i < 49" for w i
  proof -
    have wd: "w div 2 < 2" and wm: "w mod 2 < 2" using w by simp_all
    have id: "i div 7 < 7" and im: "i mod 7 < 7" using i by simp_all
    have "w div 2 * 2 + w mod 2 = w" by (rule div_mult_mod_eq)
    then have w': "(0 * 2 + w div 2) * 2 + w mod 2 = w" by simp
    have i': "i div 7 * 7 + i mod 7 = i" by (rule div_mult_mod_eq)
    have "tget ?mw [w, i] = data y ! (w * 49 + (i div 7 * 7 + i mod 7))"
      unfolding i' by (simp add: tget_def)
    also have "\<dots> = tget y [w, i div 7, i mod 7, 0]"
      by (simp add: tget_def sy algebra_simps)
    also have "\<dots> = tget y [(0 * 2 + w div 2) * 2 + w mod 2, i div 7, i mod 7, 0]"
      unfolding w' ..
    also have "\<dots> = tget img [0, w div 2 * 7 + i div 7, w mod 2 * 7 + i mod 7, 0]"
      by (rule gy [rule_format, OF zero_less_one wd wm id im zero_less_one])
    also have "\<dots> = 3 * int (axis_region 14 7 3 (w div 2 * 7 + i div 7))
        + int (axis_region 14 7 3 (w mod 2 * 7 + i mod 7))"
    proof -
      have "w div 2 * 7 + i div 7 < 14" "w mod 2 * 7 + i mod 7 < 14"
        using wd wm id im by linarith+
      then show ?thesis using gi by simp
    qed
    finally show ?thesis by (simp add: window_token_position_def)
  qed
  have smw: "shape ?mw = [4, 49]" by simp
  from pairwise_difference [OF smw, of "\<lambda>x y. x - y"] obtain lhs rhs d where
    u1: "unsqueeze ?mw 1 = Inr lhs" and u2: "unsqueeze ?mw 2 = Inr rhs"
    and bd: "broadcast2 (\<lambda>x y. x - y) lhs rhs = Inr d" and sd: "shape d = [4, 49, 49]"
    and wd: "wf d"
    and gd: "\<forall>w<4. \<forall>i<49. \<forall>j<49. tget d [w, i, j] = tget ?mw [w, j] - tget ?mw [w, i]"
    by blast
  let ?m = "tmap (\<lambda>x. if x = 0 then 0 else - 100) d"
  have run: "BasicLayer_attn_mask 7 3 14 14 = Inr ?m"
    using img y vw u1 u2 bd
    by (simp add: BasicLayer_attn_mask_def Let_def masked_fill_twice)
  have sm: "shape ?m = [4, 49, 49]" and wm: "wf ?m"
    using sd wd by (simp_all add: tmap_def wf_def)
  have "tget ?m [w, i, j] =
        (if region 14 14 7 3 (window_token_position 14 7 w i)
            = region 14 14 7 3 (window_token_position 14 7 w j) then 0 else - 100)"
    if w: "w < 4" and i: "i < 49" and j: "j < 49" for w i j
  proof -
    have v: "list_all2 (<) [w, i, j] (shape d)" using that sd by simp
    have "tget ?m [w, i, j] = (if tget d [w, i, j] = 0 then 0 else - 100)"
      using tget_tmap [OF wd v] .
    also have "tget d [w, i, j] = tget ?mw [w, j] - tget ?mw [w, i]" using gd that by simp
    finally show ?thesis
      unfolding gmw [OF w i] gmw [OF w j]
      using label_eq_region [of "fst (window_token_position 14 7 w i)"
          "snd (window_token_position 14 7 w i)" "fst (window_token_position 14 7 w j)"
          "snd (window_token_position 14 7 w j)"]
      by auto
  qed
  then show ?thesis using run sm wm by blast
qed

lemma unravel_3_cases:
  assumes "k < a * b * c"
  obtains w i j where "unravel [a, b, c] k = [w, i, j]" "w < a" "i < b" "j < c"
proof -
  have "k < prod_list [a, b, c]" using assms by (simp add: mult.assoc)
  from unravel_valid [OF this] show ?thesis
    using that by (auto simp: list_all2_Cons2)
qed

text \<open>
  Claim C3.  For a 14 by 14 grid with window size 7 and shift size 3, the attention mask
  that \<open>BasicLayer.forward\<close> builds has shape \<open>(4, 49, 49)\<close>, its values are exactly 0 and
  \<open>-100\<close>, and entry \<open>[w][i][j]\<close> is 0 when the tokens \<open>i\<close> and \<open>j\<close> of window \<open>w\<close> lie in
  the same of the nine regions that the shift boundaries cut, and \<open>-100\<close> when they lie
  in different ones.
\<close>

theorem attn_mask_14:
  "\<exists>m. BasicLayer_attn_mask 7 3 14 14 = Inr m \<and> shape m = [4, 49, 49]
     \<and> set (data m) = {0, - 100}
     \<and> (\<forall>w<4. \<forall>i<49. \<forall>j<49. tget m [w, i, j] =
          (if region 14 14 7 3 (window_token_position 14 7 w i)
              = region 14 14 7 3 (window_token_position 14 7 w j) then 0 else - 100))"
proof -
  from attn_mask_14_closed obtain m where
    run: "BasicLayer_attn_mask 7 3 14 14 = Inr m" and sm: "shape m = [4, 49, 49]"
    and wm: "wf m"
    and g: "\<forall>w<4. \<forall>i<49. \<forall>j<49. tget m [w, i, j] =
          (if region 14 14 7 3 (window_token_position 14 7 w i)
              = region 14 14 7 3 (window_token_position 14 7 w j) then 0 else - 100)"
    by blast
  have len: "length (data m) = 4 * 49 * 49" using wm sm by (simp add: wf_def)
  have sub: "v \<in> {0, - 100}" if "v \<in> set (data m)" for v
  proof -
    from that obtain k where k: "k < 4 * 49 * 49" and v: "v = data m ! k"
      using len by (metis in_set_conv_nth)
    from unravel_3_cases [OF k] obtain w i j where
      u: "unravel [4, 49, 49] k = [w, i, j]" and b: "w < 4" "i < 49" "j < 49" by blast
    have "k < prod_list (shape m)" using k sm by simp
    from data_nth_tget [OF this] have "v = tget m [w, i, j]" using v sm u by simp
    then show ?thesis using g b by auto
  qed
  have mem: "tget m [w, i, j] \<in> set (data m)" if "w < 4" "i < 49" "j < 49" for w i j
  proof -
    have "list_all2 (<) [w, i, j] (shape m)" using that sm by simp
    from offset_lt [OF this] have "offset [w, i, j] (strides (shape m)) < length (data m)"
      using wm by (simp add: wf_def)
    then show ?thesis unfolding tget_def by (rule nth_mem)
  qed
  have z: "tget m [0, 0, 0] = 0" using g by simp
  have h: "tget m [1, 0, 6] = - 100"
    using g by (simp add: region_def axis_region_def window_token_position_def)
  have "0 \<in> set (data m)" using mem [of 0 0 0] z by simp
  moreover have "- 100 \<in> set (data m)" using mem [of 1 0 6] h by simp
  ultimately have "set (data m) = {0, - 100}" using sub by blast
  then show ?thesis using run sm g by blast
qed

theorem attn_mask_14_witness:
  "map_sum id (\<lambda>m. (shape m, tget m [1, 0, 6], tget m [1, 0, 3], tget m [3, 24, 48]))
     (BasicLayer_attn_mask 7 3 14 14) = Inr ([4, 49, 49], - 100, 0, - 100)"
proof -
  from attn_mask_14 obtain m where
    run: "BasicLayer_attn_mask 7 3 14 14 = Inr m" and sm: "shape m = [4, 49, 49]"
    and g: "\<forall>w<4. \<forall>i<49. \<forall>j<49. tget m [w, i, j] =
          (if region 14 14 7 3 (window_token_position 14 7 w i)
              = region 14 14 7 3 (window_token_position 14 7 w j) then 0 else - 100)"
    by blast
  have "tget m [1, 0, 6] = - 100" "tget m [1, 0, 3] = 0" "tget m [3, 24, 48] = - 100"
    using g by (simp_all add: region_def axis_region_def window_token_position_def)
  then show ?thesis using run sm by simp
qed

section \<open>Rounding to a floating-point format\<close>

lemma powr_powi: "2 powr (real_of_int k) = (2::real) powi k"
  by (simp add: powr_real_of_int power_int_def power_one_over inverse_eq_divide)

lemma powi_mono: "a \<le> b \<Longrightarrow> (2::real) powi a \<le> 2 powi b"
  by (rule power_int_increasing) simp_all

lemma powi_nat: "0 \<le> k \<Longrightarrow> (2::real) powi k = of_int (2 ^ nat k)"
  by (simp add: power_int_def)

lemma log2_bounds:
  assumes "0 < x"
  shows "2 powi \<lfloor>log 2 x\<rfloor> \<le> x" and "x < 2 powi (\<lfloor>log 2 x\<rfloor> + 1)"
proof -
  have "2 powr (real_of_int \<lfloor>log 2 x\<rfloor>) \<le> x \<and> x < 2 powr (real_of_int (\<lfloor>log 2 x\<rfloor> + 1))"
    using floor_log_eq_powr_iff [of x 2 "\<lfloor>log 2 x\<rfloor>"] assms by simp
  then show "2 powi \<lfloor>log 2 x\<rfloor> \<le> x" and "x < 2 powi (\<lfloor>log 2 x\<rfloor> + 1)"
    unfolding powr_powi by simp_all
qed

lemma log2_eq:
  assumes "2 powi k \<le> x" "x < 2 powi (k + 1)"
  shows "\<lfloor>log 2 x\<rfloor> = k"
proof -
  have "0 < x" using assms(1) zero_less_power_int [of "2::real" k] by linarith
  moreover have "2 powr (real_of_int k) \<le> x \<and> x < 2 powr (real_of_int (k + 1))"
    unfolding powr_powi using assms by simp
  ultimately show ?thesis using floor_log_eq_powr_iff [of x 2 k] by simp
qed

lemma log2_lt:
  assumes "0 < x" "x < 2 powi k"
  shows "\<lfloor>log 2 x\<rfloor> < k"
proof (rule ccontr)
  assume "\<not> \<lfloor>log 2 x\<rfloor> < k"
  then have "2 powi k \<le> (2::real) powi \<lfloor>log 2 x\<rfloor>" by (intro powi_mono) simp
  then show False using log2_bounds(1) [OF assms(1)] assms(2) by linarith
qed

lemma log2_mono:
  assumes "0 < x" "x \<le> y"
  shows "\<lfloor>log 2 x\<rfloor> \<le> \<lfloor>log 2 y\<rfloor>"
  using assms by (intro floor_mono) simp

text \<open>Rounding to the nearest integer is monotone and fixes the integers.\<close>

lemma round_half_even_of_int [simp]: "round_half_even (of_int n) = n"
  by (simp add: round_half_even_def)

lemma round_half_even_cases:
  "round_half_even r = \<lfloor>r\<rfloor> \<or> round_half_even r = \<lfloor>r\<rfloor> + 1"
  by (simp add: round_half_even_def Let_def)

lemma round_half_even_mono:
  assumes "a \<le> b"
  shows "round_half_even a \<le> round_half_even b"
proof (cases "\<lfloor>a\<rfloor> = \<lfloor>b\<rfloor>")
  case True
  have "a - of_int \<lfloor>a\<rfloor> \<le> b - of_int \<lfloor>b\<rfloor>" using assms True by simp
  then show ?thesis using True by (auto simp: round_half_even_def Let_def)
next
  case False
  then have "\<lfloor>a\<rfloor> < \<lfloor>b\<rfloor>" using floor_mono [OF assms] by simp
  moreover have "round_half_even a \<le> \<lfloor>a\<rfloor> + 1" using round_half_even_cases [of a] by auto
  moreover have "\<lfloor>b\<rfloor> \<le> round_half_even b" using round_half_even_cases [of b] by auto
  ultimately show ?thesis by simp
qed

lemma round_half_even_ge: "of_int m \<le> r \<Longrightarrow> m \<le> round_half_even r"
  using round_half_even_mono [of "of_int m" r] by simp

lemma round_half_even_le: "r \<le> of_int m \<Longrightarrow> round_half_even r \<le> m"
  using round_half_even_mono [of r "of_int m"] by simp

lemma ulp_pos [simp]: "0 < ulp f x"
  by (simp add: ulp_def)

lemma ulp_normal:
  assumes "2 powi k \<le> \<bar>x\<bar>" "\<bar>x\<bar> < 2 powi (k + 1)" "1 - emax f \<le> k"
  shows "ulp f x = 2 powi (k - (int (prec f) - 1))"
  using log2_eq [OF assms(1,2)] assms(3) by (simp add: ulp_def max_def)

lemma ulp_subnormal:
  assumes "x \<noteq> 0" "\<bar>x\<bar> < 2 powi (1 - emax f)"
  shows "ulp f x = 2 powi (1 - emax f - (int (prec f) - 1))"
proof -
  have "\<lfloor>log 2 \<bar>x\<bar>\<rfloor> < 1 - emax f" using assms by (intro log2_lt) simp_all
  then show ?thesis by (simp add: ulp_def max_def)
qed

lemma round_to_ulp_ge:
  assumes "of_int m * ulp f x \<le> x"
  shows "of_int m * ulp f x \<le> round_to_ulp f x"
proof -
  have "of_int m \<le> x / ulp f x" using assms by (simp add: pos_le_divide_eq)
  then have "m \<le> round_half_even (x / ulp f x)" by (rule round_half_even_ge)
  then have "(of_int m :: real) \<le> of_int (round_half_even (x / ulp f x))" by simp
  then show ?thesis unfolding round_to_ulp_def by (simp add: mult_right_mono)
qed

lemma round_to_ulp_le:
  assumes "x \<le> of_int m * ulp f x"
  shows "round_to_ulp f x \<le> of_int m * ulp f x"
proof -
  have "x / ulp f x \<le> of_int m" using assms by (simp add: pos_divide_le_eq)
  then have "round_half_even (x / ulp f x) \<le> m" by (rule round_half_even_le)
  then have "(of_int (round_half_even (x / ulp f x)) :: real) \<le> of_int m" by simp
  then show ?thesis unfolding round_to_ulp_def by (simp add: mult_right_mono)
qed

lemma powi_split:
  assumes "0 < p"
  shows "(2::real) powi k = of_int (2 ^ (p - 1)) * 2 powi (k - (int p - 1))"
    and "(2::real) powi (k + 1) = of_int (2 ^ p) * 2 powi (k - (int p - 1))"
proof -
  have "(2::real) powi (int (p - 1) + (k - (int p - 1)))
      = 2 powi (int (p - 1)) * 2 powi (k - (int p - 1))"
    by (rule power_int_add) simp
  moreover have "int (p - 1) + (k - (int p - 1)) = k" using assms by (simp add: of_nat_diff)
  ultimately have "(2::real) powi k = 2 powi (int (p - 1)) * 2 powi (k - (int p - 1))"
    by simp
  then show "(2::real) powi k = of_int (2 ^ (p - 1)) * 2 powi (k - (int p - 1))" by simp
  have "(2::real) powi (int p + (k - (int p - 1))) = 2 powi (int p) * 2 powi (k - (int p - 1))"
    by (rule power_int_add) simp
  moreover have "int p + (k - (int p - 1)) = k + 1" by simp
  ultimately have "(2::real) powi (k + 1) = 2 powi (int p) * 2 powi (k - (int p - 1))"
    by simp
  then show "(2::real) powi (k + 1) = of_int (2 ^ p) * 2 powi (k - (int p - 1))" by simp
qed

lemma round_to_ulp_normal:
  assumes p: "0 < prec f" and x: "2 powi k \<le> x" "x < 2 powi (k + 1)" and k: "1 - emax f \<le> k"
  shows "2 powi k \<le> round_to_ulp f x" and "round_to_ulp f x \<le> 2 powi (k + 1)"
proof -
  have x0: "0 < x" using x(1) zero_less_power_int [of "2::real" k] by linarith
  then have ax: "\<bar>x\<bar> = x" by simp
  have u: "ulp f x = 2 powi (k - (int (prec f) - 1))"
    by (rule ulp_normal) (use x k ax in simp_all)
  note s = powi_split [OF p, of k, folded u]
  show "2 powi k \<le> round_to_ulp f x"
    unfolding s(1) by (rule round_to_ulp_ge) (use x(1) s(1) in simp)
  show "round_to_ulp f x \<le> 2 powi (k + 1)"
    unfolding s(2) by (rule round_to_ulp_le) (use x(2) s(2) in simp)
qed

lemma round_to_ulp_subnormal:
  assumes p: "0 < prec f" and x: "0 < x" "x < 2 powi (1 - emax f)"
  shows "0 \<le> round_to_ulp f x" and "round_to_ulp f x \<le> 2 powi (1 - emax f)"
proof -
  have u: "ulp f x = 2 powi (1 - emax f - (int (prec f) - 1))"
    by (rule ulp_subnormal) (use x in simp_all)
  note s = powi_split(1) [OF p, of "1 - emax f", folded u]
  have "of_int 0 * ulp f x \<le> round_to_ulp f x"
    by (rule round_to_ulp_ge) (use x(1) in simp)
  then show "0 \<le> round_to_ulp f x" by simp
  show "round_to_ulp f x \<le> 2 powi (1 - emax f)"
    unfolding s by (rule round_to_ulp_le) (use x(2) s in simp)
qed

lemma round_to_ulp_nonneg:
  assumes "0 < prec f" "0 < x"
  shows "0 \<le> round_to_ulp f x"
proof -
  have "of_int 0 * ulp f x \<le> round_to_ulp f x"
    by (rule round_to_ulp_ge) (use assms(2) in simp)
  then show ?thesis by simp
qed

lemma round_to_ulp_same_ulp:
  assumes "ulp f x = ulp f y" "x \<le> y"
  shows "round_to_ulp f x \<le> round_to_ulp f y"
proof -
  have "x / ulp f y \<le> y / ulp f y"
    using assms(2) by (intro divide_right_mono) (simp_all add: less_imp_le)
  then have "round_half_even (x / ulp f y) \<le> round_half_even (y / ulp f y)"
    by (rule round_half_even_mono)
  then have "(of_int (round_half_even (x / ulp f y)) :: real)
      \<le> of_int (round_half_even (y / ulp f y))" by simp
  then show ?thesis unfolding round_to_ulp_def assms(1) by (simp add: mult_right_mono)
qed

lemma round_to_ulp_mono:
  assumes p: "0 < prec f" and x: "0 < x" "x \<le> y"
  shows "round_to_ulp f x \<le> round_to_ulp f y"
proof -
  let ?m = "1 - emax f"
  have y: "0 < y" using x by simp
  note bx = log2_bounds [OF x(1)] and by' = log2_bounds [OF y]
  have le: "\<lfloor>log 2 x\<rfloor> \<le> \<lfloor>log 2 y\<rfloor>" using x by (rule log2_mono)
  consider (sub) "\<lfloor>log 2 y\<rfloor> < ?m" | (mixed) "\<lfloor>log 2 x\<rfloor> < ?m" "?m \<le> \<lfloor>log 2 y\<rfloor>"
    | (same) "?m \<le> \<lfloor>log 2 x\<rfloor>" "\<lfloor>log 2 x\<rfloor> = \<lfloor>log 2 y\<rfloor>"
    | (diff) "?m \<le> \<lfloor>log 2 x\<rfloor>" "\<lfloor>log 2 x\<rfloor> < \<lfloor>log 2 y\<rfloor>"
    using le by linarith
  then show ?thesis
  proof cases
    case sub
    then have "ulp f x = ulp f y" using le x y by (simp add: ulp_def max_def)
    then show ?thesis using x(2) by (rule round_to_ulp_same_ulp)
  next
    case mixed
    have "x < 2 powi (\<lfloor>log 2 x\<rfloor> + 1)" by (rule bx(2))
    also have "\<dots> \<le> 2 powi ?m" using mixed(1) by (intro powi_mono) simp
    finally have "round_to_ulp f x \<le> 2 powi ?m"
      using round_to_ulp_subnormal(2) [OF p x(1)] by simp
    also have "\<dots> \<le> 2 powi \<lfloor>log 2 y\<rfloor>" using mixed(2) by (rule powi_mono)
    also have "\<dots> \<le> round_to_ulp f y"
      by (rule round_to_ulp_normal(1) [OF p by' mixed(2)])
    finally show ?thesis .
  next
    case same
    then have "ulp f x = ulp f y" using x y by (simp add: ulp_def)
    then show ?thesis using x(2) by (rule round_to_ulp_same_ulp)
  next
    case diff
    have "round_to_ulp f x \<le> 2 powi (\<lfloor>log 2 x\<rfloor> + 1)"
      by (rule round_to_ulp_normal(2) [OF p bx diff(1)])
    also have "\<dots> \<le> 2 powi \<lfloor>log 2 y\<rfloor>" using diff(2) by (intro powi_mono) simp
    also have "\<dots> \<le> round_to_ulp f y"
      by (rule round_to_ulp_normal(1) [OF p by']) (use diff in simp)
    finally show ?thesis .
  qed
qed

lemma fround_nonneg:
  assumes "0 < prec f" "0 \<le> x"
  shows "fround f x = PInf \<or> (\<exists>a. fround f x = Fin a \<and> 0 \<le> a \<and> (x \<noteq> 0 \<longrightarrow> a = round_to_ulp f x))"
proof (cases "x = 0")
  case True
  then show ?thesis by (simp add: fround_def)
next
  case False
  then have "0 < x" using assms(2) by simp
  then have "0 \<le> round_to_ulp f x" using assms(1) by (intro round_to_ulp_nonneg)
  then show ?thesis using \<open>0 < x\<close> by (simp add: fround_def Let_def)
qed

lemma fround_mono_fin:
  assumes p: "0 < prec f" and x: "0 \<le> x" "x \<le> y" and y: "fround f y = Fin b"
  shows "\<exists>a. fround f x = Fin a \<and> 0 \<le> a \<and> a \<le> b"
proof (cases "x = 0")
  case True
  have "0 \<le> y" using x by simp
  from fround_nonneg [OF p this] y have "0 \<le> b" by auto
  then show ?thesis using True by (simp add: fround_def)
next
  case False
  then have x0: "0 < x" using x(1) by simp
  then have y0: "0 < y" using x(2) by simp
  have rx: "0 \<le> round_to_ulp f x" using p x0 by (rule round_to_ulp_nonneg)
  have ry: "0 \<le> round_to_ulp f y" using p y0 by (rule round_to_ulp_nonneg)
  have le: "round_to_ulp f x \<le> round_to_ulp f y" using p x0 x(2) by (rule round_to_ulp_mono)
  from y y0 ry have b: "b = round_to_ulp f y" and ny: "\<not> 2 powi (emax f + 1) \<le> round_to_ulp f y"
    by (auto simp: fround_def Let_def split: if_splits)
  have "fround f x = Fin (round_to_ulp f x)"
    using x0 rx le ny by (simp add: fround_def Let_def)
  then show ?thesis using rx le b by simp
qed

lemma fround_exact:
  assumes x: "x = of_int n * 2 powi k" and n: "\<bar>n\<bar> < 2 ^ prec f"
    and k: "1 - emax f - (int (prec f) - 1) \<le> k" and b: "\<bar>x\<bar> < 2 powi (emax f + 1)"
  shows "fround f x = Fin x"
proof (cases "x = 0")
  case True
  then show ?thesis by (simp add: fround_def)
next
  case False
  let ?p = "int (prec f)"
  let ?e = "\<lfloor>log 2 \<bar>x\<bar>\<rfloor>"
  define j where "j = max ?e (1 - emax f) - (?p - 1)"
  have u: "ulp f x = 2 powi j" by (simp add: ulp_def j_def)
  have ax: "0 < \<bar>x\<bar>" using False by simp
  have "\<bar>x\<bar> = of_int \<bar>n\<bar> * 2 powi k" unfolding x by (simp add: abs_mult)
  also have "\<dots> < of_int (2 ^ prec f) * 2 powi k"
  proof (rule mult_strict_right_mono)
    show "(of_int \<bar>n\<bar> :: real) < of_int (2 ^ prec f)" using n by (simp only: of_int_less_iff)
    show "0 < (2::real) powi k" by simp
  qed
  also have "\<dots> = 2 powi (?p + k)"
    by (simp add: power_int_add)
  finally have "\<bar>x\<bar> < 2 powi (?p + k)" .
  from log2_lt [OF ax this] have "?e - (?p - 1) \<le> k" by simp
  then have jk: "j \<le> k" using k by (simp add: j_def max_def)
  have "(2::real) powi (j + (k - j)) = 2 powi j * 2 powi (k - j)"
    by (rule power_int_add) simp
  then have "(2::real) powi k = 2 powi j * of_int (2 ^ nat (k - j))"
    using jk by (simp add: powi_nat)
  then have xk: "x = of_int (n * 2 ^ nat (k - j)) * 2 powi j"
    unfolding x by simp
  have q: "x / ulp f x = of_int (n * 2 ^ nat (k - j))"
    unfolding u by (subst xk) simp
  then have "round_half_even (x / ulp f x) = n * 2 ^ nat (k - j)"
    by (simp only: round_half_even_of_int)
  then have "round_to_ulp f x = of_int (n * 2 ^ nat (k - j)) * ulp f x"
    by (simp add: round_to_ulp_def)
  also have "\<dots> = of_int (n * 2 ^ nat (k - j)) * 2 powi j" by (simp only: u)
  also have "\<dots> = x" by (rule xk [symmetric])
  finally have "round_to_ulp f x = x" .
  then show ?thesis using False b by (simp add: fround_def)
qed

lemma fround_overflow:
  assumes p: "0 < prec f" and e: "0 \<le> emax f" and x: "2 powi (emax f + 1) \<le> x"
  shows "fround f x = PInf"
proof -
  have x0: "0 < x" using x zero_less_power_int [of "2::real" "emax f + 1"] by linarith
  have le: "emax f + 1 \<le> \<lfloor>log 2 x\<rfloor>"
  proof (rule ccontr)
    assume "\<not> emax f + 1 \<le> \<lfloor>log 2 x\<rfloor>"
    then have "\<lfloor>log 2 x\<rfloor> + 1 \<le> emax f + 1" by simp
    then have "(2::real) powi (\<lfloor>log 2 x\<rfloor> + 1) \<le> 2 powi (emax f + 1)" by (rule powi_mono)
    then show False using log2_bounds(2) [OF x0] x by linarith
  qed
  then have m: "1 - emax f \<le> \<lfloor>log 2 x\<rfloor>" using e by simp
  have "2 powi (emax f + 1) \<le> (2::real) powi \<lfloor>log 2 x\<rfloor>" using le by (rule powi_mono)
  also have "\<dots> \<le> round_to_ulp f x"
    by (rule round_to_ulp_normal(1) [OF p log2_bounds [OF x0] m])
  finally have "2 powi (emax f + 1) \<le> \<bar>round_to_ulp f x\<bar>" by simp
  then show ?thesis using x0 by (simp add: fround_def Let_def)
qed

lemma float_grid:
  assumes "fround f x = Fin x"
  shows "\<exists>m::int. x = of_int m * 2 powi (1 - emax f - (int (prec f) - 1))"
proof (cases "x = 0")
  case True
  then show ?thesis by (intro exI [of _ 0]) simp
next
  case False
  let ?m0 = "1 - emax f - (int (prec f) - 1)"
  define e where "e = max \<lfloor>log 2 \<bar>x\<bar>\<rfloor> (1 - emax f)"
  have ge: "1 - emax f \<le> e" by (simp add: e_def)
  have u: "ulp f x = 2 powi (e - (int (prec f) - 1))" by (simp add: ulp_def e_def)
  have a: "(2::real) powi (?m0 + (e - (1 - emax f))) = 2 powi ?m0 * 2 powi (e - (1 - emax f))"
    by (rule power_int_add) simp
  have b: "?m0 + (e - (1 - emax f)) = e - (int (prec f) - 1)" by simp
  have c: "(2::real) powi (e - (1 - emax f)) = of_int (2 ^ nat (e - (1 - emax f)))"
    using ge by (intro powi_nat) simp
  have u2: "ulp f x = of_int (2 ^ nat (e - (1 - emax f))) * 2 powi ?m0"
    unfolding u using a [unfolded b c] by (simp only: mult.commute)
  from assms False have "x = round_to_ulp f x"
    by (auto simp: fround_def Let_def split: if_splits)
  then have "x = of_int (round_half_even (x / ulp f x) * 2 ^ nat (e - (1 - emax f))) * 2 powi ?m0"
    unfolding round_to_ulp_def using u2 by simp
  then show ?thesis by blast
qed

lemma float_diff_ge:
  assumes "fround f x = Fin x" "fround f y = Fin y" "x < y"
  shows "2 powi (1 - emax f - (int (prec f) - 1)) \<le> y - x"
proof -
  let ?m0 = "(2::real) powi (1 - emax f - (int (prec f) - 1))"
  from float_grid [OF assms(1)] obtain a :: int where a: "x = of_int a * ?m0" by blast
  from float_grid [OF assms(2)] obtain b :: int where b: "y = of_int b * ?m0" by blast
  have m0: "0 < ?m0" by simp
  have "of_int a * ?m0 < of_int b * ?m0" using assms(3) a b by simp
  then have "(of_int a :: real) < of_int b" using m0 by (simp only: mult_less_cancel_right_pos)
  then have "a + 1 \<le> b" by simp
  then have "(of_int (a + 1) :: real) \<le> of_int b" by (simp only: of_int_le_iff)
  then have "of_int (a + 1) * ?m0 \<le> of_int b * ?m0" using m0 by (simp only: mult_le_cancel_right_pos)
  then show ?thesis unfolding a b by (simp add: algebra_simps)
qed

lemma fround_diff_pos:
  assumes p: "0 < prec f" and e: "1 \<le> emax f"
    and xy: "fround f x = Fin x" "fround f y = Fin y" "x < y"
  shows "fround f (y - x) = PInf \<or> (\<exists>d. fround f (y - x) = Fin d \<and> 0 < d)"
proof -
  let ?k = "1 - emax f - (int (prec f) - 1)"
  let ?m0 = "(2::real) powi ?k"
  have le: "?m0 \<le> y - x" using xy by (rule float_diff_ge)
  have "?k < emax f + 1" using e p by linarith
  then have "?m0 < 2 powi (emax f + 1)" by (rule power_int_strict_increasing) simp
  then have lt: "\<bar>?m0\<bar> < 2 powi (emax f + 1)" by simp
  have ex: "fround f ?m0 = Fin ?m0"
    by (rule fround_exact [where n = 1 and k = ?k]) (use lt p in \<open>simp_all add: one_less_power\<close>)
  have d0: "0 \<le> y - x" using xy(3) by simp
  from fround_nonneg [OF p d0] show ?thesis
  proof
    assume "fround f (y - x) = PInf"
    then show ?thesis by simp
  next
    assume "\<exists>a. fround f (y - x) = Fin a \<and> 0 \<le> a \<and> (y - x \<noteq> 0 \<longrightarrow> a = round_to_ulp f (y - x))"
    then obtain d where d: "fround f (y - x) = Fin d" by blast
    have m0: "0 \<le> ?m0" by simp
    from fround_mono_fin [OF p m0 le d] ex have "?m0 \<le> d" by simp
    then have "0 < d" using zero_less_power_int [of "2::real" ?k] by linarith
    then show ?thesis using d by simp
  qed
qed

section \<open>Min-max normalisation in the post-processing\<close>

lemma tmap_simps [simp]: "shape (tmap f t) = shape t" "data (tmap f t) = map f (data t)"
  by (simp_all add: tmap_def)

lemma wf_tmap [simp]: "wf (tmap f t) = wf t"
  by (simp add: wf_def)

lemma tget_mem:
  assumes "wf t" "list_all2 (<) idx (shape t)"
  shows "tget t idx \<in> set (data t)"
proof -
  from offset_lt [OF assms(2)] have "offset idx (strides (shape t)) < length (data t)"
    using assms(1) by (simp add: wf_def)
  then show ?thesis unfolding tget_def by (rule nth_mem)
qed

lemma foldl_fmax_Fin: "foldl fmax (Fin a) (map Fin xs) = Fin (Max (set (a # xs)))"
proof (induction xs arbitrary: a)
  case Nil
  then show ?case by simp
next
  case (Cons x xs)
  have "fmax (Fin a) (Fin x) = Fin (max a x)" by (simp add: fmax_def max_def)
  moreover have "Max (set (max a x # xs)) = Max (set (a # x # xs))"
    by (cases "xs = []") (simp_all add: max.assoc)
  ultimately show ?case using Cons.IH [of "max a x"] by simp
qed

lemma foldl_fmin_Fin: "foldl fmin (Fin a) (map Fin xs) = Fin (Min (set (a # xs)))"
proof (induction xs arbitrary: a)
  case Nil
  then show ?case by simp
next
  case (Cons x xs)
  have "fmin (Fin a) (Fin x) = Fin (min a x)" by (simp add: fmin_def min_def)
  moreover have "Min (set (min a x # xs)) = Min (set (a # x # xs))"
    by (cases "xs = []") (simp_all add: min.assoc)
  ultimately show ?case using Cons.IH [of "min a x"] by simp
qed

lemma torch_max_Fin:
  "data r \<noteq> [] \<Longrightarrow> torch_max (tmap Fin r) = Inr (Fin (Max (set (data r))))"
  by (cases "data r") (simp_all add: torch_max_def foldl_fmax_Fin)

lemma torch_min_Fin:
  "data r \<noteq> [] \<Longrightarrow> torch_min (tmap Fin r) = Inr (Fin (Min (set (data r))))"
  by (cases "data r") (simp_all add: torch_min_def foldl_fmin_Fin)

lemma postprocess_image_run:
  assumes i: "interpolate result im_size = Inr (tmap Fin r)"
    and s: "shape r = [1, C, h, w]" and wfr: "wf r" and ne: "data r \<noteq> []"
  defines "mi \<equiv> Min (set (data r))" and "ma \<equiv> Max (set (data r))"
  shows "\<exists>p. postprocess_image f interpolate result im_size
                = Inr (np_squeeze (tmap astype_uint8 p))
     \<and> normalize_min_max f (squeeze0 (tmap Fin r))
         = Inr (tmap (\<lambda>x. fdiv f (fround f (x - mi)) (fround f (ma - mi)))
                  (r\<lparr>shape := [C, h, w]\<rparr>))
     \<and> shape p = [h, w, C] \<and> wf p
     \<and> (\<forall>c<C. \<forall>y<h. \<forall>x<w. tget p [y, x, c]
           = fscale f (fdiv f (fround f (tget r [0, c, y, x] - mi)) (fround f (ma - mi))) 255)"
proof -
  let ?r = "r\<lparr>shape := [C, h, w]\<rparr>"
  let ?g = "\<lambda>x. fdiv f (fround f (x - mi)) (fround f (ma - mi))"
  let ?sc = "tmap (\<lambda>v. fscale f v 255) (tmap ?g ?r)"
  have sq: "squeeze0 (tmap Fin r) = tmap Fin ?r" using s by (simp add: squeeze0_def tmap_def)
  have wr: "wf ?r" using wfr s by (simp add: wf_def)
  have ne': "data ?r \<noteq> []" using ne by simp
  have n: "normalize_min_max f (tmap Fin ?r) = Inr (tmap ?g ?r)"
    using torch_max_Fin [OF ne'] torch_min_Fin [OF ne']
    by (simp add: normalize_min_max_def mi_def ma_def tmap_def comp_def)
  have pp: "is_perm [1, 2, 0] (length (shape ?sc))" by (simp add: is_perm_def)
  obtain p where p: "permute ?sc [1, 2, 0] = Inr p" using pp by (simp add: permute_Inr)
  have sp: "shape p = [h, w, C]" using shape_permute [OF p] by simp
  have wp: "wf p" using p by (rule wf_permute)
  have g: "tget p [y, x, c]
      = fscale f (fdiv f (fround f (tget r [0, c, y, x] - mi)) (fround f (ma - mi))) 255"
    if "c < C" "y < h" "x < w" for c y x
  proof -
    have v: "list_all2 (<) [c, y, x] (shape ?sc)" using that by simp
    from tget_permute [OF pp p v] have "tget p [y, x, c] = tget ?sc [c, y, x]" by simp
    also have "\<dots> = fscale f (?g (tget ?r [c, y, x])) 255"
      using wr v by (simp add: tget_tmap)
    also have "tget ?r [c, y, x] = tget r [0, c, y, x]" by (simp add: tget_def s)
    finally show ?thesis .
  qed
  have "postprocess_image f interpolate result im_size = Inr (np_squeeze (tmap astype_uint8 p))"
    using i sq n p by (simp add: postprocess_image_def)
  then show ?thesis using sq n sp wp g by auto
qed

lemma fround_0 [simp]: "fround f 0 = Fin 0"
  by (simp add: fround_def)

lemma fround_1:
  assumes "0 < prec f" "1 \<le> emax f"
  shows "fround f 1 = Fin 1"
proof (rule fround_exact [where n = 1 and k = 0])
  show "\<bar>1::int\<bar> < 2 ^ prec f" using assms(1) by (simp add: one_less_power)
  show "1 - emax f - (int (prec f) - 1) \<le> 0" using assms by linarith
  have "(2::real) powi 0 < 2 powi (emax f + 1)"
    by (rule power_int_strict_increasing) (use assms(2) in simp_all)
  then show "\<bar>1::real\<bar> < 2 powi (emax f + 1)" by simp
qed simp

lemma fround_255:
  assumes "8 \<le> prec f" "7 \<le> emax f"
  shows "fround f 255 = Fin 255"
proof (rule fround_exact [where n = 255 and k = 0])
  have "(2::int) ^ 8 \<le> 2 ^ prec f" using assms(1) by (intro power_increasing) simp_all
  then show "\<bar>255::int\<bar> < 2 ^ prec f" by simp
  show "1 - emax f - (int (prec f) - 1) \<le> 0" using assms by linarith
  have "(2::real) powi 8 \<le> 2 powi (emax f + 1)"
    by (rule powi_mono) (use assms(2) in simp)
  then show "\<bar>255::real\<bar> < 2 powi (emax f + 1)" by simp
qed simp

text \<open>One pixel, when the range does not overflow.\<close>

lemma pixel_byte:
  assumes p: "8 \<le> prec f" and e: "7 \<le> emax f"
    and d: "fround f (ma - mi) = Fin dv" "0 < dv"
    and v: "mi \<le> v" "v \<le> ma"
  shows "\<exists>b. astype_uint8 (fscale f (fdiv f (fround f (v - mi)) (fround f (ma - mi))) 255) = Some b
           \<and> b \<le> 255 \<and> (v = mi \<longrightarrow> b = 0) \<and> (v = ma \<longrightarrow> b = 255)"
proof -
  have p0: "0 < prec f" using p by simp
  have e0: "1 \<le> emax f" using e by simp
  have "0 \<le> v - mi" "v - mi \<le> ma - mi" using v by simp_all
  from fround_mono_fin [OF p0 this d(1)] obtain av where
    av: "fround f (v - mi) = Fin av" "0 \<le> av" "av \<le> dv" by blast
  have q01: "0 \<le> av / dv" "av / dv \<le> 1" using av d(2) by simp_all
  from fround_mono_fin [OF p0 q01 fround_1 [OF p0 e0]] obtain qv where
    qv: "fround f (av / dv) = Fin qv" "0 \<le> qv" "qv \<le> 1" by blast
  have s01: "0 \<le> qv * 255" "qv * 255 \<le> 255" using qv by simp_all
  from fround_mono_fin [OF p0 s01 fround_255 [OF p e]] obtain sv where
    sv: "fround f (qv * 255) = Fin sv" "0 \<le> sv" "sv \<le> 255" by blast
  have val: "fscale f (fdiv f (fround f (v - mi)) (fround f (ma - mi))) 255 = Fin sv"
    using av(1) d qv(1) sv(1) by simp
  have fl: "\<lfloor>sv\<rfloor> \<le> 255" using sv(3) by (simp add: floor_le_iff)
  have b: "astype_uint8 (Fin sv) = Some (nat \<lfloor>sv\<rfloor>)" using sv by simp
  have le: "nat \<lfloor>sv\<rfloor> \<le> 255" using fl by linarith
  have lo: "nat \<lfloor>sv\<rfloor> = 0" if "v = mi"
  proof -
    have "av = 0" using av(1) that by simp
    then have "qv = 0" using qv(1) by simp
    then have "sv = 0" using sv(1) by simp
    then show ?thesis by simp
  qed
  have hi: "nat \<lfloor>sv\<rfloor> = 255" if "v = ma"
  proof -
    have "av = dv" using av(1) d(1) that by simp
    then have "av / dv = 1" using d(2) by simp
    then have "qv = 1" using qv(1) fround_1 [OF p0 e0] by simp
    then have "sv = 255" using sv(1) fround_255 [OF p e] by simp
    then show ?thesis by simp
  qed
  show ?thesis unfolding val b using le lo hi by blast
qed

lemma fround_float32_exact:
  assumes "x = of_int n * 2 powi k" "\<bar>n\<bar> < 16777216" "- 149 \<le> k" "\<bar>x\<bar> < 2 ^ 128"
  shows "fround float32 x = Fin x"
  by (rule fround_exact [where n = n and k = k]) (use assms in \<open>simp_all add: float32_def\<close>)

lemma fround_float32_values:
  "fround float32 1 = Fin 1" "fround float32 2 = Fin 2" "fround float32 (1 / 2) = Fin (1 / 2)"
  "fround float32 (255 / 2) = Fin (255 / 2)" "fround float32 255 = Fin 255"
  "fround float32 (2 ^ 127) = Fin (2 ^ 127)" "fround float32 (- (2 ^ 127)) = Fin (- (2 ^ 127))"
proof -
  show "fround float32 1 = Fin 1"
    by (rule fround_float32_exact [where n = 1 and k = 0]) simp_all
  show "fround float32 2 = Fin 2"
    by (rule fround_float32_exact [where n = 1 and k = 1]) simp_all
  show "fround float32 (1 / 2) = Fin (1 / 2)"
    by (rule fround_float32_exact [where n = 1 and k = "- 1"]) (simp_all add: power_int_minus)
  show "fround float32 (255 / 2) = Fin (255 / 2)"
    by (rule fround_float32_exact [where n = 255 and k = "- 1"]) (simp_all add: power_int_minus)
  show "fround float32 255 = Fin 255"
    by (rule fround_float32_exact [where n = 255 and k = 0]) simp_all
  show "fround float32 (2 ^ 127) = Fin (2 ^ 127)"
    by (rule fround_float32_exact [where n = 1 and k = 127]) simp_all
  show "fround float32 (- (2 ^ 127)) = Fin (- (2 ^ 127))"
    by (rule fround_float32_exact [where n = "- 1" and k = 127]) simp_all
qed

lemma fround_float32_overflow: "fround float32 (2 ^ 128) = PInf"
  by (rule fround_overflow) (simp_all add: float32_def)

lemmas postprocess_image_eval =
  postprocess_image_def normalize_min_max_def torch_max_def torch_min_def fmax_def fmin_def
  squeeze0_def tmap_def permute_def is_perm_def np_squeeze_def upt_rec

text \<open>
  Claim C10, as stated, fails.  In \<open>float32\<close> the tensor \<open>[-2 ^ 127, 0, 2 ^ 127]\<close> holds
  finite numbers and its maximum exceeds its minimum, but \<open>ma - mi\<close> overflows to
  infinity: the pixel at the maximum becomes infinity divided by infinity, NaN, whose
  byte is undefined and not 255, and the pixel in the middle becomes 0.
\<close>

theorem float32_overflow_counterexample:
  "fround float32 (- (2 ^ 127)) = Fin (- (2 ^ 127)) \<and> fround float32 (2 ^ 127) = Fin (2 ^ 127)
   \<and> postprocess_image float32 (\<lambda>t s. Inr t)
        \<lparr>shape = [1, 1, 1, 3], data = [Fin (- (2 ^ 127)), Fin 0, Fin (2 ^ 127)]\<rparr> [1, 3]
     = Inr \<lparr>shape = [3], data = [Some 0, Some 0, None]\<rparr>"
  using fround_float32_values(6,7) fround_float32_overflow
  by (simp add: postprocess_image_eval)


text \<open>
  Claim C10, amended.  \<open>postprocess_image\<close> divides by \<open>ma - mi\<close> with no guard.  Let the
  resized mask hold finite numbers of its floating-point format (of precision at least 8
  and largest exponent at least 7, as \<open>float16\<close>, \<open>bfloat16\<close>, \<open>float32\<close> and
  \<open>float64\<close> are).  When its maximum exceeds its minimum and \<open>ma - mi\<close> does not overflow,
  every output byte is defined and at most 255, a pixel at the minimum becomes 0 and a
  pixel at the maximum becomes 255.  When \<open>ma - mi\<close> overflows to infinity, a pixel at the
  minimum becomes 0 and a pixel at the maximum becomes NaN, with no defined byte.  When
  the resized mask is constant, every quotient is zero divided by zero: the normalised
  values are all NaN and no output byte is defined.
\<close>

theorem postprocess_image_min_max:
  assumes "8 \<le> prec f" and "7 \<le> emax f"
    and "interpolate result im_size = Inr (tmap Fin r)"
    and "shape r = [1, C, h, w]" and "wf r" and "data r \<noteq> []"
    and "\<forall>v \<in> set (data r). fround f v = Fin v"
  shows "\<exists>out. postprocess_image f interpolate result im_size = Inr out
     \<and> shape out = filter (\<lambda>d. d \<noteq> 1) [h, w, C]
     \<and> (Min (set (data r)) < Max (set (data r))
         \<and> fround f (Max (set (data r)) - Min (set (data r))) \<noteq> PInf \<longrightarrow>
          (\<forall>c<C. \<forall>y<h. \<forall>x<w. \<exists>b. tget (out\<lparr>shape := [h, w, C]\<rparr>) [y, x, c] = Some b \<and> b \<le> 255
             \<and> (tget r [0, c, y, x] = Min (set (data r)) \<longrightarrow> b = 0)
             \<and> (tget r [0, c, y, x] = Max (set (data r)) \<longrightarrow> b = 255)))
     \<and> (fround f (Max (set (data r)) - Min (set (data r))) = PInf \<longrightarrow>
          (\<forall>c<C. \<forall>y<h. \<forall>x<w.
             (tget r [0, c, y, x] = Min (set (data r))
                \<longrightarrow> tget (out\<lparr>shape := [h, w, C]\<rparr>) [y, x, c] = Some 0)
             \<and> (tget r [0, c, y, x] = Max (set (data r))
                \<longrightarrow> tget (out\<lparr>shape := [h, w, C]\<rparr>) [y, x, c] = None)))
     \<and> (Min (set (data r)) = Max (set (data r)) \<longrightarrow>
          map_sum id data (normalize_min_max f (squeeze0 (tmap Fin r)))
            = Inr (replicate (C * h * w) NaN)
          \<and> data out = replicate (h * w * C) None)"
proof -
  let ?mi = "Min (set (data r))" and ?ma = "Max (set (data r))"
  let ?px = "\<lambda>v. fscale f (fdiv f (fround f (v - ?mi)) (fround f (?ma - ?mi))) 255"
  have p0: "0 < prec f" and e1: "1 \<le> emax f" using assms(1,2) by simp_all
  from postprocess_image_run [of interpolate result im_size r C h w f, OF assms(3,4,5,6)]
  obtain p where
    run: "postprocess_image f interpolate result im_size = Inr (np_squeeze (tmap astype_uint8 p))"
    and nrm: "normalize_min_max f (squeeze0 (tmap Fin r))
         = Inr (tmap (\<lambda>x. fdiv f (fround f (x - ?mi)) (fround f (?ma - ?mi)))
                  (r\<lparr>shape := [C, h, w]\<rparr>))"
    and sp: "shape p = [h, w, C]" and wp: "wf p"
    and g: "\<forall>c<C. \<forall>y<h. \<forall>x<w. tget p [y, x, c] = ?px (tget r [0, c, y, x])"
    by blast
  let ?out = "np_squeeze (tmap astype_uint8 p)"
  have so: "shape ?out = filter (\<lambda>d. d \<noteq> 1) [h, w, C]" by (simp add: np_squeeze_def sp)
  have unsq: "?out\<lparr>shape := [h, w, C]\<rparr> = tmap astype_uint8 p"
    using sp by (simp add: np_squeeze_def tmap_def)
  have len: "length (data r) = C * h * w"
    using assms(4,5) by (simp add: wf_def)
  have fmi: "fround f ?mi = Fin ?mi" and fma: "fround f ?ma = Fin ?ma"
    using assms(6,7) by simp_all
  have rng: "?mi \<le> tget r [0, c, y, x] \<and> tget r [0, c, y, x] \<le> ?ma"
    if "c < C" "y < h" "x < w" for c y x
  proof -
    have "list_all2 (<) [0, c, y, x] (shape r)" using that assms(4) by simp
    from tget_mem [OF assms(5) this] show ?thesis by simp
  qed
  have og: "tget (?out\<lparr>shape := [h, w, C]\<rparr>) [y, x, c] = astype_uint8 (?px (tget r [0, c, y, x]))"
    if "c < C" "y < h" "x < w" for c y x
  proof -
    have "list_all2 (<) [y, x, c] (shape p)" using that sp by simp
    from tget_tmap [OF wp this] show ?thesis unfolding unsq using g that by simp
  qed
  have A: "\<exists>b. tget (?out\<lparr>shape := [h, w, C]\<rparr>) [y, x, c] = Some b \<and> b \<le> 255
             \<and> (tget r [0, c, y, x] = ?mi \<longrightarrow> b = 0)
             \<and> (tget r [0, c, y, x] = ?ma \<longrightarrow> b = 255)"
    if lt: "?mi < ?ma" and fin: "fround f (?ma - ?mi) \<noteq> PInf" and b: "c < C" "y < h" "x < w"
    for c y x
  proof -
    from fround_diff_pos [OF p0 e1 fmi fma lt] fin obtain dv where
      dv: "fround f (?ma - ?mi) = Fin dv" "0 < dv" by blast
    from rng [OF b] have v: "?mi \<le> tget r [0, c, y, x]" "tget r [0, c, y, x] \<le> ?ma"
      by simp_all
    show ?thesis unfolding og [OF b] by (rule pixel_byte [OF assms(1,2) dv v])
  qed
  have O: "(tget r [0, c, y, x] = ?mi \<longrightarrow> tget (?out\<lparr>shape := [h, w, C]\<rparr>) [y, x, c] = Some 0)
         \<and> (tget r [0, c, y, x] = ?ma \<longrightarrow> tget (?out\<lparr>shape := [h, w, C]\<rparr>) [y, x, c] = None)"
    if inf: "fround f (?ma - ?mi) = PInf" and b: "c < C" "y < h" "x < w" for c y x
    unfolding og [OF b] using inf by simp
  have B1: "map_sum id data (normalize_min_max f (squeeze0 (tmap Fin r)))
      = Inr (replicate (C * h * w) NaN)"
    and B2: "data ?out = replicate (h * w * C) None" if eq: "?mi = ?ma"
  proof -
    have all: "v = ?mi" if "v \<in> set (data r)" for v
    proof -
      have "?mi \<le> v" "v \<le> ?ma" using that by simp_all
      then show ?thesis using eq by simp
    qed
    have "map (\<lambda>x. fdiv f (fround f (x - ?mi)) (fround f (?ma - ?mi))) (data r)
        = replicate (C * h * w) NaN"
      unfolding len [symmetric] using all eq
      by (intro map_replicate_const [THEN trans [rotated]] map_cong) simp_all
    then show "map_sum id data (normalize_min_max f (squeeze0 (tmap Fin r)))
        = Inr (replicate (C * h * w) NaN)"
      unfolding nrm by simp
    have lp: "length (data p) = h * w * C" using wp sp by (simp add: wf_def)
    have "data p ! k = NaN" if k: "k < h * w * C" for k
    proof -
      from unravel_3_cases [OF k] obtain y x c where
        u: "unravel [h, w, C] k = [y, x, c]" and b: "y < h" "x < w" "c < C" by blast
      have "k < prod_list (shape p)" using k sp by simp
      from data_nth_tget [OF this] have "data p ! k = tget p [y, x, c]" using sp u by simp
      also have "\<dots> = ?px (tget r [0, c, y, x])"
        using g b by simp
      also have "tget r [0, c, y, x] = ?mi" using rng [OF b(3) b(1) b(2)] eq by simp
      finally show ?thesis using eq by simp
    qed
    then have "data p = replicate (h * w * C) NaN"
      using lp by (simp add: list_eq_iff_nth_eq)
    then show "data ?out = replicate (h * w * C) None" by (simp add: np_squeeze_def)
  qed
  show ?thesis using run so A O B1 B2 by (intro exI [of _ ?out]) blast
qed

theorem postprocess_image_min_max_witness:
  "postprocess_image float32 (\<lambda>t s. Inr t)
        \<lparr>shape = [1, 1, 1, 3], data = [Fin 0, Fin 1, Fin 2]\<rparr> [1, 3]
     = Inr \<lparr>shape = [3], data = [Some 0, Some 127, Some 255]\<rparr>
   \<and> postprocess_image float32 (\<lambda>t s. Inr t)
        \<lparr>shape = [1, 1, 1, 2], data = [Fin (- (2 ^ 127)), Fin (2 ^ 127)]\<rparr> [1, 2]
     = Inr \<lparr>shape = [2], data = [Some 0, None]\<rparr>
   \<and> postprocess_image float32 (\<lambda>t s. Inr t)
        \<lparr>shape = [1, 1, 1, 3], data = [Fin (1 / 2), Fin (1 / 2), Fin (1 / 2)]\<rparr> [1, 3]
     = Inr \<lparr>shape = [3], data = [None, None, None]\<rparr>"
proof -
  let ?i = "\<lambda>(t :: fval tensor) (s :: nat list). (Inr t :: error + fval tensor)"
  let ?r1 = "\<lparr>shape = [1, 1, 1, 3], data = [0, 1, 2 :: real]\<rparr>"
  let ?r2 = "\<lparr>shape = [1, 1, 1, 2], data = [- (2 ^ 127), 2 ^ 127 :: real]\<rparr>"
  let ?r3 = "\<lparr>shape = [1, 1, 1, 3], data = [1 / 2, 1 / 2, 1 / 2 :: real]\<rparr>"
  note v = fround_float32_values
  have f: "8 \<le> prec float32" "7 \<le> emax float32" by (simp_all add: float32_def)
  have i: "?i (tmap Fin r) s = Inr (tmap Fin r)" for r :: "real tensor" and s by simp
  have r1: "shape ?r1 = [1, 1, 1, 3]" "wf ?r1" "data ?r1 \<noteq> []"
    "\<forall>v \<in> set (data ?r1). fround float32 v = Fin v"
    using v by (simp_all add: wf_def)
  have r2: "shape ?r2 = [1, 1, 1, 2]" "wf ?r2" "data ?r2 \<noteq> []"
    "\<forall>v \<in> set (data ?r2). fround float32 v = Fin v"
    using v by (simp_all add: wf_def)
  have r3: "shape ?r3 = [1, 1, 1, 3]" "wf ?r3" "data ?r3 \<noteq> []"
    "\<forall>v \<in> set (data ?r3). fround float32 v = Fin v"
    using v by (simp_all add: wf_def)
  from postprocess_image_min_max [of float32 ?i "tmap Fin ?r1" "[1, 3]" ?r1 1 1 3, OF f i r1] obtain o1 where
    o1: "postprocess_image float32 ?i (tmap Fin ?r1) [1, 3] = Inr o1"
    and a1: "Min (set (data ?r1)) < Max (set (data ?r1))
         \<and> fround float32 (Max (set (data ?r1)) - Min (set (data ?r1))) \<noteq> PInf \<longrightarrow>
          (\<forall>c<1. \<forall>y<1. \<forall>x<3. \<exists>b. tget (o1\<lparr>shape := [1, 3, 1]\<rparr>) [y, x, c] = Some b \<and> b \<le> 255
             \<and> (tget ?r1 [0, c, y, x] = Min (set (data ?r1)) \<longrightarrow> b = 0)
             \<and> (tget ?r1 [0, c, y, x] = Max (set (data ?r1)) \<longrightarrow> b = 255))"
    by (elim exE conjE) (rule that; assumption)
  have "Min (set (data ?r1)) < Max (set (data ?r1))
         \<and> fround float32 (Max (set (data ?r1)) - Min (set (data ?r1))) \<noteq> PInf"
    using v(2) by simp
  with a1 have "\<forall>c<1. \<forall>y<1. \<forall>x<3. \<exists>b. tget (o1\<lparr>shape := [1, 3, 1]\<rparr>) [y, x, c] = Some b \<and> b \<le> 255
             \<and> (tget ?r1 [0, c, y, x] = Min (set (data ?r1)) \<longrightarrow> b = 0)
             \<and> (tget ?r1 [0, c, y, x] = Max (set (data ?r1)) \<longrightarrow> b = 255)"
    by (rule mp)
  then have "\<exists>b. tget (o1\<lparr>shape := [1, 3, 1]\<rparr>) [0, 2, 0] = Some b \<and> b \<le> 255
             \<and> (tget ?r1 [0, 0, 0, 2] = Min (set (data ?r1)) \<longrightarrow> b = 0)
             \<and> (tget ?r1 [0, 0, 0, 2] = Max (set (data ?r1)) \<longrightarrow> b = 255)"
    by simp
  then have w1: "tget (o1\<lparr>shape := [1, 3, 1]\<rparr>) [0, 2, 0] = Some 255"
    by (auto simp: tget_def)
  from postprocess_image_min_max [of float32 ?i "tmap Fin ?r2" "[1, 2]" ?r2 1 1 2, OF f i r2] obtain o2 where
    o2: "postprocess_image float32 ?i (tmap Fin ?r2) [1, 2] = Inr o2"
    and a2: "fround float32 (Max (set (data ?r2)) - Min (set (data ?r2))) = PInf \<longrightarrow>
          (\<forall>c<1. \<forall>y<1. \<forall>x<2.
             (tget ?r2 [0, c, y, x] = Min (set (data ?r2))
                \<longrightarrow> tget (o2\<lparr>shape := [1, 2, 1]\<rparr>) [y, x, c] = Some 0)
             \<and> (tget ?r2 [0, c, y, x] = Max (set (data ?r2))
                \<longrightarrow> tget (o2\<lparr>shape := [1, 2, 1]\<rparr>) [y, x, c] = None))"
    by (elim exE conjE) (rule that; assumption)
  have "fround float32 (Max (set (data ?r2)) - Min (set (data ?r2))) = PInf"
    using fround_float32_overflow by simp
  with a2 have "\<forall>c<1. \<forall>y<1. \<forall>x<2.
             (tget ?r2 [0, c, y, x] = Min (set (data ?r2))
                \<longrightarrow> tget (o2\<lparr>shape := [1, 2, 1]\<rparr>) [y, x, c] = Some 0)
             \<and> (tget ?r2 [0, c, y, x] = Max (set (data ?r2))
                \<longrightarrow> tget (o2\<lparr>shape := [1, 2, 1]\<rparr>) [y, x, c] = None)"
    by (rule mp)
  then have "tget ?r2 [0, 0, 0, 1] = Max (set (data ?r2))
                \<longrightarrow> tget (o2\<lparr>shape := [1, 2, 1]\<rparr>) [0, 1, 0] = None"
    by simp
  then have w2: "tget (o2\<lparr>shape := [1, 2, 1]\<rparr>) [0, 1, 0] = None"
    by (simp add: tget_def)
  from postprocess_image_min_max [of float32 ?i "tmap Fin ?r3" "[1, 3]" ?r3 1 1 3, OF f i r3] obtain o3 where
    o3: "postprocess_image float32 ?i (tmap Fin ?r3) [1, 3] = Inr o3"
    and a3: "Min (set (data ?r3)) = Max (set (data ?r3)) \<longrightarrow>
          map_sum id data (normalize_min_max float32 (squeeze0 (tmap Fin ?r3)))
            = Inr (replicate (1 * 1 * 3) NaN)
          \<and> data o3 = replicate (1 * 3 * 1) None"
    by (elim exE conjE) (rule that; assumption)
  have "Min (set (data ?r3)) = Max (set (data ?r3))" by simp
  with a3 have "map_sum id data (normalize_min_max float32 (squeeze0 (tmap Fin ?r3)))
            = Inr (replicate (1 * 1 * 3) NaN)
          \<and> data o3 = replicate (1 * 3 * 1) None"
    by (rule mp)
  then have w3: "data o3 = replicate (1 * 3 * 1) None" by (rule conjunct2)
  show ?thesis
    using v fround_float32_overflow o1 w1 o2 w2 o3 w3
    by (simp add: postprocess_image_eval)
qed

section \<open>The shape of patch merging\<close>

lemma ceiling_half: "nat \<lceil>real n / 2\<rceil> = (n + 1) div 2"
proof -
  have "\<lceil>real n / 2\<rceil> = int ((n + 1) div 2)"
  proof (rule ceiling_unique)
    show "real_of_int (int ((n + 1) div 2)) - 1 < real n / 2"
      by (cases "even n") (auto elim!: evenE oddE)
    show "real n / 2 \<le> real_of_int (int ((n + 1) div 2))"
      by (cases "even n") (auto elim!: evenE oddE)
  qed
  then show ?thesis by simp
qed

lemma reshape_shape_known:
  "prod_list s' = prod_list s \<Longrightarrow> reshape_shape s (map D s') = Inr s'"
  by (simp add: reshape_shape_def infer_size_known)

lemma PatchMerging_forward_shape_ok:
  assumes "0 < B" "0 < C"
  shows "PatchMerging_forward_shape C [B, H * W, C] H W
       = Inr [B, ((H + 1) div 2) * ((W + 1) div 2), 2 * C]"
proof -
  define H' where "H' = H + H mod 2"
  define W' where "W' = W + W mod 2"
  have eH: "even H'" and eW: "even W'" by (simp_all add: H'_def W'_def) 
  have hH: "(H' + 1) div 2 = (H + 1) div 2" "H' div 2 = (H + 1) div 2"
    unfolding H'_def by presburger+
  have hW: "(W' + 1) div 2 = (W + 1) div 2" "W' div 2 = (W + 1) div 2"
    unfolding W'_def by presburger+
  let ?h = "(H + 1) div 2" and ?w = "(W + 1) div 2"
  have r1: "reshape_shape [B, H * W, C] [D B, D H, D W, D C] = Inr [B, H, W, C]"
    using reshape_shape_known [of "[B, H, W, C]" "[B, H * W, C]"] by (simp add: mult.assoc)
  have pad: "(if H mod 2 = 1 \<or> W mod 2 = 1
              then pad_shape [B, H, W, C] [(0, 0), (0, W mod 2), (0, H mod 2)]
              else Inr [B, H, W, C]) = Inr [B, H', W', C]"
    by (auto simp: pad_shape_def H'_def W'_def)
  have s: "stride2_shape [B, H', W', C] 0 0 = Inr [B, ?h, ?w, C]"
    "stride2_shape [B, H', W', C] 1 0 = Inr [B, ?h, ?w, C]"
    "stride2_shape [B, H', W', C] 0 1 = Inr [B, ?h, ?w, C]"
    "stride2_shape [B, H', W', C] 1 1 = Inr [B, ?h, ?w, C]"
    using hH hW by (simp_all add: stride2_shape_def)
  have cat: "cat_last_shape [[B, ?h, ?w, C], [B, ?h, ?w, C], [B, ?h, ?w, C], [B, ?h, ?w, C]]
      = Inr [B, ?h, ?w, 4 * C]"
    by simp
  have "B * ?h * ?w * (4 * C) = (?h * ?w) * (B * (4 * C))" by (simp add: ac_simps)
  then have d: "(B * ?h * ?w * (4 * C)) mod (B * (4 * C)) = 0"
    "(B * ?h * ?w * (4 * C)) div (B * (4 * C)) = ?h * ?w"
    using assms by simp_all
  have r2: "reshape_shape [B, ?h, ?w, 4 * C] [D B, Infer, D (4 * C)] = Inr [B, ?h * ?w, 4 * C]"
    using assms d by (simp add: reshape_shape_def infer_size_def mult.assoc)
  have n: "LayerNorm_shape (4 * C) [B, ?h * ?w, 4 * C] = Inr [B, ?h * ?w, 4 * C]"
    by (simp add: LayerNorm_shape_def)
  have l: "Linear_shape (4 * C) (2 * C) [B, ?h * ?w, 4 * C] = Inr [B, ?h * ?w, 2 * C]"
    by (simp add: Linear_shape_def)
  show ?thesis
    unfolding PatchMerging_forward_shape_def
    by (simp only: list.case r1 pad s cat r2 n l thenE_simps refl if_False not_not not_True_eq_False)
qed

text \<open>
  Claim C5.  \<open>PatchMerging.forward\<close> on an input of shape \<open>(1, 64, 16)\<close> with \<open>H = W = 8\<close>
  returns a tensor of shape \<open>(1, 16, 32)\<close>.  In general, on an input of shape
  \<open>(B, H * W, C)\<close> of a layer built for \<open>C\<close> channels it returns the shape
  \<open>(B, ceil(H / 2) * ceil(W / 2), 2 * C)\<close>: odd \<open>H\<close> or \<open>W\<close> is padded to even, the four
  sub-grids are concatenated to \<open>4 * C\<close> channels, and the linear map without bias
  projects them to \<open>2 * C\<close>.  The batch size and the channel count are positive.
\<close>

theorem PatchMerging_shape:
  assumes "0 < B" and "0 < C"
  shows "PatchMerging_forward_shape 16 [1, 64, 16] 8 8 = Inr [1, 16, 32]
       \<and> PatchMerging_forward_shape C [B, H * W, C] H W
           = Inr [B, nat \<lceil>real H / 2\<rceil> * nat \<lceil>real W / 2\<rceil>, 2 * C]"
  using PatchMerging_forward_shape_ok [of 1 16 8 8] PatchMerging_forward_shape_ok [OF assms, of H W]
  by (simp add: ceiling_half)

theorem PatchMerging_shape_witness:
  "PatchMerging_forward_shape 16 [1, 64, 16] 8 8 = Inr [1, 16, 32]
   \<and> PatchMerging_forward_shape 16 [1, 35, 16] 5 7 = Inr [1, 12, 32]"
  using PatchMerging_shape [of 1 16 5 7] by (simp add: ceiling_half)

section \<open>The shapes of window attention and of the shifted-window block\<close>

lemma wf_full [simp]: "wf (full s v)"
  by (simp add: full_def wf_def)

lemma broadcast_rev_same: "broadcast_rev s s = Inr s"
  by (induction s) auto

lemma broadcast_shapes_same [simp]: "broadcast_shapes s s = Inr s"
  by (simp add: broadcast_shapes_def broadcast_rev_same)

lemma broadcast_shapes_batch1: "broadcast_shapes (b # s) (1 # s) = Inr (b # s)"
proof -
  have "broadcast_rev (xs @ [b]) (xs @ [1]) = Inr (xs @ [b])" for xs
    by (induction xs) auto
  from this [of "rev s"] show ?thesis by (simp add: broadcast_shapes_def)
qed

lemma WindowAttention_forward_shape_ok:
  assumes R: "make_relative_position_index (a, b) = Inr (relative_position_index self)"
    and ws: "wa_window_size self = (a, b)" and pos: "0 < a" "0 < b"
    and nh: "wa_num_heads self = nh" "0 < nh" and C: "wa_dim self = C" "nh dvd C"
    and msk: "msk = None \<or> (\<exists>nW. msk = Some [nW, a * b, a * b] \<and> 0 < nW \<and> nW dvd Bw)"
  shows "WindowAttention_forward_shape self [Bw, a * b, C] msk = Inr [Bw, a * b, C]"
proof -
  let ?N = "a * b"
  obtain hd where hd: "C = nh * hd" using C(2) by (auto simp: dvd_def)
  have cd: "C div nh = hd" using hd nh(2) by simp
  have N: "0 < ?N" using pos by simp
  have l1: "Linear_shape C (C * 3) [Bw, ?N, C] = Inr [Bw, ?N, C * 3]"
    by (simp add: Linear_shape_def)
  have r1: "reshape_shape [Bw, ?N, C * 3] [D Bw, D ?N, D 3, D nh, D hd] = Inr [Bw, ?N, 3, nh, hd]"
    using reshape_shape_known [of "[Bw, ?N, 3, nh, hd]" "[Bw, ?N, C * 3]"]
    by (simp add: hd ac_simps)
  have p1: "permute_shape [Bw, ?N, 3, nh, hd] [2, 0, 3, 1, 4] = Inr [3, Bw, nh, ?N, hd]"
    by (simp add: permute_shape_def is_perm_def)
  have sel: "select0_shape [3, Bw, nh, ?N, hd] 0 = Inr [Bw, nh, ?N, hd]"
    "select0_shape [3, Bw, nh, ?N, hd] 1 = Inr [Bw, nh, ?N, hd]"
    "select0_shape [3, Bw, nh, ?N, hd] 2 = Inr [Bw, nh, ?N, hd]"
    by (simp_all add: select0_shape_def)
  have tr: "transpose_shape [Bw, nh, ?N, hd] (length [Bw, nh, ?N, hd] - 2)
      (length [Bw, nh, ?N, hd] - 1) = Inr [Bw, nh, hd, ?N]"
    by (simp add: transpose_shape_def)
  have mm: "matmul_shape [Bw, nh, ?N, hd] [Bw, nh, hd, ?N] = Inr [Bw, nh, ?N, ?N]"
    by (simp add: matmul_shape_def)
  let ?table = "full [nat ((2 * int a - 1) * (2 * int b - 1)), nh] ()"
  from relative_position_bias_get [OF R ws pos, of ?table nh] obtain bias where
    bias: "relative_position_bias self ?table = Inr bias" and sb: "shape bias = [nh, ?N, ?N]"
    by auto
  have us: "unsqueeze_shape [nh, ?N, ?N] 0 = Inr [1, nh, ?N, ?N]"
    by (simp add: unsqueeze_shape_def)
  have bc: "broadcast_shapes [Bw, nh, ?N, ?N] [1, nh, ?N, ?N] = Inr [Bw, nh, ?N, ?N]"
    by (rule broadcast_shapes_batch1)
  have mk: "(case msk of
               None \<Rightarrow> Inr [Bw, nh, ?N, ?N]
             | Some m \<Rightarrow>
                 (case m of
                    [] \<Rightarrow> Inl IndexError
                  | nW # _ \<Rightarrow>
                      if nW = 0 then Inl ZeroDivisionError
                      else
                        thenE (reshape_shape [Bw, nh, ?N, ?N] [D (Bw div nW), D nW,
                                 D nh, D ?N, D ?N]) (\<lambda>attn.
                        thenE (unsqueeze_shape m 1) (\<lambda>m1.
                        thenE (unsqueeze_shape m1 0) (\<lambda>m2.
                        thenE (broadcast_shapes attn m2) (\<lambda>attn.
                        reshape_shape attn [Infer, D nh, D ?N, D ?N]))))))
        = Inr [Bw, nh, ?N, ?N]"
  proof (cases msk)
    case None
    then show ?thesis by simp
  next
    case (Some m)
    then obtain nW where m: "m = [nW, ?N, ?N]" and nW: "0 < nW" "nW dvd Bw" using msk by auto
    obtain g where g: "Bw = nW * g" using nW(2) by (auto simp: dvd_def)
    have gd: "Bw div nW = g" using g nW(1) by simp
    have r2: "reshape_shape [Bw, nh, ?N, ?N] [D g, D nW, D nh, D ?N, D ?N] = Inr [g, nW, nh, ?N, ?N]"
      using reshape_shape_known [of "[g, nW, nh, ?N, ?N]" "[Bw, nh, ?N, ?N]"]
      by (simp add: g ac_simps)
    have u1: "unsqueeze_shape [nW, ?N, ?N] 1 = Inr [nW, 1, ?N, ?N]"
      and u2: "unsqueeze_shape [nW, 1, ?N, ?N] 0 = Inr [1, nW, 1, ?N, ?N]"
      by (simp_all add: unsqueeze_shape_def)
    have b2: "broadcast_shapes [g, nW, nh, ?N, ?N] [1, nW, 1, ?N, ?N] = Inr [g, nW, nh, ?N, ?N]"
      by (simp add: broadcast_shapes_def)
    have "g * nW * nh * ?N * ?N = Bw * (nh * ?N * ?N)" by (simp add: g ac_simps)
    then have d: "(g * nW * nh * ?N * ?N) mod (nh * ?N * ?N) = 0"
      "(g * nW * nh * ?N * ?N) div (nh * ?N * ?N) = Bw"
      using nh(2) N by simp_all
    have r3: "reshape_shape [g, nW, nh, ?N, ?N] [Infer, D nh, D ?N, D ?N] = Inr [Bw, nh, ?N, ?N]"
      using d nh(2) N by (simp add: reshape_shape_def infer_size_def mult.assoc)
    show ?thesis
      unfolding Some m using nW(1) by (simp only: option.case list.case gd r2 u1 u2 b2 r3 thenE_simps) simp
  qed
  have m2: "matmul_shape [Bw, nh, ?N, ?N] [Bw, nh, ?N, hd] = Inr [Bw, nh, ?N, hd]"
    by (simp add: matmul_shape_def)
  have t2: "transpose_shape [Bw, nh, ?N, hd] 1 2 = Inr [Bw, ?N, nh, hd]"
    by (simp add: transpose_shape_def)
  have r4: "reshape_shape [Bw, ?N, nh, hd] [D Bw, D ?N, D C] = Inr [Bw, ?N, C]"
    using reshape_shape_known [of "[Bw, ?N, C]" "[Bw, ?N, nh, hd]"] by (simp add: hd ac_simps)
  have l2: "Linear_shape C C [Bw, ?N, C] = Inr [Bw, ?N, C]"
    by (simp add: Linear_shape_def)
  show ?thesis
    unfolding WindowAttention_forward_shape_def
    using nh(2)
    by (simp only: list.case C(1) nh(1) ws fst_conv snd_conv l1 cd r1 p1 sel tr mm bias sb us bc
        mk m2 t2 r4 l2 thenE_simps) simp
qed

lemma pad_to_window:
  assumes "0 < ws"
  shows "n + (ws - n mod ws) mod ws = nat \<lceil>real n / real ws\<rceil> * ws"
proof (cases "n mod ws = 0")
  case True
  then obtain k where k: "n = k * ws" by (metis dvd_div_mult_self dvd_eq_mod_eq_0)
  have "real n / real ws = real k" using assms k by simp
  then have "nat \<lceil>real n / real ws\<rceil> = k" by simp
  then show ?thesis using True k by simp
next
  case False
  define k where "k = n div ws"
  define r where "r = n mod ws"
  have n: "n = k * ws + r" by (simp add: k_def r_def)
  have r: "0 < r" "r < ws" using False assms by (simp_all add: r_def)
  have "\<lceil>real n / real ws\<rceil> = int (k + 1)"
  proof (rule ceiling_unique)
    have "real n / real ws = real k + real r / real ws"
      using assms by (simp add: n field_simps)
    moreover have "0 < real r / real ws" "real r / real ws < 1" using r by simp_all
    ultimately show "real_of_int (int (k + 1)) - 1 < real n / real ws"
      and "real n / real ws \<le> real_of_int (int (k + 1))" by simp_all
  qed
  then have c: "nat \<lceil>real n / real ws\<rceil> = k + 1" by simp
  have "(ws - n mod ws) mod ws = ws - r" using r by (simp add: r_def)
  then show ?thesis unfolding c using r by (simp add: n)
qed

lemma ceiling_div_pos:
  assumes "0 < ws" "0 < n"
  shows "0 < nat \<lceil>real n / real ws\<rceil>"
proof -
  have "0 < real n / real ws" using assms by simp
  then have "0 < \<lceil>real n / real ws\<rceil>" by (simp add: ceiling_less_iff[symmetric] less_ceiling_iff)
  then show ?thesis by simp
qed

lemma window_partition_shape_ok:
  assumes "0 < ws" "0 < C"
  shows "window_partition_shape [B, h * ws, w * ws, C] ws = Inr [B * h * w, ws, ws, C]"
proof -
  have r1: "reshape_shape [B, h * ws, w * ws, C] [D B, D h, D ws, D w, D ws, D C]
      = Inr [B, h, ws, w, ws, C]"
    using reshape_shape_known [of "[B, h, ws, w, ws, C]" "[B, h * ws, w * ws, C]"]
    by (simp add: ac_simps)
  have p: "permute_shape [B, h, ws, w, ws, C] [0, 1, 3, 2, 4, 5] = Inr [B, h, w, ws, ws, C]"
    by (simp add: permute_shape_def is_perm_def)
  have "B * h * w * ws * ws * C = (B * h * w) * (ws * ws * C)" by (simp add: ac_simps)
  then have d: "(B * h * w * ws * ws * C) mod (ws * ws * C) = 0"
    "(B * h * w * ws * ws * C) div (ws * ws * C) = B * h * w"
    using assms by simp_all
  have r2: "reshape_shape [B, h, w, ws, ws, C] [Infer, D ws, D ws, D C] = Inr [B * h * w, ws, ws, C]"
    using assms d by (simp add: reshape_shape_def infer_size_def mult.assoc)
  have z: "(ws = 0) = False" "h * ws div ws = h" "w * ws div ws = w" using assms by simp_all
  show ?thesis
    unfolding window_partition_shape_def
    by (simp only: list.case z if_False r1 p r2 thenE_simps)
qed

lemma window_reverse_shape_ok:
  assumes "0 < ws" "0 < h" "0 < w" "0 < B" "0 < C"
  shows "window_reverse_shape [B * h * w, ws, ws, C] ws (h * ws) (w * ws) = Inr [B, h * ws, w * ws, C]"
proof -
  have "B * h * w * ws * ws * C = C * (B * h * w * ws * ws)" by (simp add: ac_simps)
  then have d: "(B * h * w * ws * ws * C) mod (B * h * w * ws * ws) = 0"
    "(B * h * w * ws * ws * C) div (B * h * w * ws * ws) = C"
    using assms by simp_all
  have r1: "reshape_shape [B * h * w, ws, ws, C] [D B, D h, D w, D ws, D ws, Infer]
      = Inr [B, h, w, ws, ws, C]"
    using assms d by (simp add: reshape_shape_def infer_size_def mult.assoc)
  have p: "permute_shape [B, h, w, ws, ws, C] [0, 1, 3, 2, 4, 5] = Inr [B, h, ws, w, ws, C]"
    by (simp add: permute_shape_def is_perm_def)
  have "B * h * ws * w * ws * C = C * (B * (h * ws) * (w * ws))" by (simp add: ac_simps)
  then have d2: "(B * h * ws * w * ws * C) mod (B * (h * ws) * (w * ws)) = 0"
    "(B * h * ws * w * ws * C) div (B * (h * ws) * (w * ws)) = C"
    using assms by simp_all
  have r2: "reshape_shape [B, h, ws, w, ws, C] [D B, D (h * ws), D (w * ws), Infer]
      = Inr [B, h * ws, w * ws, C]"
    using assms d2 by (simp add: reshape_shape_def infer_size_def mult.assoc)
  have z: "(ws = 0 \<or> h * ws * (w * ws) = 0) = False" "h * ws div ws = h" "w * ws div ws = w"
    using assms by simp_all
  show ?thesis
    unfolding window_reverse_shape_def
    by (simp only: list.case z if_False Let_def window_batch [OF assms(1,2,3)] r1 p r2 thenE_simps)
qed

lemma SwinTransformerBlock_forward_shape_ok:
  assumes blk: "blk_dim self = C" "blk_window_size self = ws" "blk_shift_size self = shift"
      "mlp_hidden_dim self = hid"
    and ws: "0 < ws"
    and R: "make_relative_position_index (ws, ws) = Inr (relative_position_index (attn self))"
    and wa: "wa_window_size (attn self) = (ws, ws)" "wa_num_heads (attn self) = nh" "0 < nh"
      "wa_dim (attn self) = C" "nh dvd C"
    and pos: "0 < B" "0 < H" "0 < W" "0 < C"
    and msk: "shift = 0 \<or> mask_matrix
        = [nat \<lceil>real H / real ws\<rceil> * nat \<lceil>real W / real ws\<rceil>, ws * ws, ws * ws]"
  shows "SwinTransformerBlock_forward_shape self H W [B, H * W, C] mask_matrix = Inr [B, H * W, C]"
proof -
  define h where "h = nat \<lceil>real H / real ws\<rceil>"
  define w where "w = nat \<lceil>real W / real ws\<rceil>"
  define pad_r where "pad_r = (ws - W mod ws) mod ws"
  define pad_b where "pad_b = (ws - H mod ws) mod ws"
  have Hp: "H + pad_b = h * ws" and Wp: "W + pad_r = w * ws"
    using pad_to_window [OF ws] by (simp_all add: h_def w_def pad_r_def pad_b_def)
  have hw: "0 < h" "0 < w" using ceiling_div_pos [OF ws] pos by (simp_all add: h_def w_def)
  let ?L = "[B, H * W, C]"
  let ?P = "[B, h * ws, w * ws, C]"
  let ?Wn = "[B * h * w, ws * ws, C]"
  have n1: "LayerNorm_shape C ?L = Inr ?L" by (simp add: LayerNorm_shape_def)
  have r1: "reshape_shape ?L [D B, D H, D W, D C] = Inr [B, H, W, C]"
    using reshape_shape_known [of "[B, H, W, C]" ?L] by (simp add: mult.assoc)
  have pd: "pad_shape [B, H, W, C] [(0, 0), (0, pad_r), (0, pad_b)] = Inr ?P"
    using Hp Wp by (simp add: pad_shape_def)
  have roll: "roll12_shape s = Inr s" if "length s = 4" for s
    using that by (simp add: roll12_shape_def)
  have sh1: "(if 0 < shift then roll12_shape ?P else Inr ?P) = Inr ?P" by (simp add: roll)
  have wp: "window_partition_shape ?P ws = Inr [B * h * w, ws, ws, C]"
    using ws pos(4) by (rule window_partition_shape_ok)
  have "B * h * w * ws * ws * C = (B * h * w) * (ws * ws * C)" by (simp add: ac_simps)
  then have d: "(B * h * w * ws * ws * C) mod (ws * ws * C) = 0"
    "(B * h * w * ws * ws * C) div (ws * ws * C) = B * h * w"
    using ws pos(4) by simp_all
  have r2: "reshape_shape [B * h * w, ws, ws, C] [Infer, D (ws * ws), D C] = Inr ?Wn"
    using ws pos(4) d by (simp add: reshape_shape_def infer_size_def mult.assoc)
  have mk: "(if 0 < shift then Some mask_matrix else None) = None
      \<or> (\<exists>nW. (if 0 < shift then Some mask_matrix else None) = Some [nW, ws * ws, ws * ws]
            \<and> 0 < nW \<and> nW dvd B * h * w)"
    using msk hw by (auto simp: h_def w_def)
  have at: "WindowAttention_forward_shape (attn self) ?Wn
      (if 0 < shift then Some mask_matrix else None) = Inr ?Wn"
    using R wa(1) ws ws wa(2,3,4,5) mk by (rule WindowAttention_forward_shape_ok)
  have r3: "reshape_shape ?Wn [Infer, D ws, D ws, D C] = Inr [B * h * w, ws, ws, C]"
    using ws pos(4) d by (simp add: reshape_shape_def infer_size_def mult.assoc)
  have wr: "window_reverse_shape [B * h * w, ws, ws, C] ws (h * ws) (w * ws) = Inr ?P"
    using ws hw pos(1,4) by (rule window_reverse_shape_ok)
  have crop: "(if 0 < pad_r \<or> 0 < pad_b then crop_hw_shape ?P H W else Inr ?P) = Inr [B, H, W, C]"
    using Hp Wp by (auto simp: crop_hw_shape_def min_def)
  have r4: "reshape_shape [B, H, W, C] [D B, D (H * W), D C] = Inr ?L"
    using reshape_shape_known [of ?L "[B, H, W, C]"] by (simp add: mult.assoc)
  have mlp: "Mlp_forward_shape C hid ?L = Inr ?L"
    by (simp add: Mlp_forward_shape_def Linear_shape_def)
  have z: "(H * W \<noteq> H * W) = False" "(ws = 0) = False" using ws by simp_all
  show ?thesis
    unfolding SwinTransformerBlock_forward_shape_def blk Let_def
    unfolding pad_r_def [symmetric] pad_b_def [symmetric]
    by (simp only: list.case z if_False n1 r1 pd sh1 wp r2 at r3 wr crop r4
        broadcast_shapes_same mlp thenE_simps)
qed

lemma SwinTransformerBlock_init_facts:
  assumes "SwinTransformerBlock_init dim' num_heads window_size shift_size = Inr self"
  shows "blk_dim self = nat dim'" "blk_window_size self = nat window_size"
    "blk_shift_size self = nat shift_size" "0 \<le> shift_size" "shift_size < window_size"
    "WindowAttention_init dim' (window_size, window_size) num_heads = Inr (attn self)"
  using assms
  by (auto simp: SwinTransformerBlock_init_def thenE_def split: if_splits sum.splits)

lemma WindowAttention_init_ok:
  assumes "0 < num_heads" "num_heads \<le> dim'" "0 < a" "0 < b"
  shows "\<exists>self. WindowAttention_init dim' (a, b) num_heads = Inr self"
proof -
  from relative_position_index_closed [of "nat a" "nat b"] obtain R where
    R: "make_relative_position_index (nat a, nat b) = Inr R" by blast
  have "0 < dim' div num_heads"
    using assms(1,2) by (simp add: pos_imp_zdiv_pos_iff)
  then have hd: "dim' div num_heads \<noteq> 0" by simp
  have "0 \<le> (2 * a - 1) * (2 * b - 1)" using assms(3,4) by simp
  then have nn: "\<not> (2 * a - 1) * (2 * b - 1) < 0" by simp
  show ?thesis
    using assms hd nn R by (simp add: WindowAttention_init_def Let_def)
qed

lemma WindowAttention_init_head_dim:
  assumes "WindowAttention_init dim' (a, b) num_heads = Inr self"
  shows "dim' div num_heads \<noteq> 0"
  using assms by (auto simp: WindowAttention_init_def Let_def split: if_splits)

lemma SwinTransformerBlock_init_ok:
  assumes "0 < num_heads" "num_heads \<le> dim'" "0 \<le> shift_size" "shift_size < window_size"
  shows "\<exists>self. SwinTransformerBlock_init dim' num_heads window_size shift_size = Inr self"
proof -
  have "0 < window_size" using assms(3,4) by simp
  from WindowAttention_init_ok [OF assms(1,2) this this] obtain a where
    "WindowAttention_init dim' (window_size, window_size) num_heads = Inr a" by blast
  then show ?thesis using assms by (simp add: SwinTransformerBlock_init_def)
qed



section \<open>What construction checks and what it leaves to forward\<close>

lemma WindowAttention_forward_shape_indivisible:
  assumes "wa_dim self = C" "wa_num_heads self = nh" "0 < nh" "\<not> nh dvd C" "0 < Bw" "0 < N"
  shows "WindowAttention_forward_shape self [Bw, N, C] msk = Inl RuntimeError"
proof -
  have l1: "Linear_shape C (C * 3) [Bw, N, C] = Inr [Bw, N, C * 3]"
    by (simp add: Linear_shape_def)
  have "nh * (C div nh) \<noteq> C" using assms(4) by (metis dvd_triv_left)
  then have "Bw * (N * (3 * (nh * (C div nh)))) \<noteq> Bw * (N * (C * 3))"
    using assms(5,6) by simp
  then have r1: "reshape_shape [Bw, N, C * 3] [D Bw, D N, D 3, D nh, D (C div nh)]
      = Inl RuntimeError"
    by (simp add: reshape_shape_def infer_size_def)
  have z: "(nh = 0) = False" using assms(3) by simp
  show ?thesis
    unfolding WindowAttention_forward_shape_def
    by (simp only: list.case assms(1,2) l1 z if_False r1 thenE_simps)
qed

text \<open>
  Claim C9, as stated, fails: a \<open>WindowAttention\<close> and a \<open>SwinTransformerBlock\<close> with 10
  channels and 4 heads are constructed without error, and \<open>forward\<close> of that attention
  raises RuntimeError on an input of shape \<open>(1, 49, 10)\<close>.
\<close>

theorem indivisible_heads_counterexample:
  "\<not> (4 :: int) dvd 10
   \<and> \<not> isl (WindowAttention_init 10 (7, 7) 4)
   \<and> \<not> isl (SwinTransformerBlock_init 10 4 7 0)
   \<and> thenE (WindowAttention_init 10 (7, 7) 4)
        (\<lambda>self. WindowAttention_forward_shape self [1, 49, 10] None) = Inl RuntimeError"
proof -
  from WindowAttention_init_ok [of 4 10 7 7] obtain self where
    i: "WindowAttention_init 10 (7, 7) 4 = Inr self" by auto
  from SwinTransformerBlock_init_ok [of 4 10 0 7] obtain blk where
    b: "SwinTransformerBlock_init 10 4 7 0 = Inr blk" by auto
  note a = WindowAttention_init_index [OF i]
  have "WindowAttention_forward_shape self [1, 49, 10] None = Inl RuntimeError"
    by (rule WindowAttention_forward_shape_indivisible [of self 10 4])
       (use a in simp_all)
  then show ?thesis using i b by simp
qed

text \<open>
  Claim C9, amended.  A shift size outside \<open>[0, window size)\<close> is rejected when the
  \<open>SwinTransformerBlock\<close> is constructed, by its assertion, so that every constructed
  block holds a shift size of that range and \<open>forward\<close> has nothing to reject.  The
  construction does not check that the head count divides the channel count: with a
  positive head count that is at most the channel count, a \<open>WindowAttention\<close> is
  constructed for every positive window, and a \<open>SwinTransformerBlock\<close> for every shift
  size that its assertion accepts.  \<open>WindowAttention.forward\<close> can fail at runtime: when
  the head count does not divide the channel count, it raises RuntimeError on every
  non-empty input of that channel count, with or without a mask (the reshape of \<open>qkv\<close>
  fails).  When the head count divides the channel count, \<open>forward\<close> returns the shape
  of its input on every batch of windows, of shape \<open>(B_, N, dim)\<close> with \<open>N\<close> the area of
  the window, without a mask and with a mask of shape \<open>(nW, N, N)\<close> whose \<open>nW > 0\<close>
  divides \<open>B_\<close>.
\<close>

theorem construction_and_forward_checks:
  "(\<not> (0 \<le> shift_size \<and> shift_size < window_size)
      \<longrightarrow> SwinTransformerBlock_init dim' num_heads window_size shift_size = Inl AssertionError)
   \<and> (SwinTransformerBlock_init dim' num_heads window_size shift_size = Inr blk
      \<longrightarrow> blk_shift_size blk = nat shift_size \<and> blk_window_size blk = nat window_size
          \<and> blk_shift_size blk < blk_window_size blk)
   \<and> (0 < num_heads \<and> num_heads \<le> dim' \<and> 0 < a \<and> 0 < b
      \<longrightarrow> (\<exists>self. WindowAttention_init dim' (a, b) num_heads = Inr self))
   \<and> (0 < num_heads \<and> num_heads \<le> dim' \<and> 0 \<le> shift_size \<and> shift_size < window_size
      \<longrightarrow> (\<exists>blk. SwinTransformerBlock_init dim' num_heads window_size shift_size = Inr blk))
   \<and> (WindowAttention_init dim' (a, b) num_heads = Inr self \<and> \<not> num_heads dvd dim'
        \<and> 0 < Bw \<and> 0 < N
      \<longrightarrow> WindowAttention_forward_shape self [Bw, N, nat dim'] msk = Inl RuntimeError)
   \<and> (WindowAttention_init dim' (a, b) num_heads = Inr self \<and> num_heads dvd dim'
        \<and> 0 < a \<and> 0 < b
        \<and> (msk = None
            \<or> (\<exists>nW. msk = Some [nW, nat a * nat b, nat a * nat b] \<and> 0 < nW \<and> nW dvd Bw))
      \<longrightarrow> WindowAttention_forward_shape self [Bw, nat a * nat b, nat dim'] msk
            = Inr [Bw, nat a * nat b, nat dim'])"
proof (intro conjI impI)
  assume "\<not> (0 \<le> shift_size \<and> shift_size < window_size)"
  then show "SwinTransformerBlock_init dim' num_heads window_size shift_size = Inl AssertionError"
    by (simp add: SwinTransformerBlock_init_def)
next
  assume i: "SwinTransformerBlock_init dim' num_heads window_size shift_size = Inr blk"
  note f = SwinTransformerBlock_init_facts [OF i]
  show "blk_shift_size blk = nat shift_size" by (rule f(3))
  show "blk_window_size blk = nat window_size" by (rule f(2))
  show "blk_shift_size blk < blk_window_size blk" using f(2,3,4,5) by simp
next
  assume "0 < num_heads \<and> num_heads \<le> dim' \<and> 0 < a \<and> 0 < b"
  then show "\<exists>self. WindowAttention_init dim' (a, b) num_heads = Inr self"
    using WindowAttention_init_ok by blast
next
  assume "0 < num_heads \<and> num_heads \<le> dim' \<and> 0 \<le> shift_size \<and> shift_size < window_size"
  then show "\<exists>blk. SwinTransformerBlock_init dim' num_heads window_size shift_size = Inr blk"
    using SwinTransformerBlock_init_ok by blast
next
  assume h: "WindowAttention_init dim' (a, b) num_heads = Inr self \<and> \<not> num_heads dvd dim'
        \<and> 0 < Bw \<and> 0 < N"
  then have i: "WindowAttention_init dim' (a, b) num_heads = Inr self" by simp
  note f = WindowAttention_init_index [OF i]
  have nd: "\<not> nat num_heads dvd nat dim'" using h f(7,8) by (simp add: nat_dvd_iff)
  show "WindowAttention_forward_shape self [Bw, N, nat dim'] msk = Inl RuntimeError"
    by (rule WindowAttention_forward_shape_indivisible [OF f(4) f(3) _ nd])
       (use f(7) h in simp_all)
next
  assume h: "WindowAttention_init dim' (a, b) num_heads = Inr self \<and> num_heads dvd dim'
        \<and> 0 < a \<and> 0 < b
        \<and> (msk = None
            \<or> (\<exists>nW. msk = Some [nW, nat a * nat b, nat a * nat b] \<and> 0 < nW \<and> nW dvd Bw))"
  then have i: "WindowAttention_init dim' (a, b) num_heads = Inr self" by simp
  note f = WindowAttention_init_index [OF i]
  have dv: "nat num_heads dvd nat dim'" using h f(7,8) by (simp add: nat_dvd_iff)
  have m: "msk = None
            \<or> (\<exists>nW. msk = Some [nW, nat a * nat b, nat a * nat b] \<and> 0 < nW \<and> nW dvd Bw)"
    using h by simp
  show "WindowAttention_forward_shape self [Bw, nat a * nat b, nat dim'] msk
            = Inr [Bw, nat a * nat b, nat dim']"
    by (rule WindowAttention_forward_shape_ok [OF f(1,2) _ _ f(3) _ f(4) dv m])
       (use f(7) h in simp_all)
qed

theorem construction_and_forward_checks_witness:
  "SwinTransformerBlock_init 8 2 3 3 = Inl AssertionError
   \<and> SwinTransformerBlock_init 8 2 3 (- 1) = Inl AssertionError
   \<and> \<not> isl (SwinTransformerBlock_init 8 2 3 1)
   \<and> \<not> isl (SwinTransformerBlock_init 10 4 3 1)
   \<and> thenE (SwinTransformerBlock_init 10 4 3 1) (\<lambda>blk. Inr (blk_shift_size blk, blk_window_size blk))
       = Inr (1, 3)
   \<and> thenE (WindowAttention_init 8 (3, 3) 2)
        (\<lambda>self. WindowAttention_forward_shape self [4, 9, 8] None) = Inr [4, 9, 8]
   \<and> thenE (WindowAttention_init 8 (3, 3) 2)
        (\<lambda>self. WindowAttention_forward_shape self [4, 9, 8] (Some [2, 9, 9])) = Inr [4, 9, 8]
   \<and> thenE (WindowAttention_init 10 (3, 3) 4)
        (\<lambda>self. WindowAttention_forward_shape self [4, 9, 10] None) = Inl RuntimeError
   \<and> thenE (WindowAttention_init 10 (3, 3) 4)
        (\<lambda>self. WindowAttention_forward_shape self [4, 9, 10] (Some [2, 9, 9]))
       = Inl RuntimeError"
proof -
  have "(\<exists>self. WindowAttention_init 8 (3, 3) 2 = Inr self)
      \<and> (\<exists>blk. SwinTransformerBlock_init 8 2 3 1 = Inr blk)"
    using construction_and_forward_checks [of 1 3 8 2 b0 3 3 s0 0 0 None] by simp
  then obtain s1 b1 where
    i1: "WindowAttention_init 8 (3, 3) 2 = Inr s1"
    and j1: "SwinTransformerBlock_init 8 2 3 1 = Inr b1" by blast
  have "(\<exists>self. WindowAttention_init 10 (3, 3) 4 = Inr self)
      \<and> (\<exists>blk. SwinTransformerBlock_init 10 4 3 1 = Inr blk)"
    using construction_and_forward_checks [of 1 3 10 4 b0 3 3 s0 0 0 None] by simp
  then obtain s2 b2 where
    i2: "WindowAttention_init 10 (3, 3) 4 = Inr s2"
    and j2: "SwinTransformerBlock_init 10 4 3 1 = Inr b2" by blast
  from construction_and_forward_checks [of 1 3 10 4 b2 3 3] j2
  have k: "blk_shift_size b2 = 1" "blk_window_size b2 = 3" by simp_all
  from construction_and_forward_checks [of 3 3 8 2 b1 3 3 s1 4 9 None] i1
  have a: "SwinTransformerBlock_init 8 2 3 3 = Inl AssertionError"
    "WindowAttention_forward_shape s1 [4, 9, 8] None = Inr [4, 9, 8]" by simp_all
  from construction_and_forward_checks [of 3 3 8 2 b1 3 3 s1 4 9 "Some [2, 9, 9]"] i1
  have a': "WindowAttention_forward_shape s1 [4, 9, 8] (Some [2, 9, 9]) = Inr [4, 9, 8]"
    by simp
  from construction_and_forward_checks [of "- 1" 3 8 2 b1 3 3 s2 4 9 None]
  have b: "SwinTransformerBlock_init 8 2 3 (- 1) = Inl AssertionError" by simp
  from construction_and_forward_checks [of 1 3 10 4 b2 3 3 s2 4 9 None] i2
  have c: "WindowAttention_forward_shape s2 [4, 9, 10] None = Inl RuntimeError" by simp
  from construction_and_forward_checks [of 1 3 10 4 b2 3 3 s2 4 9 "Some [2, 9, 9]"] i2
  have c': "WindowAttention_forward_shape s2 [4, 9, 10] (Some [2, 9, 9]) = Inl RuntimeError"
    by simp
  show ?thesis using a a' b c c' i1 i2 j1 j2 k by simp
qed

section \<open>The shapes of the stages and of the backbone\<close>

lemma label_regions_shape:
  assumes "shape img = [B, H, W, C]" "wf img"
  shows "\<exists>img'. label_regions ps img cnt = Inr img' \<and> shape img' = [B, H, W, C] \<and> wf img'"
  using assms
proof (induction ps arbitrary: img cnt)
  case Nil
  then show ?case by simp
next
  case (Cons p ps)
  obtain h w where p: "p = (h, w)" by (cases p)
  obtain m where m: "assign_hw img h w cnt = Inr m" "shape m = [B, H, W, C]" "wf m"
    using Cons.prems by (simp add: assign_hw_def Let_def)
  from Cons.IH [OF m(2,3), of "cnt + 1"] show ?case using m(1) p by simp
qed

lemma BasicLayer_attn_mask_shape:
  assumes "0 < ws"
  shows "\<exists>m. BasicLayer_attn_mask ws shift H W = Inr m
     \<and> shape m = [nat \<lceil>real H / real ws\<rceil> * nat \<lceil>real W / real ws\<rceil>, ws * ws, ws * ws]"
proof -
  define h where "h = nat \<lceil>real H / real ws\<rceil>"
  define w where "w = nat \<lceil>real W / real ws\<rceil>"
  let ?img0 = "full [1, h * ws, w * ws, 1] (0::int)"
  let ?sl = "[(Some 0, Some (- int ws)), (Some (- int ws), Some (- int shift)),
              (Some (- int shift), None)] :: slice list"
  from label_regions_shape [of ?img0 1 "h * ws" "w * ws" 1 "List.product ?sl ?sl" 0]
  obtain img where img: "label_regions (List.product ?sl ?sl) ?img0 0 = Inr img"
    and si: "shape img = [1, h * ws, w * ws, 1]" and wi: "wf img"
    by auto
  from window_partition_get [OF si assms] obtain y where
    y: "window_partition img ws = Inr y" and sy: "shape y = [1 * h * w, ws, ws, 1]"
    by auto
  let ?mw = "y\<lparr>shape := [h * w, ws * ws]\<rparr>"
  have "1 * h * w * ws * ws * 1 = (h * w) * (ws * ws)" by (simp add: ac_simps)
  then have d: "(1 * h * w * ws * ws * 1) mod (ws * ws) = 0"
    "(1 * h * w * ws * ws * 1) div (ws * ws) = h * w"
    using assms by simp_all
  have vw: "view y [Infer, D (ws * ws)] = Inr ?mw"
    using assms d by (simp add: view_def infer_size_def sy mult.assoc)
  have smw: "shape ?mw = [h * w, ws * ws]" by simp
  from pairwise_difference [OF smw, of "\<lambda>x y. x - y"] obtain lhs rhs d where
    u1: "unsqueeze ?mw 1 = Inr lhs" and u2: "unsqueeze ?mw 2 = Inr rhs"
    and bd: "broadcast2 (\<lambda>x y. x - y) lhs rhs = Inr d"
    and sd: "shape d = [h * w, ws * ws, ws * ws]"
    by blast
  let ?m = "tmap (\<lambda>x. if x = 0 then 0 else - 100) d"
  have "BasicLayer_attn_mask ws shift H W = Inr ?m"
    using assms img y vw u1 u2 bd
    by (simp add: BasicLayer_attn_mask_def Let_def masked_fill_twice h_def w_def)
  then show ?thesis using sd by (simp add: h_def w_def)
qed

lemma run_blocks_ok:
  assumes "list_all (good_block C ws) blks" "0 < B" "0 < H" "0 < W"
    and "attn_mask = [nat \<lceil>real H / real ws\<rceil> * nat \<lceil>real W / real ws\<rceil>, ws * ws, ws * ws]"
  shows "run_blocks blks H W [B, H * W, C] attn_mask = Inr [B, H * W, C]"
  using assms(1)
proof (induction blks)
  case Nil
  then show ?case by simp
next
  case (Cons blk blks)
  then have g: "good_block C ws blk" and rest: "list_all (good_block C ws) blks" by simp_all
  have "SwinTransformerBlock_forward_shape blk H W [B, H * W, C] attn_mask = Inr [B, H * W, C]"
    using g assms(2-)
    by (intro SwinTransformerBlock_forward_shape_ok [where ws = ws and nh = "wa_num_heads (attn blk)"])
       (simp_all add: good_block_def)
  then show ?case using Cons.IH [OF rest] by simp
qed

lemma BasicLayer_forward_shape_ok:
  assumes "good_layer C ws has_downsample layer" "0 < ws" "0 < B" "0 < H" "0 < W" "0 < C"
  shows "BasicLayer_forward_shape layer [B, H * W, C] H W
       = Inr ([B, H * W, C], H, W,
              (if has_downsample then [B, ((H + 1) div 2) * ((W + 1) div 2), 2 * C]
               else [B, H * W, C]),
              (if has_downsample then (H + 1) div 2 else H),
              (if has_downsample then (W + 1) div 2 else W))"
proof -
  from BasicLayer_attn_mask_shape [OF assms(2), of "bl_shift_size layer" H W] obtain m where
    m: "BasicLayer_attn_mask ws (bl_shift_size layer) H W = Inr m"
    and sm: "shape m = [nat \<lceil>real H / real ws\<rceil> * nat \<lceil>real W / real ws\<rceil>, ws * ws, ws * ws]"
    by blast
  have bw: "bl_window_size layer = ws" using assms(1) by (simp add: good_layer_def)
  have rb: "run_blocks (blocks layer) H W [B, H * W, C] (shape m) = Inr [B, H * W, C]"
    using assms(1,3,4,5) sm by (intro run_blocks_ok [where ws = ws]) (simp_all add: good_layer_def)
  have pm: "PatchMerging_forward_shape C [B, H * W, C] H W
      = Inr [B, ((H + 1) div 2) * ((W + 1) div 2), 2 * C]"
    using assms(3,6) by (rule PatchMerging_forward_shape_ok)
  show ?thesis
    using assms(1) by (simp add: BasicLayer_forward_shape_def bw m rb pm good_layer_def)
qed

lemma sequence_map_ok:
  assumes "\<And>i. i \<in> set xs \<Longrightarrow> \<exists>v. f i = Inr v \<and> P v"
  shows "\<exists>vs. sequence (map f xs) = Inr vs \<and> list_all P vs \<and> length vs = length xs"
  using assms
proof (induction xs)
  case Nil
  then show ?case by simp
next
  case (Cons x xs)
  from Cons.prems [of x] obtain v where v: "f x = Inr v" "P v" by auto
  from Cons.IH Cons.prems obtain vs where
    vs: "sequence (map f xs) = Inr vs" "list_all P vs" "length vs = length xs" by auto
  show ?case using v vs by simp
qed

lemma good_block_init:
  assumes "SwinTransformerBlock_init dim' num_heads window_size shift_size = Inr blk"
    and "num_heads dvd dim'"
  shows "good_block (nat dim') (nat window_size) blk"
proof -
  note b = SwinTransformerBlock_init_facts [OF assms(1)]
  note a = WindowAttention_init_index [OF b(6)]
  have hd: "dim' div num_heads \<noteq> 0" using b(6) by (rule WindowAttention_init_head_dim)
  have C: "0 < nat dim'" using hd a(8) by (cases "dim' = 0") auto
  have dv: "nat num_heads dvd nat dim'" using assms(2) a(7,8) by (simp add: nat_dvd_iff)
  show ?thesis
    unfolding good_block_def using b(1,2,4,5) a(1,2,3,4,7) C dv by simp
qed

lemma BasicLayer_init_ok:
  assumes "0 < num_heads" "num_heads \<le> dim'" "num_heads dvd dim'" "0 < window_size"
  shows "\<exists>layer. BasicLayer_init dim' depth num_heads window_size has_downsample = Inr layer
     \<and> good_layer (nat dim') (nat window_size) has_downsample layer"
proof -
  let ?f = "\<lambda>i::nat. SwinTransformerBlock_init dim' num_heads window_size
                (if i mod 2 = 0 then 0 else window_size div 2)"
  have "\<exists>v. ?f i = Inr v \<and> good_block (nat dim') (nat window_size) v" for i
  proof -
    have s: "0 \<le> (if i mod 2 = 0 then 0 else window_size div 2)"
      "(if i mod 2 = 0 then 0 else window_size div 2) < window_size"
      using assms(4) by auto
    from SwinTransformerBlock_init_ok [OF assms(1,2) s] obtain v where v: "?f i = Inr v" by blast
    from good_block_init [OF v assms(3)] v show ?thesis by blast
  qed
  from sequence_map_ok [of "[0 ..< depth]" ?f "good_block (nat dim') (nat window_size)", OF this]
  obtain blks where blks: "sequence (map ?f [0 ..< depth]) = Inr blks"
    "list_all (good_block (nat dim') (nat window_size)) blks" by blast
  have "\<not> dim' < 0" using assms(1,2) by simp
  then show ?thesis using blks by (simp add: BasicLayer_init_def good_layer_def)
qed

lemma BEN_backbone_init:
  "\<exists>bb. SwinTransformer_init 128 [2, 2, 18, 2] [4, 8, 16, 32] 12 = Inr bb
     \<and> st_embed_dim bb = 128 \<and> st_num_features bb = [128, 256, 512, 1024]
     \<and> (\<exists>l0 l1 l2 l3. st_layers bb = [l0, l1, l2, l3]
          \<and> good_layer 128 12 True l0 \<and> good_layer 256 12 True l1
          \<and> good_layer 512 12 True l2 \<and> good_layer 1024 12 False l3)"
proof -
  from BasicLayer_init_ok [of 4 128 12 2 True] obtain l0 where
    l0: "BasicLayer_init 128 2 4 12 True = Inr l0" "good_layer 128 12 True l0" by auto
  from BasicLayer_init_ok [of 8 256 12 2 True] obtain l1 where
    l1: "BasicLayer_init 256 2 8 12 True = Inr l1" "good_layer 256 12 True l1" by auto
  from BasicLayer_init_ok [of 16 512 12 18 True] obtain l2 where
    l2: "BasicLayer_init 512 18 16 12 True = Inr l2" "good_layer 512 12 True l2" by auto
  from BasicLayer_init_ok [of 32 1024 12 2 False] obtain l3 where
    l3: "BasicLayer_init 1024 2 32 12 False = Inr l3" "good_layer 1024 12 False l3" by auto
  have u: "[0 ..< 4] = [0, 1, 2, 3]" by (simp add: upt_rec)
  have "SwinTransformer_init 128 [2, 2, 18, 2] [4, 8, 16, 32] 12
      = Inr \<lparr>st_embed_dim = 128, st_layers = [l0, l1, l2, l3],
             st_num_features = [128, 256, 512, 1024]\<rparr>"
    using l0(1) l1(1) l2(1) l3(1) by (simp add: SwinTransformer_init_def u)
  then show ?thesis using l0(2) l1(2) l2(2) l3(2) by simp
qed

lemma out_view:
  assumes "0 < H" "0 < W" "0 < C"
  shows "thenE (reshape_shape [N, H * W, C] [Infer, D H, D W, D C])
           (\<lambda>out. permute_shape out [0, 3, 1, 2]) = Inr [N, C, H, W]"
proof -
  have "N * (H * W) * C = N * (H * W * C)" by (simp add: ac_simps)
  then have d: "(N * (H * W) * C) mod (H * W * C) = 0" "(N * (H * W) * C) div (H * W * C) = N"
    using assms by simp_all
  have "reshape_shape [N, H * W, C] [Infer, D H, D W, D C] = Inr [N, H, W, C]"
    using assms d by (simp add: reshape_shape_def infer_size_def mult.assoc)
  then show ?thesis by (simp add: permute_shape_def is_perm_def)
qed

lemma PatchEmbed_forward_shape_512:
  "PatchEmbed_forward_shape 4 128 [N, 3, 512, 512] = Inr [N, 128, 128, 128]"
proof -
  have c: "Conv2d_shape 3 128 4 4 0 [N, 3, 512, 512] = Inr [N, 128, 128, 128]"
    by (simp add: Conv2d_shape_def)
  have f: "flatten2_shape [N, 128, 128, 128] = Inr [N, 128, 128 * 128]"
    by (simp add: flatten2_shape_def)
  have t1: "transpose_shape [N, 128, 128 * 128] 1 2 = Inr [N, 128 * 128, 128]"
    by (simp add: transpose_shape_def)
  have n: "LayerNorm_shape 128 [N, 128 * 128, 128] = Inr [N, 128 * 128, 128]"
    by (simp add: LayerNorm_shape_def)
  have t2: "transpose_shape [N, 128 * 128, 128] 1 2 = Inr [N, 128, 128 * 128]"
    by (simp add: transpose_shape_def)
  have "N * 128 * (128 * 128) = N * (128 * 128 * 128)" by simp
  then have d: "(N * 128 * (128 * 128)) mod (128 * 128 * 128) = 0"
    "(N * 128 * (128 * 128)) div (128 * 128 * 128) = N"
    by simp_all
  have r: "reshape_shape [N, 128, 128 * 128] [Infer, D 128, D 128, D 128] = Inr [N, 128, 128, 128]"
    using d by (simp add: reshape_shape_def infer_size_def)
  have z: "(4 = (0::nat)) = False" "(512 mod 4 \<noteq> (0::nat)) = False"
    "[N, 128, 128, 128] ! 2 = 128" "[N, 128, 128, 128] ! 3 = 128" by simp_all
  show ?thesis
    unfolding PatchEmbed_forward_shape_def Let_def
    by (simp only: list.case z if_False c f t1 n t2 r thenE_simps)
qed

lemma layer_step:
  assumes g: "good_layer C 12 has_downsample layer" and pos: "0 < N" "0 < H" "0 < W" "0 < C"
    and i: "i < 4" and nf: "num_features ! i = C" and j: "j = i + 1"
  shows "run_layers (layer # rest) i num_features [N, H * W, C] H W
       = thenE (run_layers rest j num_features
                  (if has_downsample then [N, ((H + 1) div 2) * ((W + 1) div 2), 2 * C]
                   else [N, H * W, C])
                  (if has_downsample then (H + 1) div 2 else H)
                  (if has_downsample then (W + 1) div 2 else W))
               (\<lambda>outs. Inr ([N, C, H, W] # outs))"
proof -
  have b: "BasicLayer_forward_shape layer [N, H * W, C] H W
       = Inr ([N, H * W, C], H, W,
              (if has_downsample then [N, ((H + 1) div 2) * ((W + 1) div 2), 2 * C]
               else [N, H * W, C]),
              (if has_downsample then (H + 1) div 2 else H),
              (if has_downsample then (W + 1) div 2 else W))"
    using g _ pos by (rule BasicLayer_forward_shape_ok) simp
  have m: "i \<in> set out_indices" using i by (auto simp: out_indices_def)
  have n: "LayerNorm_shape C [N, H * W, C] = Inr [N, H * W, C]"
    by (simp add: LayerNorm_shape_def)
  have ov: "thenE (reshape_shape [N, H * W, C] [Infer, D H, D W, D C])
        (\<lambda>out. thenE (permute_shape out [0, 3, 1, 2]) k) = k [N, C, H, W]" for k :: "nat list \<Rightarrow> error + nat list list"
    using out_view [OF pos(2,3,4), of N]
    by (cases "reshape_shape [N, H * W, C] [Infer, D H, D W, D C]") auto
  show ?thesis
    unfolding run_layers.simps b thenE_simps prod.case nf j
    using m by (simp only: if_True n thenE_simps ov)
qed


lemma layer_step_down:
  assumes "good_layer C 12 True layer" "0 < N" "0 < H" "0 < W" "0 < C"
    and "i < 4" "num_features ! i = C" "j = i + 1"
    and "H2 = (H + 1) div 2" "W2 = (W + 1) div 2" "C2 = 2 * C" "L = H * W" "L2 = H2 * W2"
    and "run_layers rest j num_features [N, L2, C2] H2 W2 = Inr outs"
  shows "run_layers (layer # rest) i num_features [N, L, C] H W = Inr ([N, C, H, W] # outs)"
  using layer_step [OF assms(1-8), of rest] assms(9-)
  by (simp del: run_layers.simps)

lemma layer_step_last:
  assumes "good_layer C 12 False layer" "0 < N" "0 < H" "0 < W" "0 < C"
    and "i < 4" "num_features ! i = C" "L = H * W"
  shows "run_layers [layer] i num_features [N, L, C] H W = Inr [[N, C, H, W]]"
  using layer_step [OF assms(1-7) refl, of "[]"] assms(8)
  by (simp del: run_layers.simps add: run_layers.simps(1))

lemma SwinTransformer_forward_shape_512:
  assumes "st_embed_dim bb = 128" "st_num_features bb = [128, 256, 512, 1024]"
    and "st_layers bb = [l0, l1, l2, l3]"
    and "good_layer 128 12 True l0" "good_layer 256 12 True l1"
    and "good_layer 512 12 True l2" "good_layer 1024 12 False l3"
    and "0 < N"
  shows "SwinTransformer_forward_shape bb [N, 3, 512, 512]
       = Inr [[N, 128, 128, 128], [N, 128, 128, 128], [N, 256, 64, 64], [N, 512, 32, 32],
              [N, 1024, 16, 16]]"
proof -
  let ?nf = "[128, 256, 512, 1024] :: nat list"
  have s3: "run_layers [l3] 3 ?nf [N, 256, 1024] 16 16 = Inr [[N, 1024, 16, 16]]"
    by (rule layer_step_last [OF assms(7) assms(8)]) simp_all
  have s2: "run_layers [l2, l3] 2 ?nf [N, 1024, 512] 32 32
      = Inr [[N, 512, 32, 32], [N, 1024, 16, 16]]"
    by (rule layer_step_down [OF assms(6) assms(8) _ _ _ _ _ _ _ _ _ _ _ s3]) simp_all
  have s1: "run_layers [l1, l2, l3] 1 ?nf [N, 4096, 256] 64 64
      = Inr [[N, 256, 64, 64], [N, 512, 32, 32], [N, 1024, 16, 16]]"
    by (rule layer_step_down [OF assms(5) assms(8) _ _ _ _ _ _ _ _ _ _ _ s2]) simp_all
  have s0: "run_layers [l0, l1, l2, l3] 0 ?nf [N, 16384, 128] 128 128
      = Inr [[N, 128, 128, 128], [N, 256, 64, 64], [N, 512, 32, 32], [N, 1024, 16, 16]]"
    by (rule layer_step_down [OF assms(4) assms(8) _ _ _ _ _ _ _ _ _ _ _ s1]) simp_all
  have f: "flatten2_shape [N, 128, 128, 128] = Inr [N, 128, 16384]"
    by (simp add: flatten2_shape_def)
  have t1: "transpose_shape [N, 128, 16384] 1 2 = Inr [N, 16384, 128]"
    by (simp add: transpose_shape_def)
  show ?thesis
    unfolding SwinTransformer_forward_shape_def assms(1,2,3)
    by (simp only: PatchEmbed_forward_shape_512 thenE_simps list.case f t1 s0)
qed

end
